theory Spec2Isabelle
  imports Complex_Main "HOL-Library.AList" "HOL-Library.Word"
begin

section \<open>Bytes\<close>

type_synonym byte = "8 word"

text \<open>A keyspace id (\<open>key.KeyspaceId\<close>) is a string of bytes.\<close>

type_synonym keyspaceId = "byte list"

section \<open>Byte-string operations of Go's bytes, strings and strconv packages\<close>

text \<open>
  Go byte slices and strings are lists of bytes, written as characters. The functions
  below work byte by byte, as the Go functions do for the arguments the program gives them.
\<close>

definition HasPrefix :: "string \<Rightarrow> string \<Rightarrow> bool" where
  "HasPrefix s p = (take (length p) s = p)"

definition HasSuffix :: "string \<Rightarrow> string \<Rightarrow> bool" where
  "HasSuffix s p = (length p \<le> length s \<and> drop (length s - length p) s = p)"

text \<open>\<open>bytes.Index\<close>: the index of the first occurrence of \<open>sep\<close>, \<open>None\<close> for \<open>-1\<close>.\<close>

fun Index :: "string \<Rightarrow> string \<Rightarrow> nat option" where
  "Index [] sep = (if sep = [] then Some 0 else None)"
| "Index (c # cs) sep =
     (if HasPrefix (c # cs) sep then Some 0 else map_option Suc (Index cs sep))"

text \<open>\<open>bytes.LastIndex\<close>: the index of the last occurrence.\<close>

fun LastIndex :: "string \<Rightarrow> string \<Rightarrow> nat option" where
  "LastIndex [] sep = (if sep = [] then Some 0 else None)"
| "LastIndex (c # cs) sep =
     (case LastIndex cs sep of
        Some i \<Rightarrow> Some (Suc i)
      | None \<Rightarrow> if HasPrefix (c # cs) sep then Some 0 else None)"

text \<open>
  \<open>bytes.Split(s, sep)\<close> for a non-empty separator: the pieces between the
  non-overlapping occurrences of \<open>sep\<close>, found left to right. \<open>cur\<close> is the piece being
  collected. Every separator in the source is a non-empty constant; for the empty
  separator (Go splits after each UTF-8 sequence) the model returns the pieces of length 1.
\<close>

fun Split_from :: "string \<Rightarrow> string \<Rightarrow> string \<Rightarrow> string list" where
  "Split_from sep cur [] = [cur]"
| "Split_from sep cur (c # cs) =
     (if sep = [] then map (\<lambda>x. [x]) (c # cs)
      else if HasPrefix (c # cs) sep then cur # Split_from sep [] (drop (length sep - 1) cs)
      else Split_from sep (cur @ [c]) cs)"

definition Split :: "string \<Rightarrow> string \<Rightarrow> string list" where
  "Split s sep = Split_from sep [] s"

text \<open>\<open>bytes.SplitN(s, sep, 2)\<close>: at most two pieces, cut at the first occurrence.\<close>

definition SplitN2 :: "string \<Rightarrow> string \<Rightarrow> string list" where
  "SplitN2 s sep =
     (case Index s sep of
        None \<Rightarrow> [s]
      | Some i \<Rightarrow> [take i s, drop (i + length sep) s])"

text \<open>
  \<open>bytes.TrimRight(s, cutset)\<close> for a cutset of ASCII characters (the program's cutset is
  a colon): no byte of a multi-byte sequence equals an ASCII character.
\<close>

definition TrimRight :: "string \<Rightarrow> string \<Rightarrow> string" where
  "TrimRight s cutset = rev (dropWhile (\<lambda>c. c \<in> set cutset) (rev s))"

definition isDigit :: "char \<Rightarrow> bool" where
  "isDigit c = ((48::nat) \<le> of_char c \<and> of_char c \<le> (57::nat))"

definition digitVal :: "char \<Rightarrow> nat" where
  "digitVal c = of_char c - 48"

definition decimalValue :: "string \<Rightarrow> nat" where
  "decimalValue s = foldl (\<lambda>n c. 10 * n + digitVal c) 0 s"

text \<open>
  \<open>strconv.ParseUint(s, 10, 64)\<close>: a non-empty string of decimal digits whose value fits
  64 bits; \<open>None\<close> is a non-nil \<open>err\<close> (syntax or range).
\<close>

definition ParseUint :: "string \<Rightarrow> nat option" where
  "ParseUint s =
     (if s \<noteq> [] \<and> list_all isDigit s \<and> decimalValue s < 2 ^ 64 then Some (decimalValue s)
      else None)"

text \<open>\<open>strconv.ParseInt(s, 10, 64)\<close>: an optional sign, then digits; the value fits int64.\<close>

definition ParseInt :: "string \<Rightarrow> int option" where
  "ParseInt s =
     (case s of
        [] \<Rightarrow> None
      | c # cs \<Rightarrow>
          (let neg = (c = CHR ''-'');
               digits = (if c = CHR ''-'' \<or> c = CHR ''+'' then cs else s)
           in if digits \<noteq> [] \<and> list_all isDigit digits
              then (let v = int (decimalValue digits)
                    in if neg then (if v \<le> 2 ^ 63 then Some (- v) else None)
                       else (if v < 2 ^ 63 then Some v else None))
              else None))"

section \<open>Shard records and ShardInfo.Rebuild (go/vt/tabletmanager/shard.go)\<close>

text \<open>
  Modelled from the spec: the declarations of \<open>naming.TabletAlias\<close>, \<open>key.KeyRange\<close>,
  \<open>TabletType\<close> and \<open>Tablet\<close> are not part of the sources at hand. A tablet is identified
  by \<open>(cell, uid)\<close>, its type is one of the enumerated values, and a key range is the pair
  \<open>[start, end)\<close> of keyspace ids (byte strings). Only the fields that \<open>Rebuild\<close> reads
  are kept in \<open>Tablet\<close>.
\<close>

datatype TabletType =
  TYPE_IDLE | TYPE_MASTER | TYPE_REPLICA | TYPE_RDONLY | TYPE_BATCH | TYPE_SPARE
  | TYPE_BACKUP | TYPE_RESTORE | TYPE_LAG | TYPE_LAG_ORPHAN | TYPE_SCRAP

record TabletAlias =
  Cell :: string
  Uid :: nat

record KeyRange =
  Start :: keyspaceId
  End :: keyspaceId

record Tablet =
  tablet_Cell :: string
  tablet_Uid :: nat
  tablet_Type :: TabletType
  tablet_KeyRange :: KeyRange

record TabletInfo =
  Tablet :: Tablet

record Shard =
  MasterAlias :: TabletAlias
  ReplicaAliases :: "TabletAlias list"
  RdonlyAliases :: "TabletAlias list"
  KeyRange :: KeyRange

record ShardInfo =
  keyspace :: string
  shardName :: string
  Shard :: Shard

text \<open>The only error \<open>Rebuild\<close> constructs: \<open>inconsistent KeyRange: %v != %v\<close>.\<close>

datatype RebuildError = InconsistentKeyRange KeyRange KeyRange

text \<open>The zero values of Go: an alias with empty cell and uid 0, a key range of empty keys.\<close>

definition zeroAlias :: TabletAlias where
  "zeroAlias = \<lparr>Cell = [], Uid = 0\<rparr>"

definition zeroKeyRange :: KeyRange where
  "zeroKeyRange = \<lparr>Start = [], End = []\<rparr>"

definition newShard :: Shard where
  "newShard = \<lparr>MasterAlias = zeroAlias, ReplicaAliases = [], RdonlyAliases = [],
     KeyRange = zeroKeyRange\<rparr>"

definition aliasOf :: "Tablet \<Rightarrow> TabletAlias" where
  "aliasOf tablet = \<lparr>Cell = tablet_Cell tablet, Uid = tablet_Uid tablet\<rparr>"

text \<open>The \<open>switch tablet.Type\<close> of the loop body: three cases, no default.\<close>

definition placeAlias :: "Shard \<Rightarrow> Tablet \<Rightarrow> Shard" where
  "placeAlias tmp tablet =
     (case tablet_Type tablet of
        TYPE_MASTER \<Rightarrow> tmp\<lparr>MasterAlias := aliasOf tablet\<rparr>
      | TYPE_REPLICA \<Rightarrow> tmp\<lparr>ReplicaAliases := ReplicaAliases tmp @ [aliasOf tablet]\<rparr>
      | TYPE_RDONLY \<Rightarrow> tmp\<lparr>RdonlyAliases := RdonlyAliases tmp @ [aliasOf tablet]\<rparr>
      | _ \<Rightarrow> tmp)"

text \<open>
  The loop \<open>for i, ti := range shardTablets\<close>: \<open>i\<close> is the index of the head of the
  remaining list, \<open>tmp\<close> the shard built so far. An early \<open>return fmt.Errorf(...)\<close> is
  \<open>Inl\<close>.
\<close>

fun Rebuild_loop :: "nat \<Rightarrow> Shard \<Rightarrow> TabletInfo list \<Rightarrow> RebuildError + Shard" where
  "Rebuild_loop i tmp [] = Inr tmp"
| "Rebuild_loop i tmp (ti # rest) =
     (let tablet = Tablet ti;
          tmp1 = placeAlias tmp tablet
      in if i = 0 then Rebuild_loop (Suc i) (tmp1\<lparr>KeyRange := tablet_KeyRange tablet\<rparr>) rest
         else if KeyRange tmp1 \<noteq> tablet_KeyRange tablet
           then Inl (InconsistentKeyRange (KeyRange tmp1) (tablet_KeyRange tablet))
         else Rebuild_loop (Suc i) tmp1 rest)"

text \<open>
  \<open>Rebuild\<close> mutates its receiver only in the last statement \<open>si.Shard = tmp\<close>; the model
  returns the receiver after the call together with the error (\<open>None\<close> is \<open>nil\<close>).
\<close>

definition Rebuild :: "ShardInfo \<Rightarrow> TabletInfo list \<Rightarrow> ShardInfo \<times> RebuildError option" where
  "Rebuild si shardTablets =
     (case Rebuild_loop 0 newShard shardTablets of
        Inl e \<Rightarrow> (si, Some e)
      | Inr tmp \<Rightarrow> (si\<lparr>Shard := tmp\<rparr>, None))"

text \<open>The tablets of one type, as aliases, in input order.\<close>

definition aliasesOfType :: "TabletType \<Rightarrow> TabletInfo list \<Rightarrow> TabletAlias list" where
  "aliasesOfType ty ts = map (\<lambda>ti. aliasOf (Tablet ti)) (filter (\<lambda>ti. tablet_Type (Tablet ti) = ty) ts)"

text \<open>A master alias field holds one alias: the last master of the list, or the zero alias.\<close>

definition lastOr :: "'a \<Rightarrow> 'a list \<Rightarrow> 'a" where
  "lastOr d xs = (if xs = [] then d else last xs)"

text \<open>All members carry the same key range.\<close>

definition consistentKeyRanges :: "TabletInfo list \<Rightarrow> bool" where
  "consistentKeyRanges ts =
     (\<forall>a \<in> set ts. \<forall>b \<in> set ts. tablet_KeyRange (Tablet a) = tablet_KeyRange (Tablet b))"

text \<open>The three types the \<open>switch\<close> of \<open>Rebuild\<close> has a case for.\<close>

definition servingType :: "TabletType \<Rightarrow> bool" where
  "servingType ty = (ty = TYPE_MASTER \<or> ty = TYPE_REPLICA \<or> ty = TYPE_RDONLY)"

text \<open>A tablet record from its cell, uid, type and key range, for concrete inputs.\<close>

definition mkTabletInfo :: "string \<Rightarrow> nat \<Rightarrow> TabletType \<Rightarrow> keyspaceId \<Rightarrow> keyspaceId \<Rightarrow> TabletInfo" where
  "mkTabletInfo cell uid ty start end' =
     \<lparr>Tablet = \<lparr>tablet_Cell = cell, tablet_Uid = uid, tablet_Type = ty,
        tablet_KeyRange = \<lparr>Start = start, End = end'\<rparr>\<rparr>\<rparr>"

section \<open>Binlog reader: the seek to a start offset (BinlogReader.serve, BinlogReader.ServeData)\<close>

text \<open>
  The binlog directory maps a numeric file id to the bytes of \<open><prefix>.NNNNNN\<close>; the file
  name is represented by its id (\<open>binLogPathForId\<close> formats it, \<open>open\<close> parses it back with
  \<open>Atoi\<close>). \<open>os.Open\<close> fails on an id that is not in the directory, and \<open>open\<close> panics
  with that error: \<open>OpenFailed\<close>. The errors carry what the source logs; \<open>ShortCopy\<close> is
  \<open>io.CopyN\<close> hitting the end of the file before the whole prefix is copied (the bytes it
  copied are already written).
\<close>

type_synonym binlogDir = "(nat \<times> byte list) list"

datatype readerError =
  OpenFailed nat
  | StartBeyondSize int int
  | FirstEventUnreadable
  | ShortCopy "byte list"

record readerStart =
  rs_fileId :: nat
  rs_nextLog :: nat
  rs_position :: int
  rs_written :: "byte list"
  rs_binlogOffset :: "int option"

definition BINLOG_HEADER_SIZE :: nat where
  "BINLOG_HEADER_SIZE = 4"

definition blr_open :: "binlogDir \<Rightarrow> nat \<Rightarrow> readerError + (byte list \<times> nat)" where
  "blr_open dir fileId =
     (case map_of dir fileId of
        None \<Rightarrow> Inl (OpenFailed fileId)
      | Some file \<Rightarrow> Inr (file, fileId + 1))"

definition readFirstEventSize :: "byte list \<Rightarrow> 32 word option" where
  "readFirstEventSize binlog =
     (if length binlog < BINLOG_HEADER_SIZE + 9 + 4 then None
      else Some (word_of_nat (unat (binlog ! 13)) + push_bit 8 (word_of_nat (unat (binlog ! 14)))
                 + push_bit 16 (word_of_nat (unat (binlog ! 15)))
                 + push_bit 24 (word_of_nat (unat (binlog ! 16)))))"

definition maxId :: "binlogDir \<Rightarrow> nat" where
  "maxId dir = fold max (map fst dir) 0"

text \<open>
  The files of a directory are finitely many, so the walk over consecutive ids ends: the
  ids that can be opened are bounded by the largest id of the directory.
\<close>

lemma fold_max_ge: "(a::nat) \<le> fold max xs a"
  by (induction xs arbitrary: a) (auto intro: order_trans [OF max.cobounded2])

lemma fold_max_mem: "x \<in> set xs \<Longrightarrow> (x::nat) \<le> fold max xs a"
proof (induction xs arbitrary: a)
  case Nil
  then show ?case by simp
next
  case (Cons y ys)
  show ?case
  proof (cases "x = y")
    case True
    have "x \<le> max y a" using True by simp
    also have "\<dots> \<le> fold max ys (max y a)" by (rule fold_max_ge)
    finally show ?thesis by simp
  next
    case False
    with Cons.prems have "x \<in> set ys" by simp
    from Cons.IH [OF this] show ?thesis by simp
  qed
qed

lemma map_of_le_maxId: "map_of dir k = Some f \<Longrightarrow> k \<le> maxId dir"
proof -
  assume "map_of dir k = Some f"
  then have "(k, f) \<in> set dir" by (rule map_of_SomeD)
  then have "k \<in> set (map fst dir)" by force
  then show ?thesis unfolding maxId_def by (rule fold_max_mem)
qed

text \<open>
  The loop of \<open>serve\<close> under \<open>if startPosition > 0\<close>: \<open>size\<close> is the result of
  \<open>Seek(0, 2)\<close>; while the position is larger than the size of the open file, the size is
  subtracted and the next file is opened.
\<close>

function serve_walk :: "binlogDir \<Rightarrow> byte list \<Rightarrow> nat \<Rightarrow> nat \<Rightarrow> int \<Rightarrow> readerError + (byte list \<times> nat \<times> nat \<times> int)" where
  "serve_walk dir binlogFile fileId nextLog startPosition =
     (let size = int (length binlogFile)
      in if startPosition > size
         then (case blr_open dir nextLog of
                 Inl e \<Rightarrow> Inl e
               | Inr (file', nextLog') \<Rightarrow> serve_walk dir file' nextLog nextLog' (startPosition - size))
         else Inr (binlogFile, fileId, nextLog, startPosition))"
  by pat_completeness auto
termination
proof (relation "measure (\<lambda>(dir, binlogFile, fileId, nextLog, startPosition). Suc (maxId dir) - nextLog)")
  show "wf (measure (\<lambda>(dir, binlogFile, fileId, nextLog, startPosition). Suc (maxId dir) - nextLog))"
    by simp
next
  fix dir :: binlogDir and binlogFile :: "byte list" and fileId nextLog :: nat and startPosition size :: int
    and x2 :: "byte list \<times> nat" and x y
  assume o: "blr_open dir nextLog = Inr x2" and xy: "(x, y) = x2"
  from o obtain f where f: "map_of dir nextLog = Some f" and x2: "x2 = (f, nextLog + 1)"
    by (auto simp: blr_open_def split: option.splits)
  from map_of_le_maxId [OF f] have "nextLog \<le> maxId dir" .
  with xy x2 show "((dir, x, nextLog, y, startPosition - size), dir, binlogFile, fileId, nextLog, startPosition)
       \<in> measure (\<lambda>(dir, binlogFile, fileId, nextLog, startPosition). Suc (maxId dir) - nextLog)"
    by auto
qed

text \<open>
  Both entry points then replay the 4-byte magic and the first event of the file they are
  in (\<open>prefixSize = int64(BINLOG_HEADER_SIZE + firstEventSize)\<close>, a 32-bit sum) and seek to
  the start position. \<open>serve\<close> also publishes the prefix size in the
  \<open>Vt-Binlog-Offset\<close> header. The definitions below stop where the copy loop begins.
\<close>

definition injectHeader :: "bool \<Rightarrow> byte list \<Rightarrow> nat \<Rightarrow> nat \<Rightarrow> int \<Rightarrow> readerError + readerStart" where
  "injectHeader http binlogFile fileId nextLog startPosition =
     (case readFirstEventSize binlogFile of
        None \<Rightarrow> Inl FirstEventUnreadable
      | Some firstEventSize \<Rightarrow>
          (let prefixSize = unat (word_of_nat BINLOG_HEADER_SIZE + firstEventSize)
           in if length binlogFile < prefixSize then Inl (ShortCopy binlogFile)
              else Inr \<lparr>rs_fileId = fileId, rs_nextLog = nextLog, rs_position = startPosition,
                        rs_written = take prefixSize binlogFile,
                        rs_binlogOffset = (if http then Some (int prefixSize) else None)\<rparr>))"

definition serve_seek :: "binlogDir \<Rightarrow> nat \<Rightarrow> int \<Rightarrow> readerError + readerStart" where
  "serve_seek dir fileId startPosition =
     (case blr_open dir fileId of
        Inl e \<Rightarrow> Inl e
      | Inr (binlogFile, nextLog) \<Rightarrow>
          if startPosition > 0
          then (case serve_walk dir binlogFile fileId nextLog startPosition of
                  Inl e \<Rightarrow> Inl e
                | Inr (file', fileId', nextLog', startPosition') \<Rightarrow>
                    injectHeader True file' fileId' nextLog' startPosition')
          else Inr \<lparr>rs_fileId = fileId, rs_nextLog = nextLog, rs_position = 0, rs_written = [],
                    rs_binlogOffset = Some 0\<rparr>)"

definition ServeData_seek :: "binlogDir \<Rightarrow> nat \<Rightarrow> int \<Rightarrow> readerError + readerStart" where
  "ServeData_seek dir fileId startPosition =
     (case blr_open dir fileId of
        Inl e \<Rightarrow> Inl e
      | Inr (binlogFile, nextLog) \<Rightarrow>
          if startPosition > 0
          then (let size = int (length binlogFile)
                in if startPosition > size then Inl (StartBeyondSize startPosition size)
                   else injectHeader False binlogFile fileId nextLog startPosition)
          else Inr \<lparr>rs_fileId = fileId, rs_nextLog = nextLog, rs_position = 0, rs_written = [],
                    rs_binlogOffset = None\<rparr>)"

fun errorOutput :: "readerError \<Rightarrow> byte list" where
  "errorOutput (ShortCopy bs) = bs"
| "errorOutput _ = []"

definition fileSize :: "binlogDir \<Rightarrow> nat \<Rightarrow> int" where
  "fileSize dir j = (case map_of dir j of None \<Rightarrow> 0 | Some file \<Rightarrow> int (length file))"

text \<open>A small directory of two well-formed binlog files, for concrete runs.\<close>

definition exampleEvent :: "byte list" where
  "exampleEvent = [0, 0, 0, 0, 15, 1, 0, 0, 0, 19, 0, 0, 0, 23, 0, 0, 0, 0, 0]"

definition exampleBinlog1 :: "byte list" where
  "exampleBinlog1 = [254, 98, 105, 110] @ exampleEvent"

definition exampleBinlog2 :: "byte list" where
  "exampleBinlog2 = [254, 98, 105, 110] @ exampleEvent @ exampleEvent"

definition exampleDir :: binlogDir where
  "exampleDir = [(1, exampleBinlog1), (2, exampleBinlog2)]"

section \<open>Binlog server: data (vt binlog server and package mysqlctl)\<close>

definition BINLOG_DELIMITER :: string where "BINLOG_DELIMITER = ''/*!*/;''"
definition BINLOG_POSITION_PREFIX :: string where "BINLOG_POSITION_PREFIX = ''# at ''"
definition BINLOG_ROTATE_TO :: string where "BINLOG_ROTATE_TO = ''Rotate to ''"
definition BINLOG_BEGIN :: string where "BINLOG_BEGIN = ''BEGIN''"
definition BINLOG_COMMIT :: string where "BINLOG_COMMIT = ''COMMIT''"
definition BINLOG_ROLLBACK :: string where "BINLOG_ROLLBACK = ''ROLLBACK''"
definition BINLOG_SET_TIMESTAMP :: string where "BINLOG_SET_TIMESTAMP = ''SET TIMESTAMP=''"
definition BINLOG_END_LOG_POS :: string where "BINLOG_END_LOG_POS = ''end_log_pos ''"
definition BINLOG_XID :: string where "BINLOG_XID = ''Xid = ''"
definition BINLOG_START :: string where "BINLOG_START = ''Start: binlog''"
definition BINLOG_DB_CHANGE :: string where "BINLOG_DB_CHANGE = ''Use ''"
definition POS :: string where "POS = '' pos: ''"
definition SPACE :: string where "SPACE = '' ''"
definition KEYSPACE_ID_COMMENT :: string where "KEYSPACE_ID_COMMENT = ''/* EMD keyspace_id:''"
definition USER_ID :: string where "USER_ID = ''user_id''"
definition INDEX_COMMENT :: string where "INDEX_COMMENT = ''index''"
definition SEQ_COMMENT :: string where "SEQ_COMMENT = ''seq.''"
definition COLON :: string where "COLON = '':''"
definition DOT :: string where "DOT = ''.''"
definition END_COMMENT :: string where "END_COMMENT = ''*/''"
definition VT_PREFIX :: string where "VT_PREFIX = ''_vt.''"
definition HEARTBEAT :: string where "HEARTBEAT = ''heartbeat''"
definition ADMIN :: string where "ADMIN = ''admin''"
definition MAX_KEY :: string where "MAX_KEY = ''MAX_KEY''"
definition DML :: string where "DML = ''DML''"
definition DDL :: string where "DDL = ''DDL''"
definition BEGIN :: string where "BEGIN = ''BEGIN''"
definition COMMIT :: string where "COMMIT = ''COMMIT''"

text \<open>\<open>sqlKwMap\<close> of binlog_parser.go.\<close>

definition sqlKwMap :: "(string \<times> string) list" where
  "sqlKwMap =
     [(''create'', DDL), (''alter'', DDL), (''drop'', DDL), (''truncate'', DDL), (''rename'', DDL),
      (''insert'', DML), (''update'', DML), (''delete'', DML), (''begin'', BEGIN),
      (''commit'', COMMIT)]"

text \<open>
  Modelled from the spec: \<open>mysqlctl.GetSqlType\<close> and \<open>mysqlctl.GetDmlType\<close> in the form
  the binlog server calls them (on the first keyword) are missing; they are the lookups of
  \<open>getSqlType\<close> and \<open>getDmlType\<close> of binlog_parser.go in \<open>sqlKwMap\<close>, where a missing key
  gives the empty string.
\<close>

definition GetSqlType :: "string \<Rightarrow> string" where
  "GetSqlType kw = (case map_of sqlKwMap kw of Some t \<Rightarrow> t | None \<Rightarrow> [])"

definition GetDmlType :: "string \<Rightarrow> string" where
  "GetDmlType kw = (if map_of sqlKwMap kw = Some DML then kw else [])"

text \<open>
  Modelled from the spec: \<open>mysqlctl.ReplicationCoordinates\<close>, the current form of
  \<open>mysqlctl.BinlogPosition\<close> and \<open>mysqlctl.BinlogResponse\<close> are missing. The replication
  coordinate is \<open>(master_filename, master_offset)\<close> plus \<open>(relay_filename, relay_offset)\<close>;
  a response carries \<open>{error?, binlog_position, sql_type, sql?, keyspace_id?, ...}\<close> and the
  fields the binlog server assigns.
\<close>

record ReplicationCoordinates =
  RelayFilename :: string
  RelayPosition :: nat
  MasterFilename :: string
  MasterPosition :: nat

record BinlogPosition =
  coordinates :: ReplicationCoordinates
  Position :: string
  Timestamp :: int
  Xid :: nat

datatype IndexIdValue = NoIndexId | StringIndexId string | UintIndexId nat

record BinlogResponse =
  Error :: string
  resp_BinlogPosition :: BinlogPosition
  SqlType :: string
  Sql :: "string list"
  KeyspaceId :: string
  UserId :: nat
  IndexType :: string
  IndexId :: IndexIdValue
  SeqName :: string
  SeqId :: nat

record eventBuffer =
  eb_BinlogPosition :: BinlogPosition
  LogLine :: string
  firstKw :: string

text \<open>
  The functions and constants that the binlog server calls and that are not in the
  sources, as parameters of the model. Of the packages \<open>mysqlctl\<close> and \<open>key\<close>:
  \<open>mysqlctl.USE\<close>, \<open>mysqlctl.IsTxnStatement\<close>, \<open>mysqlctl.EncodeCoordinatesToPosition\<close>
  (\<open>None\<close> is a non-nil \<open>err\<close>), \<open>key.Uint64Key(n).KeyspaceId()\<close>, \<open>KeyRange.Contains\<close>
  and \<open>KeyspaceId.Hex\<close>. Of Go's library: \<open>bytes.TrimSpace\<close> (and \<open>strings.TrimSpace\<close>) and
  \<open>bytes.ToLower\<close>, which decode UTF-8 and consult the Unicode tables; every theorem about
  the parser holds whatever these two functions return.
\<close>

record packages =
  USE :: string
  IsTxnStatement :: "string \<Rightarrow> string \<Rightarrow> bool"
  EncodeCoordinatesToPosition :: "ReplicationCoordinates \<Rightarrow> string option"
  Uint64Key_KeyspaceId :: "nat \<Rightarrow> keyspaceId"
  KeyRange_Contains :: "KeyRange \<Rightarrow> keyspaceId \<Rightarrow> bool"
  KeyspaceId_Hex :: "keyspaceId \<Rightarrow> string"
  TrimSpace :: "string \<Rightarrow> string"
  ToLower :: "string \<Rightarrow> string"

text \<open>
  Every \<open>panic\<close> of the parser, by the place that raises it. \<open>RuntimePanic\<close> is a Go
  run-time error (an index out of range, a nil pointer); it is not a \<open>*BinlogParseError\<close>.
\<close>

datatype panic =
  EOFRetry
  | MasterPositionError string
  | XidError string
  | InvalidTimestampLine string
  | TimestampError string
  | RotatePosError string
  | BeginWithNonEmptyBuffer nat
  | EncodingError ReplicationCoordinates
  | DmlOutsideTxn string
  | NoKeyspaceId string
  | InvalidKeyspaceId string
  | IndexCommentError string
  | UserIdError string
  | IndexIdError string
  | SeqIdError string
  | RuntimePanic

text \<open>
  The state of one stream. \<open>globalState\<close> is represented by the database name the server
  was started with (a parameter of the functions that read it); the statistics counters
  and \<open>logMetadata\<close> are left out. Two fields record the effects of the parser:
  \<open>sent\<close>, the argument of every \<open>sendStream\<close> call in order (one batch per call), and
  \<open>slept\<close>, the argument of every \<open>time.Sleep\<close>. The subscriber is taken to accept every
  response (\<open>sendReply\<close> returns \<open>nil\<close>).
\<close>

record Blp =
  nextStmtPosition :: nat
  inTxn :: bool
  txnLineBuffer :: "eventBuffer list"
  responseStream :: "BinlogResponse list"
  initialSeek :: bool
  startPosition :: ReplicationCoordinates
  currentPosition :: BinlogPosition
  dbmatch :: bool
  keyspaceRange :: KeyRange
  keyrangeTag :: string
  usingRelayLogs :: bool
  binlogPrefix :: string
  currentLine :: string
  sleepToThrottle :: int
  sent :: "BinlogResponse list list"
  slept :: "int list"

definition zeroCoordinates :: ReplicationCoordinates where
  "zeroCoordinates = \<lparr>RelayFilename = [], RelayPosition = 0, MasterFilename = [], MasterPosition = 0\<rparr>"

definition zeroPosition :: BinlogPosition where
  "zeroPosition = \<lparr>coordinates = zeroCoordinates, Position = [], Timestamp = 0, Xid = 0\<rparr>"

definition zeroResponse :: BinlogResponse where
  "zeroResponse = \<lparr>Error = [], resp_BinlogPosition = zeroPosition, SqlType = [], Sql = [],
     KeyspaceId = [], UserId = 0, IndexType = [], IndexId = NoIndexId, SeqName = [], SeqId = 0\<rparr>"

definition NewEventBuffer :: "BinlogPosition \<Rightarrow> string \<Rightarrow> eventBuffer" where
  "NewEventBuffer pos line =
     \<lparr>eb_BinlogPosition =
        \<lparr>coordinates = \<lparr>RelayFilename = RelayFilename (coordinates pos), RelayPosition = 0,
           MasterFilename = MasterFilename (coordinates pos),
           MasterPosition = MasterPosition (coordinates pos)\<rparr>,
         Position = [], Timestamp = Timestamp pos, Xid = 0\<rparr>,
      LogLine = line, firstKw = []\<rparr>"

definition NewBlp :: "packages \<Rightarrow> ReplicationCoordinates \<Rightarrow> KeyRange \<Rightarrow> Blp" where
  "NewBlp pkg startCoordinates keyRange =
     \<lparr>nextStmtPosition = 0, inTxn = False, txnLineBuffer = [], responseStream = [],
      initialSeek = True, startPosition = startCoordinates,
      currentPosition = zeroPosition\<lparr>coordinates :=
        \<lparr>RelayFilename = RelayFilename startCoordinates, RelayPosition = 0,
         MasterFilename = MasterFilename startCoordinates,
         MasterPosition = MasterPosition startCoordinates\<rparr>\<rparr>,
      dbmatch = True, keyspaceRange = keyRange,
      keyrangeTag = (if KeyspaceId_Hex pkg (End keyRange) = [] then MAX_KEY
                     else KeyspaceId_Hex pkg (End keyRange)),
      usingRelayLogs = False, binlogPrefix = [], currentLine = [], sleepToThrottle = 0,
      sent = [], slept = []\<rparr>"

text \<open>Sequencing: a panic ends the computation with the state it was raised in.\<close>

definition andThen :: "Blp \<times> panic option \<Rightarrow> (Blp \<Rightarrow> Blp \<times> panic option) \<Rightarrow> Blp \<times> panic option" where
  "andThen r f = (case r of (blp, None) \<Rightarrow> f blp | (blp, Some p) \<Rightarrow> (blp, Some p))"

definition nth_opt :: "'a list \<Rightarrow> nat \<Rightarrow> 'a option" where
  "nth_opt xs i = (if i < length xs then Some (xs ! i) else None)"

definition Contains_sub :: "string \<Rightarrow> string \<Rightarrow> bool" where
  "Contains_sub s sep = (Index s sep \<noteq> None)"

definition sendStream :: "Blp \<Rightarrow> BinlogResponse list \<Rightarrow> Blp" where
  "sendStream blp responseBuf = blp\<lparr>sent := sent blp @ [responseBuf]\<rparr>"

section \<open>Binlog server: position lines\<close>

text \<open>
  \<open>strconv.ParseUint\<close> returns 0 with a syntax error and the largest value with a range
  error; \<open>parseMasterPosition\<close> assigns that value before it panics.
\<close>

definition ParseUint_errval :: "string \<Rightarrow> nat" where
  "ParseUint_errval s = (if s \<noteq> [] \<and> list_all isDigit s then 2 ^ 64 - 1 else 0)"

definition parseMasterPosition :: "Blp \<Rightarrow> string \<Rightarrow> Blp \<times> panic option" where
  "parseMasterPosition blp line =
     (case nth_opt (Split line BINLOG_END_LOG_POS) 1 of
        None \<Rightarrow> (blp, Some RuntimePanic)
      | Some rem1 \<Rightarrow>
          (case nth_opt (Split rem1 SPACE) 0 of
             None \<Rightarrow> (blp, Some RuntimePanic)
           | Some masterPosStr \<Rightarrow>
               (case ParseUint masterPosStr of
                  Some n \<Rightarrow> (blp\<lparr>nextStmtPosition := n\<rparr>, None)
                | None \<Rightarrow> (blp\<lparr>nextStmtPosition := ParseUint_errval masterPosStr\<rparr>,
                            Some (MasterPositionError line)))))"

definition parseXid :: "Blp \<Rightarrow> string \<Rightarrow> Blp \<times> panic option" where
  "parseXid blp line =
     (case nth_opt (Split line BINLOG_XID) 1 of
        None \<Rightarrow> (blp, Some RuntimePanic)
      | Some rem1 \<Rightarrow>
          (case ParseUint rem1 of
             None \<Rightarrow> (blp, Some (XidError line))
           | Some xid \<Rightarrow> (blp\<lparr>currentPosition := (currentPosition blp)\<lparr>Xid := xid\<rparr>\<rparr>, None)))"

text \<open>
  \<open>path.Split\<close> cuts after the last slash. \<open>path.Clean\<close> works on the elements between
  slashes: it drops empty elements and \<open>.\<close>, lets \<open>..\<close> remove the element before it
  (a \<open>..\<close> with nothing to remove is dropped in a rooted path and kept otherwise), and
  returns \<open>.\<close> for an empty result. \<open>path.Join\<close> joins from the first non-empty element
  on with slashes and cleans the result.
\<close>

definition path_Split :: "string \<Rightarrow> string \<times> string" where
  "path_Split p =
     (let file = rev (takeWhile (\<lambda>c. c \<noteq> CHR ''/'') (rev p))
      in (take (length p - length file) p, file))"

definition cleanElem :: "bool \<Rightarrow> string list \<Rightarrow> string \<Rightarrow> string list" where
  "cleanElem rooted out elem =
     (if elem = [] \<or> elem = ''.'' then out
      else if elem = ''..''
      then (if out \<noteq> [] \<and> last out \<noteq> ''..'' then butlast out
            else if rooted then out else out @ [''..''])
      else out @ [elem])"

fun strings_Join :: "string list \<Rightarrow> string \<Rightarrow> string" where
  "strings_Join [] sep = []"
| "strings_Join [x] sep = x"
| "strings_Join (x # y # ys) sep = x @ sep @ strings_Join (y # ys) sep"

definition path_Clean :: "string \<Rightarrow> string" where
  "path_Clean p =
     (if p = [] then ''.''
      else (let rooted = (hd p = CHR ''/'');
                out = foldl (cleanElem rooted) [] (Split p ''/'');
                cleaned = (if rooted then ''/'' else []) @ strings_Join out ''/''
            in if cleaned = [] then ''.'' else cleaned))"

definition path_Join :: "string \<Rightarrow> string \<Rightarrow> string" where
  "path_Join dir file =
     (if dir \<noteq> [] then path_Clean (dir @ ''/'' @ file)
      else if file \<noteq> [] then path_Clean file
      else [])"

definition setMaster :: "Blp \<Rightarrow> string \<Rightarrow> nat \<Rightarrow> Blp" where
  "setMaster blp rotateFilename rotatePos =
     blp\<lparr>currentPosition := (currentPosition blp)\<lparr>coordinates :=
       (coordinates (currentPosition blp))\<lparr>MasterFilename := rotateFilename,
          MasterPosition := rotatePos\<rparr>\<rparr>\<rparr>"

definition parseRotateEvent :: "packages \<Rightarrow> Blp \<Rightarrow> string \<Rightarrow> Blp \<times> panic option" where
  "parseRotateEvent pkg blp line =
     (case nth_opt (Split line BINLOG_ROTATE_TO) 1 of
        None \<Rightarrow> (blp, Some RuntimePanic)
      | Some rem1 \<Rightarrow>
          (let rem2 = Split rem1 POS
           in case nth_opt rem2 0 of
                None \<Rightarrow> (blp, Some RuntimePanic)
              | Some rem20 \<Rightarrow>
                  (let rotateFilename = TrimSpace pkg rem20
                   in case nth_opt rem2 1 of
                        None \<Rightarrow> (blp, Some RuntimePanic)
                      | Some rem21 \<Rightarrow>
                          (case ParseUint rem21 of
                             None \<Rightarrow> (blp, Some (RotatePosError line))
                           | Some rotatePos \<Rightarrow>
                               (let coord = coordinates (currentPosition blp)
                                in if \<not> usingRelayLogs blp
                                   then (setMaster blp rotateFilename rotatePos, None)
                                   else (case path_Split (RelayFilename coord) of
                                           (logsDir, relayFile) \<Rightarrow>
                                             (case (nth_opt (Split relayFile ''.'') 0,
                                                    nth_opt (Split rotateFilename ''.'') 0) of
                                                (Some currentPrefix, Some rotatePrefix) \<Rightarrow>
                                                  if currentPrefix = rotatePrefix
                                                  then (blp\<lparr>currentPosition := (currentPosition blp)
                                                          \<lparr>coordinates := coord
                                                             \<lparr>RelayFilename := path_Join logsDir rotateFilename\<rparr>\<rparr>\<rparr>,
                                                        None)
                                                  else (setMaster blp rotateFilename rotatePos, None)
                                              | _ \<Rightarrow> (blp, Some RuntimePanic))))))))"

definition xidPart :: "Blp \<Rightarrow> string \<Rightarrow> Blp \<times> panic option" where
  "xidPart blp line = (if Contains_sub line BINLOG_XID then parseXid blp line else (blp, None))"

definition parsePositionData :: "packages \<Rightarrow> Blp \<Rightarrow> string \<Rightarrow> Blp \<times> panic option" where
  "parsePositionData pkg blp line =
     (if HasPrefix line BINLOG_POSITION_PREFIX
      then (if nextStmtPosition blp = 0 then (blp, None) else xidPart blp line)
      else if Contains_sub line BINLOG_ROTATE_TO
        then andThen (parseRotateEvent pkg blp line) (\<lambda>blp. xidPart blp line)
      else if Contains_sub line BINLOG_END_LOG_POS
        then (if Contains_sub line BINLOG_START then (blp, None)
              else andThen (parseMasterPosition blp line)
                     (\<lambda>blp. xidPart
                        (if nextStmtPosition blp \<noteq> 0
                         then blp\<lparr>currentPosition := (currentPosition blp)\<lparr>coordinates :=
                                (coordinates (currentPosition blp))
                                  \<lparr>MasterPosition := nextStmtPosition blp\<rparr>\<rparr>\<rparr>
                         else blp) line))
      else xidPart blp line)"

section \<open>Binlog server: events\<close>

definition parseDbChange :: "packages \<Rightarrow> string \<Rightarrow> Blp \<Rightarrow> eventBuffer \<Rightarrow> Blp \<times> panic option" where
  "parseDbChange pkg dbname blp event =
     (if firstKw event \<noteq> USE pkg then (blp, None)
      else if dbname = [] then (blp, None)
      else (case nth_opt (SplitN2 (LogLine event) BINLOG_DB_CHANGE) 1 of
              None \<Rightarrow> (blp, Some RuntimePanic)
            | Some rest \<Rightarrow>
                (let new_db = TrimSpace pkg rest
                 in if new_db \<noteq> dbname then (blp\<lparr>dbmatch := False\<rparr>, None)
                    else (blp\<lparr>dbmatch := True\<rparr>, None))))"

text \<open>
  \<open>extractEventTimestamp\<close> writes the timestamp to the stream's position and to the
  event; the event is returned with the state.
\<close>

definition extractEventTimestamp :: "Blp \<Rightarrow> eventBuffer \<Rightarrow> (Blp \<times> eventBuffer) \<times> panic option" where
  "extractEventTimestamp blp event =
     (let line = LogLine event;
          timestampStr = drop (length BINLOG_SET_TIMESTAMP) line
      in if timestampStr = [] then ((blp, event), Some (InvalidTimestampLine line))
         else (case ParseInt timestampStr of
                 None \<Rightarrow> ((blp, event), Some (TimestampError line))
               | Some currentTimestamp \<Rightarrow>
                   ((blp\<lparr>currentPosition := (currentPosition blp)\<lparr>Timestamp := currentTimestamp\<rparr>\<rparr>,
                     event\<lparr>eb_BinlogPosition := (eb_BinlogPosition event)\<lparr>Timestamp := currentTimestamp\<rparr>\<rparr>),
                    None)))"

definition handleBeginEvent :: "Blp \<Rightarrow> eventBuffer \<Rightarrow> Blp \<times> panic option" where
  "handleBeginEvent blp event =
     (if length (txnLineBuffer blp) > 0 \<and> inTxn blp
      then (blp, Some (BeginWithNonEmptyBuffer (length (txnLineBuffer blp))))
      else (blp\<lparr>txnLineBuffer := [event], inTxn := True\<rparr>, None))"

text \<open>A response that carries the position of an event, with the encoded position set.\<close>

definition positioned :: "packages \<Rightarrow> eventBuffer \<Rightarrow> panic + BinlogResponse" where
  "positioned pkg lineBuffer =
     (let coord = coordinates (eb_BinlogPosition lineBuffer)
      in case EncodeCoordinatesToPosition pkg coord of
           None \<Rightarrow> Inl (EncodingError coord)
         | Some pos \<Rightarrow>
             Inr (zeroResponse\<lparr>resp_BinlogPosition := (eb_BinlogPosition lineBuffer)\<lparr>Position := pos\<rparr>\<rparr>))"

definition createDdlStream :: "packages \<Rightarrow> eventBuffer \<Rightarrow> panic + BinlogResponse" where
  "createDdlStream pkg lineBuffer =
     (case positioned pkg lineBuffer of
        Inl p \<Rightarrow> Inl p
      | Inr ddlStream \<Rightarrow> Inr (ddlStream\<lparr>SqlType := DDL, Sql := [LogLine lineBuffer]\<rparr>))"

definition handleDdlEvent :: "packages \<Rightarrow> Blp \<Rightarrow> eventBuffer \<Rightarrow> Blp \<times> panic option" where
  "handleDdlEvent pkg blp event =
     (case createDdlStream pkg event of
        Inl p \<Rightarrow> (blp, Some p)
      | Inr ddlStream \<Rightarrow> (sendStream blp [ddlStream], None))"

definition createCommitEvent :: "packages \<Rightarrow> eventBuffer \<Rightarrow> panic + BinlogResponse" where
  "createCommitEvent pkg eventBuf =
     (case positioned pkg eventBuf of
        Inl p \<Rightarrow> Inl p
      | Inr streamBuf \<Rightarrow> Inr (streamBuf\<lparr>SqlType := COMMIT\<rparr>))"

definition createBeginEvent :: "packages \<Rightarrow> eventBuffer \<Rightarrow> panic + BinlogResponse" where
  "createBeginEvent pkg event =
     (case positioned pkg event of
        Inl p \<Rightarrow> Inl p
      | Inr streamBuf \<Rightarrow> Inr (streamBuf\<lparr>SqlType := BEGIN\<rparr>))"

definition controlDbStatement :: "packages \<Rightarrow> string \<Rightarrow> string \<Rightarrow> bool" where
  "controlDbStatement pkg sql dmlType =
     (let sql = ToLower pkg sql
      in Contains_sub sql VT_PREFIX \<or> (Contains_sub sql ADMIN \<and> Contains_sub sql HEARTBEAT))"

text \<open>
  \<open>parseKeyspaceId\<close> returns the empty string and the zero keyspace id for a statement
  of the control database.
\<close>

definition parseKeyspaceId :: "packages \<Rightarrow> string \<Rightarrow> string \<Rightarrow> panic + (string \<times> keyspaceId)" where
  "parseKeyspaceId pkg sql dmlType =
     (case Index sql KEYSPACE_ID_COMMENT of
        None \<Rightarrow> if controlDbStatement pkg sql dmlType then Inr ([], []) else Inl (NoKeyspaceId sql)
      | Some keyspaceIndex \<Rightarrow>
          (let seekIndex = keyspaceIndex + length KEYSPACE_ID_COMMENT;
               keyspaceIdComment = drop seekIndex sql
           in case nth_opt (Split keyspaceIdComment USER_ID) 0 of
                None \<Rightarrow> Inl RuntimePanic
              | Some piece \<Rightarrow>
                  (let keyspaceIdStr = TrimSpace pkg piece
                   in if keyspaceIdStr = [] then Inl (InvalidKeyspaceId sql)
                      else (case ParseUint keyspaceIdStr of
                              None \<Rightarrow> Inl (InvalidKeyspaceId sql)
                            | Some keyspaceIdUint \<Rightarrow>
                                Inr (keyspaceIdStr, Uint64Key_KeyspaceId pkg keyspaceIdUint)))))"

record indexSeq =
  is_indexName :: string
  is_indexId :: IndexIdValue
  is_seqName :: string
  is_seqId :: nat
  is_userId :: nat

definition parseIndexPart :: "string \<Rightarrow> string \<Rightarrow> indexSeq \<Rightarrow> panic + indexSeq" where
  "parseIndexPart sql keyspaceIdComment r =
     (case Index keyspaceIdComment INDEX_COMMENT of
        None \<Rightarrow> Inr r
      | Some indexCommentStart \<Rightarrow>
          (let indexCommentParts = Split (drop indexCommentStart keyspaceIdComment) COLON
           in case nth_opt indexCommentParts 1 of
                None \<Rightarrow> Inl RuntimePanic
              | Some part1 \<Rightarrow>
                  (case nth_opt (Split part1 '' '') 0 of
                     None \<Rightarrow> Inl RuntimePanic
                   | Some userIdStr \<Rightarrow>
                       (case ParseUint userIdStr of
                          None \<Rightarrow> Inl (UserIdError sql)
                        | Some userId \<Rightarrow>
                            (case nth_opt indexCommentParts 0 of
                               None \<Rightarrow> Inl RuntimePanic
                             | Some part0 \<Rightarrow>
                                 (let indexNameId = Split part0 DOT
                                  in case nth_opt indexNameId 1 of
                                       None \<Rightarrow> Inl RuntimePanic
                                     | Some indexName \<Rightarrow>
                                         (case nth_opt indexNameId 2 of
                                            None \<Rightarrow> Inl RuntimePanic
                                          | Some idPart \<Rightarrow>
                                              if indexName = ''username''
                                              then Inr (r\<lparr>is_userId := userId, is_indexName := indexName,
                                                          is_indexId := StringIndexId (TrimRight idPart COLON)\<rparr>)
                                              else (case ParseUint (TrimRight idPart COLON) of
                                                      None \<Rightarrow> Inl (IndexIdError sql)
                                                    | Some n \<Rightarrow>
                                                        Inr (r\<lparr>is_userId := userId, is_indexName := indexName,
                                                               is_indexId := UintIndexId n\<rparr>)))))))))"

definition parseSeqPart :: "packages \<Rightarrow> string \<Rightarrow> string \<Rightarrow> indexSeq \<Rightarrow> panic + indexSeq" where
  "parseSeqPart pkg sql keyspaceIdComment r =
     (case Index keyspaceIdComment SEQ_COMMENT of
        None \<Rightarrow> Inr r
      | Some seqCommentStart \<Rightarrow>
          (case nth_opt (Split (drop seqCommentStart keyspaceIdComment) END_COMMENT) 0 of
             None \<Rightarrow> Inl RuntimePanic
           | Some piece \<Rightarrow>
               (let seqComment = TrimSpace pkg piece;
                    seqCommentParts = Split seqComment COLON
                in case nth_opt seqCommentParts 0 of
                     None \<Rightarrow> Inl RuntimePanic
                   | Some seqCommentPrefix \<Rightarrow>
                       (case nth_opt seqCommentParts 1 of
                          None \<Rightarrow> Inl RuntimePanic
                        | Some idPart \<Rightarrow>
                            (case ParseUint (TrimSpace pkg idPart) of
                               None \<Rightarrow> Inl (SeqIdError sql)
                             | Some seqId \<Rightarrow>
                                 (case nth_opt (Split seqCommentPrefix DOT) 1 of
                                    None \<Rightarrow> Inl RuntimePanic
                                  | Some seqName \<Rightarrow>
                                      Inr (r\<lparr>is_seqId := seqId, is_seqName := seqName\<rparr>)))))))"

definition parseIndexSeq :: "packages \<Rightarrow> string \<Rightarrow> panic + indexSeq" where
  "parseIndexSeq pkg sql =
     (case Index sql KEYSPACE_ID_COMMENT of
        None \<Rightarrow> Inl (IndexCommentError sql)
      | Some keyspaceIndex \<Rightarrow>
          (let keyspaceIdComment = drop (keyspaceIndex + length KEYSPACE_ID_COMMENT) sql
           in case parseIndexPart sql keyspaceIdComment
                     \<lparr>is_indexName = [], is_indexId = NoIndexId, is_seqName = [], is_seqId = 0,
                      is_userId = 0\<rparr> of
                Inl p \<Rightarrow> Inl p
              | Inr r \<Rightarrow> parseSeqPart pkg sql keyspaceIdComment r))"

definition createDmlEvent :: "packages \<Rightarrow> eventBuffer \<Rightarrow> string \<Rightarrow> panic + BinlogResponse" where
  "createDmlEvent pkg eventBuf keyspaceId =
     (case positioned pkg eventBuf of
        Inl p \<Rightarrow> Inl p
      | Inr r \<Rightarrow>
          (let dmlEvent = r\<lparr>SqlType := GetDmlType (firstKw eventBuf), KeyspaceId := keyspaceId\<rparr>
           in if SqlType dmlEvent = ''insert''
              then (case parseIndexSeq pkg (LogLine eventBuf) of
                      Inl p \<Rightarrow> Inl p
                    | Inr s \<Rightarrow>
                        (let e1 = (if is_userId s \<noteq> 0 then dmlEvent\<lparr>UserId := is_userId s\<rparr> else dmlEvent);
                             e2 = (if is_indexName s \<noteq> []
                                   then e1\<lparr>IndexType := is_indexName s, IndexId := is_indexId s\<rparr> else e1);
                             e3 = (if is_seqName s \<noteq> []
                                   then e2\<lparr>SeqName := is_seqName s, SeqId := is_seqId s\<rparr> else e2)
                         in Inr e3))
              else Inr dmlEvent))"

text \<open>
  The loop of \<open>buildTxnResponse\<close> over \<open>blp.txnLineBuffer\<close>, with the response list, the
  DML count and \<open>dmlBuffer\<close> (the lines that precede the next DML) as accumulators.
\<close>

fun buildTxnResponse_loop ::
  "packages \<Rightarrow> KeyRange \<Rightarrow> eventBuffer list \<Rightarrow> BinlogResponse list \<Rightarrow> int \<Rightarrow> string list
     \<Rightarrow> panic + (BinlogResponse list \<times> int)" where
  "buildTxnResponse_loop pkg kr [] txnResponseList dmlCount dmlBuffer = Inr (txnResponseList, dmlCount)"
| "buildTxnResponse_loop pkg kr (event # events) txnResponseList dmlCount dmlBuffer =
     (let line = LogLine event
      in if HasPrefix line BINLOG_BEGIN
         then (case createBeginEvent pkg event of
                 Inl p \<Rightarrow> Inl p
               | Inr streamBuf \<Rightarrow>
                   buildTxnResponse_loop pkg kr events (txnResponseList @ [streamBuf]) dmlCount dmlBuffer)
         else if HasPrefix line BINLOG_COMMIT
         then (case createCommitEvent pkg event of
                 Inl p \<Rightarrow> Inl p
               | Inr commitEvent \<Rightarrow>
                   buildTxnResponse_loop pkg kr events (txnResponseList @ [commitEvent]) dmlCount dmlBuffer)
         else if GetSqlType (firstKw event) = DML
         then (case parseKeyspaceId pkg line (GetDmlType (firstKw event)) of
                 Inl p \<Rightarrow> Inl p
               | Inr (keyspaceIdStr, keyspaceId) \<Rightarrow>
                   if keyspaceIdStr = []
                   then buildTxnResponse_loop pkg kr events txnResponseList dmlCount dmlBuffer
                   else if \<not> KeyRange_Contains pkg kr keyspaceId
                   then buildTxnResponse_loop pkg kr events txnResponseList dmlCount []
                   else (case createDmlEvent pkg event keyspaceIdStr of
                           Inl p \<Rightarrow> Inl p
                         | Inr dmlEvent \<Rightarrow>
                             buildTxnResponse_loop pkg kr events
                               (txnResponseList @ [dmlEvent\<lparr>Sql := dmlBuffer @ [line]\<rparr>])
                               (dmlCount + 1) []))
         else buildTxnResponse_loop pkg kr events txnResponseList dmlCount (dmlBuffer @ [line]))"

definition buildTxnResponse :: "packages \<Rightarrow> Blp \<Rightarrow> panic + (BinlogResponse list \<times> int)" where
  "buildTxnResponse pkg blp =
     buildTxnResponse_loop pkg (keyspaceRange blp) (txnLineBuffer blp) [] 0 []"

definition handleCommitEvent :: "packages \<Rightarrow> Blp \<Rightarrow> eventBuffer \<Rightarrow> Blp \<times> panic option" where
  "handleCommitEvent pkg blp commitEvent =
     (if \<not> dbmatch blp then (blp, None)
      else (let commitEvent = commitEvent\<lparr>eb_BinlogPosition :=
                    (eb_BinlogPosition commitEvent)\<lparr>Xid := Xid (currentPosition blp)\<rparr>\<rparr>;
                blp = blp\<lparr>txnLineBuffer := txnLineBuffer blp @ [commitEvent]\<rparr>
            in case buildTxnResponse pkg blp of
                 Inl p \<Rightarrow> (blp, Some p)
               | Inr (txnResponseList, dmlCount) \<Rightarrow>
                   (let blp = blp\<lparr>responseStream := txnResponseList\<rparr>
                    in if dmlCount = 0 then (blp, None)
                       else (let blp = sendStream blp (responseStream blp)
                             in if sleepToThrottle blp > 0
                                then (blp\<lparr>slept := slept blp @ [sleepToThrottle blp]\<rparr>, None)
                                else (blp, None)))))"

definition endTxn :: "Blp \<Rightarrow> Blp \<times> panic option" where
  "endTxn blp = (blp\<lparr>inTxn := False, txnLineBuffer := []\<rparr>, None)"

definition parseEventData :: "packages \<Rightarrow> Blp \<Rightarrow> eventBuffer \<Rightarrow> Blp \<times> panic option" where
  "parseEventData pkg blp event =
     (if HasPrefix (LogLine event) BINLOG_SET_TIMESTAMP
      then (case extractEventTimestamp blp event of
              ((blp, event), Some p) \<Rightarrow> (blp, Some p)
            | ((blp, event), None) \<Rightarrow>
                (let blp = blp\<lparr>initialSeek := False\<rparr>
                 in if inTxn blp then (blp\<lparr>txnLineBuffer := txnLineBuffer blp @ [event]\<rparr>, None)
                    else (blp, None)))
      else if HasPrefix (LogLine event) BINLOG_BEGIN then handleBeginEvent blp event
      else if HasPrefix (LogLine event) BINLOG_ROLLBACK then endTxn blp
      else if HasPrefix (LogLine event) BINLOG_COMMIT
        then andThen (handleCommitEvent pkg blp event) endTxn
      else if length (LogLine event) > 0
        then (let sqlType = GetSqlType (firstKw event)
              in if inTxn blp \<and> IsTxnStatement pkg (LogLine event) (firstKw event)
                 then (blp\<lparr>txnLineBuffer := txnLineBuffer blp @ [event]\<rparr>, None)
                 else if sqlType = DDL then handleDdlEvent pkg blp event
                 else if sqlType = DML then (blp, Some (DmlOutsideTxn (LogLine event)))
                 else (blp, None))
      else (blp, None))"

section \<open>Binlog server: the parse loop and the stream\<close>

text \<open>The local variables \<open>readAhead\<close> and \<open>event\<close> of \<open>parseBinlogEvents\<close>.\<close>

record parseLoop =
  pl_readAhead :: bool
  pl_event :: "eventBuffer option"

definition parseLoop0 :: parseLoop where
  "parseLoop0 = \<lparr>pl_readAhead = False, pl_event = None\<rparr>"

text \<open>
  One iteration of the loop of \<open>parseBinlogEvents\<close> on a line that \<open>readBlpLine\<close> returned
  (without its newline).
\<close>

definition parseLine ::
  "packages \<Rightarrow> string \<Rightarrow> Blp \<times> parseLoop \<Rightarrow> string \<Rightarrow> (Blp \<times> parseLoop) \<times> panic option" where
  "parseLine pkg dbname st line =
     (case st of (blp, loop) \<Rightarrow>
        if length line = 0 then ((blp, loop), None)
        else if hd line = CHR ''#''
        then (let line = TrimSpace pkg line;
                  blp = blp\<lparr>currentLine := line\<rparr>
              in case parsePositionData pkg blp line of (blp, p) \<Rightarrow> ((blp, loop), p))
        else if initialSeek blp \<and> usingRelayLogs blp
                \<and> nextStmtPosition blp < MasterPosition (startPosition blp)
        then ((blp, loop), None)
        else (case (if pl_readAhead loop
                    then map_option (\<lambda>e. e\<lparr>LogLine := LogLine e @ line\<rparr>) (pl_event loop)
                    else Some (NewEventBuffer (currentPosition blp) line)) of
                None \<Rightarrow> ((blp, loop), Some RuntimePanic)
              | Some event \<Rightarrow>
                  (case LastIndex (LogLine event) BINLOG_DELIMITER of
                     None \<Rightarrow> ((blp, \<lparr>pl_readAhead = True, pl_event = Some event\<rparr>), None)
                   | Some delimIndex \<Rightarrow>
                       (let event = event\<lparr>LogLine := take delimIndex (LogLine event)\<rparr>;
                            event = event\<lparr>LogLine := TrimSpace pkg (LogLine event)\<rparr>
                        in case nth_opt (SplitN2 (LogLine event) SPACE) 0 of
                             None \<Rightarrow> ((blp, \<lparr>pl_readAhead = False, pl_event = Some event\<rparr>),
                                       Some RuntimePanic)
                           | Some kw \<Rightarrow>
                               (let event = event\<lparr>firstKw := ToLower pkg kw\<rparr>;
                                    blp = blp\<lparr>currentLine := LogLine event\<rparr>;
                                    loop = \<lparr>pl_readAhead = False, pl_event = Some event\<rparr>
                                in case andThen (parseDbChange pkg dbname blp event)
                                          (\<lambda>blp. parseEventData pkg blp event) of
                                     (blp, p) \<Rightarrow> ((blp, loop), p))))))"

text \<open>
  The loop over the lines of the decoded binlog. The end of the input is \<open>io.EOF\<close>, which
  the loop turns into the panic "EOF retry": the loop is only ever left by a panic.
\<close>

fun parseBinlogEvents ::
  "packages \<Rightarrow> string \<Rightarrow> Blp \<times> parseLoop \<Rightarrow> string list \<Rightarrow> (Blp \<times> parseLoop) \<times> panic" where
  "parseBinlogEvents pkg dbname st [] = (st, EOFRetry)"
| "parseBinlogEvents pkg dbname st (line # lines) =
     (case parseLine pkg dbname st line of
        (st', Some p) \<Rightarrow> (st', p)
      | (st', None) \<Rightarrow> parseBinlogEvents pkg dbname st' lines)"

text \<open>The constant part of the message of each panic.\<close>

fun errorText :: "panic \<Rightarrow> string" where
  "errorText EOFRetry = ''EOF retry''"
| "errorText (MasterPositionError l) = ''Error in extracting master position''"
| "errorText (XidError l) = ''Error in extracting Xid position''"
| "errorText (InvalidTimestampLine l) = ''Invalid timestamp line''"
| "errorText (TimestampError l) = ''Error in extracting timestamp''"
| "errorText (RotatePosError l) = ''Error in extracting rotate pos''"
| "errorText (BeginWithNonEmptyBuffer n) = ''BEGIN encountered with non-empty trxn buffer''"
| "errorText (EncodingError c) = ''Error in encoding the position''"
| "errorText (DmlOutsideTxn l) = ''DML outside a txn''"
| "errorText (NoKeyspaceId l) = ''Invalid Sql, doesn't contain keyspace id''"
| "errorText (InvalidKeyspaceId l) = ''Invalid keyspace id''"
| "errorText (IndexCommentError l) = ''Error parsing index comment, doesn't contain keyspace id''"
| "errorText (UserIdError l) = ''Error converting user_id''"
| "errorText (IndexIdError l) = ''Error converting index id''"
| "errorText (SeqIdError l) = ''Error converting seq id''"
| "errorText RuntimePanic = ''runtime error''"

definition sendError :: "packages \<Rightarrow> Blp \<Rightarrow> panic \<Rightarrow> BinlogPosition option \<Rightarrow> Blp \<times> panic option" where
  "sendError pkg blp inputErr blpPos =
     (case blpPos of
        None \<Rightarrow> (sendStream blp [zeroResponse\<lparr>Error := errorText inputErr\<rparr>], None)
      | Some pos \<Rightarrow>
          (case EncodeCoordinatesToPosition pkg (coordinates pos) of
             None \<Rightarrow> (blp, Some (EncodingError (coordinates pos)))
           | Some s \<Rightarrow>
               (sendStream blp [zeroResponse\<lparr>Error := errorText inputErr,
                                  resp_BinlogPosition := pos\<lparr>Position := s\<rparr>\<rparr>], None)))"

text \<open>
  \<open>streamBinlog\<close> from the call of \<open>parseBinlogEvents\<close> on: the deferred function sends a
  \<open>*BinlogParseError\<close> to the subscriber with the current position and panics again on
  anything else.
\<close>

definition streamBinlog :: "packages \<Rightarrow> string \<Rightarrow> Blp \<Rightarrow> string list \<Rightarrow> Blp \<times> panic option" where
  "streamBinlog pkg dbname blp lines =
     (case parseBinlogEvents pkg dbname (blp, parseLoop0) lines of
        ((blp', loop), p) \<Rightarrow>
          if p = RuntimePanic then (blp', Some p)
          else sendError pkg blp' p (Some (currentPosition blp')))"

text \<open>
  \<open>ServeBinlog\<close> from the creation of the stream on: the stream reads relay logs when the
  start coordinates name a relay file. \<open>binlogPrefix\<close> and \<open>logMetadata\<close> come from the
  server's configuration, which the parser does not read. The deferred function of
  \<open>ServeBinlog\<close> sends whatever panic reaches it, without a position.
\<close>

definition ServeBinlog_blp :: "packages \<Rightarrow> ReplicationCoordinates \<Rightarrow> KeyRange \<Rightarrow> Blp" where
  "ServeBinlog_blp pkg startCoordinates keyRange =
     (NewBlp pkg startCoordinates keyRange)\<lparr>usingRelayLogs := (RelayFilename startCoordinates \<noteq> [])\<rparr>"

definition ServeBinlog :: "packages \<Rightarrow> string \<Rightarrow> ReplicationCoordinates \<Rightarrow> KeyRange \<Rightarrow> string list \<Rightarrow> Blp" where
  "ServeBinlog pkg dbname startCoordinates keyRange lines =
     (case streamBinlog pkg dbname (ServeBinlog_blp pkg startCoordinates keyRange) lines of
        (blp, None) \<Rightarrow> blp
      | (blp, Some x) \<Rightarrow> fst (sendError pkg blp x None))"


section \<open>An instance of the missing packages\<close>

text \<open>
  Modelled from the spec: a key range is the half-open \<open>[start, end)\<close> of a 64-bit hashed
  key space, an empty end standing for the maximum key (\<open>NewBlp\<close> tags it \<open>MAX_KEY\<close>); the
  keyspace id of an unsigned 64-bit value is its eight bytes, most significant first,
  compared bytewise. A statement belongs to a transaction when it is a DML or sets the
  timestamp or the insert id. The encoded position is \<open>file:offset\<close> of the master.
\<close>

fun bytesLess :: "byte list \<Rightarrow> byte list \<Rightarrow> bool" where
  "bytesLess [] [] = False"
| "bytesLess [] (y # ys) = True"
| "bytesLess (x # xs) [] = False"
| "bytesLess (x # xs) (y # ys) = (x < y \<or> (x = y \<and> bytesLess xs ys))"

definition spec_Contains :: "KeyRange \<Rightarrow> keyspaceId \<Rightarrow> bool" where
  "spec_Contains kr i = (\<not> bytesLess i (Start kr) \<and> (End kr = [] \<or> bytesLess i (End kr)))"

definition spec_Uint64Key :: "nat \<Rightarrow> keyspaceId" where
  "spec_Uint64Key n = map (\<lambda>i. word_of_nat (n div 256 ^ i)) [7, 6, 5, 4, 3, 2, 1, 0]"

definition hexDigit :: "nat \<Rightarrow> char" where
  "hexDigit n = ''0123456789abcdef'' ! (n mod 16)"

definition spec_Hex :: "keyspaceId \<Rightarrow> string" where
  "spec_Hex k = concat (map (\<lambda>b. [hexDigit (unat b div 16), hexDigit (unat b)]) k)"

fun decimalDigits :: "nat \<Rightarrow> nat \<Rightarrow> string" where
  "decimalDigits 0 n = []"
| "decimalDigits (Suc fuel) n =
     (if n < 10 then [''0123456789'' ! n]
      else decimalDigits fuel (n div 10) @ [''0123456789'' ! (n mod 10)])"

definition spec_Encode :: "ReplicationCoordinates \<Rightarrow> string option" where
  "spec_Encode c = Some (MasterFilename c @ '':'' @ decimalDigits 20 (MasterPosition c))"

definition spec_IsTxnStatement :: "string \<Rightarrow> string \<Rightarrow> bool" where
  "spec_IsTxnStatement line kw =
     (GetSqlType kw = DML \<or> HasPrefix line BINLOG_SET_TIMESTAMP \<or> HasPrefix line ''SET INSERT_ID='')"

text \<open>
  For lines of ASCII bytes (every byte below \<open>0x80\<close>, as in the example runs below),
  \<open>bytes.TrimSpace\<close> removes the leading and trailing bytes among space, tab, line feed,
  vertical tab, form feed and carriage return, and \<open>bytes.ToLower\<close> maps \<open>A\<close> to \<open>Z\<close> to \<open>a\<close> to \<open>z\<close>. The two
  functions below are these restrictions; they say nothing about other lines.
\<close>

definition asciiSpace :: "char \<Rightarrow> bool" where
  "asciiSpace c = (c = CHR '' '' \<or> c = CHR 0x09 \<or> c = CHR 0x0A \<or> c = CHR 0x0B \<or> c = CHR 0x0C
     \<or> c = CHR 0x0D)"

definition TrimSpace_ascii :: "string \<Rightarrow> string" where
  "TrimSpace_ascii s = rev (dropWhile asciiSpace (rev (dropWhile asciiSpace s)))"

definition toLower_ascii :: "char \<Rightarrow> char" where
  "toLower_ascii c =
     (case map_of (zip ''ABCDEFGHIJKLMNOPQRSTUVWXYZ'' ''abcdefghijklmnopqrstuvwxyz'') c of
        Some l \<Rightarrow> l
      | None \<Rightarrow> c)"

definition ToLower_ascii :: "string \<Rightarrow> string" where
  "ToLower_ascii s = map toLower_ascii s"

definition specPackages :: packages where
  "specPackages = \<lparr>USE = ''use'', IsTxnStatement = spec_IsTxnStatement,
     EncodeCoordinatesToPosition = spec_Encode, Uint64Key_KeyspaceId = spec_Uint64Key,
     KeyRange_Contains = spec_Contains, KeyspaceId_Hex = spec_Hex,
     TrimSpace = TrimSpace_ascii, ToLower = ToLower_ascii\<rparr>"

section \<open>Binlog server: notions used in the statements\<close>

text \<open>What a subscriber can tell one response from another by.\<close>

definition respKey :: "BinlogResponse \<Rightarrow> string \<times> string \<times> ReplicationCoordinates \<times> string" where
  "respKey r = (SqlType r, KeyspaceId r, coordinates (resp_BinlogPosition r),
                if Sql r = [] then [] else last (Sql r))"

text \<open>The keyspace id string that \<open>parseKeyspaceId\<close> extracts from a buffered event.\<close>

definition extractedId :: "packages \<Rightarrow> eventBuffer \<Rightarrow> (string \<times> keyspaceId) option" where
  "extractedId pkg e =
     (case parseKeyspaceId pkg (LogLine e) (GetDmlType (firstKw e)) of
        Inl p \<Rightarrow> None
      | Inr (s, k) \<Rightarrow> if s = [] then None else Some (s, k))"

text \<open>A DML event whose extracted keyspace id lies in the key range.\<close>

definition dmlInRange :: "packages \<Rightarrow> KeyRange \<Rightarrow> eventBuffer \<Rightarrow> bool" where
  "dmlInRange pkg kr e =
     (GetSqlType (firstKw e) = DML \<and>
      (case extractedId pkg e of None \<Rightarrow> False | Some (s, k) \<Rightarrow> KeyRange_Contains pkg kr k))"

definition dmlKey :: "packages \<Rightarrow> eventBuffer \<Rightarrow> string \<times> string \<times> ReplicationCoordinates \<times> string" where
  "dmlKey pkg e =
     (GetDmlType (firstKw e), (case extractedId pkg e of None \<Rightarrow> [] | Some (s, k) \<Rightarrow> s),
      coordinates (eb_BinlogPosition e), LogLine e)"

definition isBegin :: "eventBuffer \<Rightarrow> bool" where
  "isBegin e = HasPrefix (LogLine e) BINLOG_BEGIN"

definition isCommit :: "eventBuffer \<Rightarrow> bool" where
  "isCommit e = HasPrefix (LogLine e) BINLOG_COMMIT"

text \<open>
  The shape of the transaction buffer between two events: empty outside a transaction;
  inside one, the BEGIN event followed by events that are neither BEGIN nor COMMIT.
\<close>

definition txnInv :: "Blp \<Rightarrow> bool" where
  "txnInv blp =
     (if inTxn blp
      then txnLineBuffer blp \<noteq> [] \<and> isBegin (hd (txnLineBuffer blp))
           \<and> list_all (\<lambda>e. \<not> isBegin e \<and> \<not> isCommit e) (tl (txnLineBuffer blp))
      else txnLineBuffer blp = [])"

definition dmlTypes :: "string set" where
  "dmlTypes = {''insert'', ''update'', ''delete''}"

text \<open>A transaction batch: one begin first, a commit last, DML events between them.\<close>

definition txnBatch :: "BinlogResponse list \<Rightarrow> bool" where
  "txnBatch batch =
     (batch \<noteq> [] \<and> SqlType (hd batch) = BEGIN \<and> SqlType (last batch) = COMMIT
      \<and> length (filter (\<lambda>r. SqlType r = BEGIN) batch) = 1)"

definition ddlBatch :: "BinlogResponse list \<Rightarrow> bool" where
  "ddlBatch batch = (length batch = 1 \<and> SqlType (hd batch) = DDL)"

definition sentOK :: "Blp \<Rightarrow> bool" where
  "sentOK blp = list_all (\<lambda>batch. ddlBatch batch \<or> txnBatch batch) (sent blp)"

definition withXid :: "Blp \<Rightarrow> eventBuffer \<Rightarrow> eventBuffer" where
  "withXid blp c = c\<lparr>eb_BinlogPosition := (eb_BinlogPosition c)\<lparr>Xid := Xid (currentPosition blp)\<rparr>\<rparr>"

text \<open>The fields that position lines and database changes leave alone.\<close>

definition sameTxn :: "Blp \<Rightarrow> Blp \<Rightarrow> bool" where
  "sameTxn blp blp' =
     (inTxn blp' = inTxn blp \<and> txnLineBuffer blp' = txnLineBuffer blp \<and> sent blp' = sent blp
      \<and> keyspaceRange blp' = keyspaceRange blp)"



section \<open>Binlog server: the example of scenario S4\<close>

text \<open>
  A transaction with two inserts, whose keyspace ids \<open>0x40...\<close> and \<open>0xA0...\<close> are written in
  decimal as the binlog has them, read by a subscriber of the key range \<open>[0x80, 0xC0)\<close>.
  \<open>s4Lines\<close> are the lines before the \<open>COMMIT\<close> statement; \<open>s4Blp\<close> and \<open>s4Loop\<close> are the state
  of the stream after these lines.
\<close>

definition s4Lines :: "string list" where
  "s4Lines =
    [''# at 106'',
     ''#121107 11:04:11 server id 1  end_log_pos 183'',
     ''SET TIMESTAMP=1352315051/*!*/;'',
     ''BEGIN'',
     ''/*!*/;'',
     ''# at 183'',
     ''#121107 11:04:11 server id 1  end_log_pos 300'',
     ''insert into t values (1) /* EMD keyspace_id:4611686018427387904 user_id 1 */'',
     ''/*!*/;'',
     ''# at 300'',
     ''#121107 11:04:11 server id 1  end_log_pos 420'',
     ''insert into t values (2) /* EMD keyspace_id:11529215046068469760 user_id 2 */'',
     ''/*!*/;'',
     ''# at 420'',
     ''#121107 11:04:11 server id 1  end_log_pos 447 Xid = 12'']"

definition s4Start :: ReplicationCoordinates where
  "s4Start = \<lparr>RelayFilename = [], RelayPosition = 0, MasterFilename = ''bin.000001'', MasterPosition = 106\<rparr>"

definition s4Range :: KeyRange where
  "s4Range = \<lparr>Start = [0x80], End = [0xC0]\<rparr>"

definition s4Coord :: "nat \<Rightarrow> ReplicationCoordinates" where
  "s4Coord pos = \<lparr>RelayFilename = [], RelayPosition = 0, MasterFilename = ''bin.000001'', MasterPosition = pos\<rparr>"

definition s4Event :: "nat \<Rightarrow> string \<Rightarrow> string \<Rightarrow> eventBuffer" where
  "s4Event pos line kw =
     \<lparr>eb_BinlogPosition = \<lparr>coordinates = s4Coord pos, Position = [], Timestamp = 1352315051, Xid = 0\<rparr>,
      LogLine = line, firstKw = kw\<rparr>"

definition s4Insert1 :: eventBuffer where
  "s4Insert1 = s4Event 300
     ''insert into t values (1) /* EMD keyspace_id:4611686018427387904 user_id 1 */'' ''insert''"

definition s4Insert2 :: eventBuffer where
  "s4Insert2 = s4Event 420
     ''insert into t values (2) /* EMD keyspace_id:11529215046068469760 user_id 2 */'' ''insert''"

definition s4Blp :: Blp where
  "s4Blp =
     \<lparr>nextStmtPosition = 447, inTxn = True,
      txnLineBuffer = [s4Event 183 ''BEGIN'' ''begin'', s4Insert1, s4Insert2],
      responseStream = [], initialSeek = False, startPosition = s4Start,
      currentPosition = \<lparr>coordinates = s4Coord 447, Position = [], Timestamp = 1352315051, Xid = 12\<rparr>,
      dbmatch = True, keyspaceRange = s4Range, keyrangeTag = ''c0'', usingRelayLogs = False,
      binlogPrefix = [], currentLine = ''#121107 11:04:11 server id 1  end_log_pos 447 Xid = 12'',
      sleepToThrottle = 0, sent = [], slept = []\<rparr>"

definition s4Loop :: parseLoop where
  "s4Loop = \<lparr>pl_readAhead = False, pl_event = Some s4Insert2\<rparr>"

section \<open>Binlog server: the throttle ticker (BinlogServer.throttleTicker)\<close>

text \<open>
  The arithmetic of \<open>float64\<close>, as parameters of the model: the constants \<open>0\<close> and \<open>1\<close>, the
  four operations, the comparisons \<open>>\<close> and \<open>==\<close>, the conversion \<open>int64(x)\<close> and
  \<open>Duration.Seconds\<close>. The theorems about the ticker hold for every such arithmetic.
\<close>

record 'f float64 =
  f_zero :: 'f
  f_one :: 'f
  f_add :: "'f \<Rightarrow> 'f \<Rightarrow> 'f"
  f_sub :: "'f \<Rightarrow> 'f \<Rightarrow> 'f"
  f_mul :: "'f \<Rightarrow> 'f \<Rightarrow> 'f"
  f_div :: "'f \<Rightarrow> 'f \<Rightarrow> 'f"
  f_gt :: "'f \<Rightarrow> 'f \<Rightarrow> bool"
  f_eq :: "'f \<Rightarrow> 'f \<Rightarrow> bool"
  f_int64 :: "'f \<Rightarrow> int"
  f_Seconds :: "int \<Rightarrow> 'f"

text \<open>A \<open>time.Duration\<close> is a number of nanoseconds in 64 bits.\<close>

type_synonym Duration = "64 word"

definition Millisecond :: Duration where
  "Millisecond = 1000000"

definition Minute :: Duration where
  "Minute = 60 * 1000 * Millisecond"

text \<open>
  The server: its subscribers and the rate ceiling. The database name is the parameter
  \<open>dbname\<close> of the parser; the configuration and the counters are left out.
\<close>

record 'f BinlogServer =
  clients :: "Blp list"
  throttleRate :: 'f

fun avgRate_loop :: "'f float64 \<Rightarrow> 'f list \<Rightarrow> 'f \<Rightarrow> 'f \<Rightarrow> 'f \<times> 'f" where
  "avgRate_loop fl [] avg count = (avg, count)"
| "avgRate_loop fl (rate # rateList) avg count =
     (if f_gt fl rate (f_zero fl)
      then avgRate_loop fl rateList (f_add fl avg rate) (f_add fl count (f_one fl))
      else avgRate_loop fl rateList avg count)"

definition avgRate :: "'f float64 \<Rightarrow> 'f list \<Rightarrow> 'f" where
  "avgRate fl rateList =
     (case avgRate_loop fl rateList (f_zero fl) (f_zero fl) of
        (avg, count) \<Rightarrow> if f_gt fl count (f_zero fl) then f_div fl avg count else f_zero fl)"

text \<open>
  The two maps of the ticker live as long as the ticker: \<open>rateMap\<close>, into which the
  published rates are unmarshalled at every tick (the keys of the JSON object are set, the
  other keys stay), and \<open>krRateMap\<close>. A map is a list of pairs with distinct keys, in the
  order in which \<open>range\<close> visits it.
\<close>

record 'f tickerMaps =
  rateMap :: "(string \<times> 'f list) list"
  krRateMap :: "(string \<times> 'f) list"

definition Unmarshal :: "(string \<times> 'f list) list \<Rightarrow> (string \<times> 'f list) list \<Rightarrow> (string \<times> 'f list) list" where
  "Unmarshal decoded m = foldl (\<lambda>m (k, v). AList.update k v m) m decoded"

text \<open>The loop over \<open>rateMap\<close>, with \<open>krRateMap\<close>, \<open>totalQps\<close> and \<open>numClients\<close>.\<close>

fun rateLoop ::
  "'f float64 \<Rightarrow> (string \<times> 'f list) list \<Rightarrow> (string \<times> 'f) list \<Rightarrow> 'f \<Rightarrow> 'f
     \<Rightarrow> (string \<times> 'f) list \<times> 'f \<times> 'f" where
  "rateLoop fl [] krRates totalQps numClients = (krRates, totalQps, numClients)"
| "rateLoop fl ((kr, rateList) # rest) krRates totalQps numClients =
     (let clientQps = avgRate fl rateList
      in rateLoop fl rest (AList.update kr clientQps krRates) (f_add fl totalQps clientQps)
           (f_add fl numClients (f_one fl)))"

text \<open>
  The body of the loop over the subscribers. The product of the converted value and
  \<open>time.Millisecond\<close> wraps in 64 bits; the stream keeps the duration as the signed value.
\<close>

definition assignSleep :: "'f float64 \<Rightarrow> Duration \<Rightarrow> (string \<times> 'f) list \<Rightarrow> 'f \<Rightarrow> Blp \<Rightarrow> Blp" where
  "assignSleep fl tickerInterval krRates clientMaxQps blpClient =
     (case map_of krRates (''DmlCount.'' @ keyrangeTag blpClient) of
        Some krQps \<Rightarrow>
          if f_gt fl krQps clientMaxQps
          then (let val = f_mul fl (f_Seconds fl (sint tickerInterval))
                            (f_div fl (f_sub fl krQps clientMaxQps) krQps)
                in blpClient\<lparr>sleepToThrottle := sint (word_of_int (f_int64 fl val) * Millisecond)\<rparr>)
          else blpClient\<lparr>sleepToThrottle := 0\<rparr>
      | None \<Rightarrow> blpClient\<lparr>sleepToThrottle := 0\<rparr>)"

text \<open>
  One tick. \<open>decoded\<close> is the published rate map as \<open>json.Unmarshal\<close> reads it, \<open>None\<close> when
  it fails. The result says whether the ticker goes on to the next tick (every \<open>return\<close>
  ends it).
\<close>

definition throttleTick ::
  "'f float64 \<Rightarrow> 'f BinlogServer \<Rightarrow> 'f tickerMaps \<Rightarrow> (string \<times> 'f list) list option
     \<Rightarrow> ('f BinlogServer \<times> 'f tickerMaps) \<times> bool" where
  "throttleTick fl binlogServer maps decoded =
     (let tickerInterval = Minute
      in if clients binlogServer = [] then ((binlogServer, maps), False)
         else if f_eq fl (throttleRate binlogServer) (f_zero fl)
         then ((binlogServer\<lparr>clients := map (\<lambda>blpClient. blpClient\<lparr>sleepToThrottle := 0\<rparr>)
                                            (clients binlogServer)\<rparr>, maps), False)
         else (case decoded of
                 None \<Rightarrow> ((binlogServer, maps), False)
               | Some entries \<Rightarrow>
                   (let rates = Unmarshal entries (rateMap maps)
                    in case rateLoop fl rates (krRateMap maps) (f_zero fl) (f_zero fl) of
                         (krRates, totalQps, numClients) \<Rightarrow>
                           (let maps = \<lparr>rateMap = rates, krRateMap = krRates\<rparr>
                            in if f_gt fl totalQps (throttleRate binlogServer)
                               then (let clientMaxQps = f_div fl (throttleRate binlogServer) numClients
                                     in ((binlogServer\<lparr>clients :=
                                            map (assignSleep fl tickerInterval krRates clientMaxQps)
                                              (clients binlogServer)\<rparr>, maps), True))
                               else ((binlogServer, maps), True)))))"

text \<open>
  The value of \<open>numClients\<close> after \<open>n\<close> entries, the value of \<open>totalQps\<close> after the entries
  of a map, and the sleep that the ticker computes from a rate and the fair share.
\<close>

definition countOf :: "'f float64 \<Rightarrow> nat \<Rightarrow> 'f" where
  "countOf fl n = ((\<lambda>x. f_add fl x (f_one fl)) ^^ n) (f_zero fl)"

definition totalOf :: "'f float64 \<Rightarrow> (string \<times> 'f list) list \<Rightarrow> 'f" where
  "totalOf fl rates = foldl (\<lambda>t (kr, rateList). f_add fl t (avgRate fl rateList)) (f_zero fl) rates"

definition throttleSleep :: "'f float64 \<Rightarrow> 'f \<Rightarrow> 'f \<Rightarrow> int" where
  "throttleSleep fl krQps clientMaxQps =
     sint (word_of_int (f_int64 fl (f_mul fl (f_Seconds fl 60000000000)
                                     (f_div fl (f_sub fl krQps clientMaxQps) krQps)))
           * (1000000 :: 64 word))"

text \<open>
  Exact arithmetic, for concrete runs on values whose sums, differences, products and
  quotients are exact in \<open>float64\<close> as well: \<open>int64(x)\<close> cuts the fraction off.
\<close>

definition exactArith :: "real float64" where
  "exactArith =
     \<lparr>f_zero = 0, f_one = 1, f_add = (+), f_sub = (-), f_mul = (*), f_div = (/),
      f_gt = (\<lambda>x y. y < x), f_eq = (=),
      f_int64 = (\<lambda>x. if x < 0 then \<lceil>x\<rceil> else \<lfloor>x\<rfloor>),
      f_Seconds = (\<lambda>d. real_of_int d / 1000000000)\<rparr>"

text \<open>
  The rate that the ticker finds for a subscriber, and what one tick above the ceiling
  assigns to it: \<open>clientMaxQps\<close> is the ceiling divided by the number of entries of the
  rate map.
\<close>

definition clientRate :: "'f float64 \<Rightarrow> (string \<times> 'f list) list \<Rightarrow> Blp \<Rightarrow> 'f option" where
  "clientRate fl rates blpClient =
     map_option (avgRate fl) (map_of rates (''DmlCount.'' @ keyrangeTag blpClient))"

definition throttled :: "'f float64 \<Rightarrow> 'f \<Rightarrow> (string \<times> 'f list) list \<Rightarrow> Blp \<Rightarrow> Blp" where
  "throttled fl rateCeiling rates blpClient =
     (let clientMaxQps = f_div fl rateCeiling (countOf fl (length rates))
      in blpClient\<lparr>sleepToThrottle :=
           (case clientRate fl rates blpClient of
              Some krQps \<Rightarrow> if f_gt fl krQps clientMaxQps then throttleSleep fl krQps clientMaxQps else 0
            | None \<Rightarrow> 0)\<rparr>)"

text \<open>A subscriber with a given tag, for concrete runs.\<close>

definition throttleClient :: "string \<Rightarrow> Blp" where
  "throttleClient tag = (NewBlp specPackages s4Start s4Range)\<lparr>keyrangeTag := tag\<rparr>"

definition noMaps :: "real tickerMaps" where
  "noMaps = \<lparr>rateMap = [], krRateMap = []\<rparr>"

text \<open>
  Two subscribers with a rate of 2 each under a ceiling of 2, and one subscriber with a
  rate of 4 under a ceiling of 4 while the rate map also has the entry of another key.
\<close>

definition throttleServer1 :: "real BinlogServer" where
  "throttleServer1 = \<lparr>clients = [throttleClient ''c0'', throttleClient ''MAX_KEY''], throttleRate = 2\<rparr>"

definition throttleRates1 :: "(string \<times> real list) list" where
  "throttleRates1 = [(''DmlCount.c0'', [2]), (''DmlCount.MAX_KEY'', [2])]"

definition throttleServer2 :: "real BinlogServer" where
  "throttleServer2 = \<lparr>clients = [throttleClient ''c0''], throttleRate = 4\<rparr>"

definition throttleRates2 :: "(string \<times> real list) list" where
  "throttleRates2 = [(''DmlCount.c0'', [4]), (''DmlCount.80'', [4])]"

section \<open>Properties of ShardInfo.Rebuild\<close>

lemma placeAlias_KeyRange: "KeyRange (placeAlias tmp t) = KeyRange tmp"
  by (simp add: placeAlias_def split: TabletType.splits)

lemma placeAlias_Master:
  "MasterAlias (placeAlias tmp t) = (if tablet_Type t = TYPE_MASTER then aliasOf t else MasterAlias tmp)"
  by (simp add: placeAlias_def split: TabletType.splits)

lemma placeAlias_Replica:
  "ReplicaAliases (placeAlias tmp t) =
     ReplicaAliases tmp @ (if tablet_Type t = TYPE_REPLICA then [aliasOf t] else [])"
  by (simp add: placeAlias_def split: TabletType.splits)

lemma placeAlias_Rdonly:
  "RdonlyAliases (placeAlias tmp t) =
     RdonlyAliases tmp @ (if tablet_Type t = TYPE_RDONLY then [aliasOf t] else [])"
  by (simp add: placeAlias_def split: TabletType.splits)

lemma Rebuild_loop_Suc_ok:
  "\<forall>ti \<in> set ts. tablet_KeyRange (Tablet ti) = KeyRange tmp \<Longrightarrow>
   \<exists>sh. Rebuild_loop (Suc i) tmp ts = Inr sh
     \<and> MasterAlias sh = lastOr (MasterAlias tmp) (aliasesOfType TYPE_MASTER ts)
     \<and> ReplicaAliases sh = ReplicaAliases tmp @ aliasesOfType TYPE_REPLICA ts
     \<and> RdonlyAliases sh = RdonlyAliases tmp @ aliasesOfType TYPE_RDONLY ts
     \<and> KeyRange sh = KeyRange tmp"
proof (induction ts arbitrary: i tmp)
  case Nil
  then show ?case by (simp add: lastOr_def aliasesOfType_def)
next
  case (Cons ti ts)
  let ?tmp1 = "placeAlias tmp (Tablet ti)"
  have kr: "KeyRange ?tmp1 = KeyRange tmp" by (rule placeAlias_KeyRange)
  from Cons.prems have "\<forall>x \<in> set ts. tablet_KeyRange (Tablet x) = KeyRange ?tmp1"
    by (simp add: kr)
  from Cons.IH [OF this, of "Suc i"] obtain sh where
    sh: "Rebuild_loop (Suc (Suc i)) ?tmp1 ts = Inr sh"
      "MasterAlias sh = lastOr (MasterAlias ?tmp1) (aliasesOfType TYPE_MASTER ts)"
      "ReplicaAliases sh = ReplicaAliases ?tmp1 @ aliasesOfType TYPE_REPLICA ts"
      "RdonlyAliases sh = RdonlyAliases ?tmp1 @ aliasesOfType TYPE_RDONLY ts"
      "KeyRange sh = KeyRange ?tmp1"
    by blast
  from Cons.prems have eq: "tablet_KeyRange (Tablet ti) = KeyRange tmp" by simp
  have run: "Rebuild_loop (Suc i) tmp (ti # ts) = Inr sh"
    using sh(1) eq by (simp add: Let_def kr)
  have m: "MasterAlias sh = lastOr (MasterAlias tmp) (aliasesOfType TYPE_MASTER (ti # ts))"
    using sh(2) by (simp add: placeAlias_Master lastOr_def aliasesOfType_def)
  have r: "ReplicaAliases sh = ReplicaAliases tmp @ aliasesOfType TYPE_REPLICA (ti # ts)"
    using sh(3) by (simp add: placeAlias_Replica aliasesOfType_def)
  have ro: "RdonlyAliases sh = RdonlyAliases tmp @ aliasesOfType TYPE_RDONLY (ti # ts)"
    using sh(4) by (simp add: placeAlias_Rdonly aliasesOfType_def)
  from run m r ro sh(5) kr show ?case by simp
qed

lemma Rebuild_loop_Suc_err:
  "\<exists>ti \<in> set ts. tablet_KeyRange (Tablet ti) \<noteq> KeyRange tmp \<Longrightarrow>
   \<exists>e. Rebuild_loop (Suc i) tmp ts = Inl e"
proof (induction ts arbitrary: i tmp)
  case Nil
  then show ?case by simp
next
  case (Cons ti ts)
  show ?case
  proof (cases "tablet_KeyRange (Tablet ti) = KeyRange tmp")
    case True
    with Cons.prems have "\<exists>x \<in> set ts. tablet_KeyRange (Tablet x) \<noteq> KeyRange (placeAlias tmp (Tablet ti))"
      by (simp add: placeAlias_KeyRange)
    from Cons.IH [OF this, of "Suc i"] show ?thesis
      using True by (simp add: Let_def placeAlias_KeyRange)
  next
    case False
    then show ?thesis by (simp add: Let_def placeAlias_KeyRange)
  qed
qed

lemma consistent_Cons:
  "consistentKeyRanges (ti # rest) \<Longrightarrow> x \<in> set rest \<Longrightarrow>
   tablet_KeyRange (Tablet x) = tablet_KeyRange (Tablet ti)"
  unfolding consistentKeyRanges_def by (meson list.set_intros)

lemma Rebuild_loop_ok:
  assumes "consistentKeyRanges ts"
  shows "\<exists>sh. Rebuild_loop 0 newShard ts = Inr sh
     \<and> MasterAlias sh = lastOr zeroAlias (aliasesOfType TYPE_MASTER ts)
     \<and> ReplicaAliases sh = aliasesOfType TYPE_REPLICA ts
     \<and> RdonlyAliases sh = aliasesOfType TYPE_RDONLY ts
     \<and> (\<forall>ti \<in> set ts. tablet_KeyRange (Tablet ti) = KeyRange sh)
     \<and> (ts = [] \<longrightarrow> KeyRange sh = zeroKeyRange)"
proof (cases ts)
  case Nil
  then show ?thesis by (simp add: newShard_def lastOr_def aliasesOfType_def)
next
  case (Cons ti rest)
  let ?tmp = "(placeAlias newShard (Tablet ti))\<lparr>KeyRange := tablet_KeyRange (Tablet ti)\<rparr>"
  have c: "consistentKeyRanges (ti # rest)" using assms Cons by simp
  have "\<forall>x \<in> set rest. tablet_KeyRange (Tablet x) = KeyRange ?tmp"
    using consistent_Cons [OF c] by simp
  from Rebuild_loop_Suc_ok [OF this, of 0] obtain sh where
    sh: "Rebuild_loop (Suc 0) ?tmp rest = Inr sh"
      "MasterAlias sh = lastOr (MasterAlias ?tmp) (aliasesOfType TYPE_MASTER rest)"
      "ReplicaAliases sh = ReplicaAliases ?tmp @ aliasesOfType TYPE_REPLICA rest"
      "RdonlyAliases sh = RdonlyAliases ?tmp @ aliasesOfType TYPE_RDONLY rest"
      "KeyRange sh = KeyRange ?tmp"
    by blast
  have run: "Rebuild_loop 0 newShard ts = Inr sh"
    using sh(1) Cons by (simp add: Let_def)
  have m: "MasterAlias sh = lastOr zeroAlias (aliasesOfType TYPE_MASTER ts)"
    using sh(2) Cons by (simp add: placeAlias_Master lastOr_def aliasesOfType_def newShard_def)
  have r: "ReplicaAliases sh = aliasesOfType TYPE_REPLICA ts"
    using sh(3) Cons by (simp add: placeAlias_Replica aliasesOfType_def newShard_def)
  have ro: "RdonlyAliases sh = aliasesOfType TYPE_RDONLY ts"
    using sh(4) Cons by (simp add: placeAlias_Rdonly aliasesOfType_def newShard_def)
  have k: "\<forall>x \<in> set ts. tablet_KeyRange (Tablet x) = KeyRange sh"
    using sh(5) consistent_Cons [OF c] Cons by simp
  from run m r ro k Cons show ?thesis by simp
qed

lemma Rebuild_loop_err:
  assumes "\<not> consistentKeyRanges ts"
  shows "\<exists>e. Rebuild_loop 0 newShard ts = Inl e"
proof (cases ts)
  case Nil
  with assms show ?thesis by (simp add: consistentKeyRanges_def)
next
  case (Cons ti rest)
  let ?tmp = "(placeAlias newShard (Tablet ti))\<lparr>KeyRange := tablet_KeyRange (Tablet ti)\<rparr>"
  have "\<exists>x \<in> set rest. tablet_KeyRange (Tablet x) \<noteq> tablet_KeyRange (Tablet ti)"
  proof (rule ccontr)
    assume "\<not> ?thesis"
    then have "\<forall>x \<in> set ts. tablet_KeyRange (Tablet x) = tablet_KeyRange (Tablet ti)"
      using Cons by simp
    then have "consistentKeyRanges ts" unfolding consistentKeyRanges_def by metis
    with assms show False by simp
  qed
  then have "\<exists>x \<in> set rest. tablet_KeyRange (Tablet x) \<noteq> KeyRange ?tmp" by simp
  from Rebuild_loop_Suc_err [OF this, of 0] show ?thesis
    using Cons by (simp add: Let_def)
qed


lemma consistent_filter:
  "consistentKeyRanges ts \<Longrightarrow> consistentKeyRanges (filter P ts)"
  unfolding consistentKeyRanges_def by (meson filter_is_subset subsetD)

lemma aliasesOfType_filter_serving:
  "servingType ty \<Longrightarrow>
   aliasesOfType ty (filter (\<lambda>ti. servingType (tablet_Type (Tablet ti))) ts) = aliasesOfType ty ts"
proof -
  assume s: "servingType ty"
  have "filter (\<lambda>ti. tablet_Type (Tablet ti) = ty)
          (filter (\<lambda>ti. servingType (tablet_Type (Tablet ti))) ts)
        = filter (\<lambda>ti. tablet_Type (Tablet ti) = ty) ts"
    using s by (induction ts) auto
  then show ?thesis by (simp add: aliasesOfType_def)
qed

lemma Rebuild_ok:
  assumes "consistentKeyRanges ts"
  shows "\<exists>sh. Rebuild si ts = (si\<lparr>Shard := sh\<rparr>, None)
     \<and> MasterAlias sh = lastOr zeroAlias (aliasesOfType TYPE_MASTER ts)
     \<and> ReplicaAliases sh = aliasesOfType TYPE_REPLICA ts
     \<and> RdonlyAliases sh = aliasesOfType TYPE_RDONLY ts
     \<and> (\<forall>ti \<in> set ts. tablet_KeyRange (Tablet ti) = KeyRange sh)"
proof -
  from Rebuild_loop_ok [OF assms] obtain sh where
    sh: "Rebuild_loop 0 newShard ts = Inr sh"
      "MasterAlias sh = lastOr zeroAlias (aliasesOfType TYPE_MASTER ts)"
      "ReplicaAliases sh = aliasesOfType TYPE_REPLICA ts"
      "RdonlyAliases sh = aliasesOfType TYPE_RDONLY ts"
      "\<forall>ti \<in> set ts. tablet_KeyRange (Tablet ti) = KeyRange sh"
    by blast
  have "Rebuild si ts = (si\<lparr>Shard := sh\<rparr>, None)"
    using sh(1) by (simp add: Rebuild_def)
  with sh(2-5) show ?thesis by blast
qed

lemma Rebuild_err:
  assumes "\<not> consistentKeyRanges ts"
  shows "\<exists>e. Rebuild si ts = (si, Some e)"
proof -
  from Rebuild_loop_err [OF assms] obtain e where "Rebuild_loop 0 newShard ts = Inl e" ..
  then have "Rebuild si ts = (si, Some e)" by (simp add: Rebuild_def)
  then show ?thesis ..
qed

lemma Rebuild_error_iff:
  "(\<exists>e. snd (Rebuild si ts) = Some e) \<longleftrightarrow> \<not> consistentKeyRanges ts"
proof (cases "consistentKeyRanges ts")
  case True
  from Rebuild_ok [OF True, of si] obtain sh where "Rebuild si ts = (si\<lparr>Shard := sh\<rparr>, None)"
    by blast
  then have "snd (Rebuild si ts) = None" by simp
  with True show ?thesis by simp
next
  case False
  from Rebuild_err [OF False, of si] obtain e where "Rebuild si ts = (si, Some e)" ..
  then have "\<exists>e. snd (Rebuild si ts) = Some e" by simp
  with False show ?thesis by simp
qed

lemma placeAlias_nonserving:
  "\<not> servingType (tablet_Type t) \<Longrightarrow> placeAlias tmp t = tmp"
  by (cases "tablet_Type t") (simp_all add: servingType_def placeAlias_def)


lemma Rebuild_ignores_nonserving:
  assumes c: "consistentKeyRanges ts"
  shows "MasterAlias (Shard (fst (Rebuild si ts))) =
           MasterAlias (Shard (fst (Rebuild si (filter (\<lambda>ti. servingType (tablet_Type (Tablet ti))) ts))))
       \<and> ReplicaAliases (Shard (fst (Rebuild si ts))) =
           ReplicaAliases (Shard (fst (Rebuild si (filter (\<lambda>ti. servingType (tablet_Type (Tablet ti))) ts))))
       \<and> RdonlyAliases (Shard (fst (Rebuild si ts))) =
           RdonlyAliases (Shard (fst (Rebuild si (filter (\<lambda>ti. servingType (tablet_Type (Tablet ti))) ts))))"
proof -
  let ?fs = "filter (\<lambda>ti. servingType (tablet_Type (Tablet ti))) ts"
  from Rebuild_ok [OF c, of si] obtain sh where
    sh: "Rebuild si ts = (si\<lparr>Shard := sh\<rparr>, None)"
      "MasterAlias sh = lastOr zeroAlias (aliasesOfType TYPE_MASTER ts)"
      "ReplicaAliases sh = aliasesOfType TYPE_REPLICA ts"
      "RdonlyAliases sh = aliasesOfType TYPE_RDONLY ts"
    by blast
  have c': "consistentKeyRanges ?fs" using c by (rule consistent_filter)
  from Rebuild_ok [OF c', of si] obtain sh' where
    sh': "Rebuild si ?fs = (si\<lparr>Shard := sh'\<rparr>, None)"
      "MasterAlias sh' = lastOr zeroAlias (aliasesOfType TYPE_MASTER ?fs)"
      "ReplicaAliases sh' = aliasesOfType TYPE_REPLICA ?fs"
      "RdonlyAliases sh' = aliasesOfType TYPE_RDONLY ?fs"
    by blast
  have s: "servingType TYPE_MASTER" "servingType TYPE_REPLICA" "servingType TYPE_RDONLY"
    by (simp_all add: servingType_def)
  have "MasterAlias sh = MasterAlias sh'"
    unfolding sh(2) sh'(2) aliasesOfType_filter_serving [OF s(1)] ..
  moreover have "ReplicaAliases sh = ReplicaAliases sh'"
    unfolding sh(3) sh'(3) aliasesOfType_filter_serving [OF s(2)] ..
  moreover have "RdonlyAliases sh = RdonlyAliases sh'"
    unfolding sh(4) sh'(4) aliasesOfType_filter_serving [OF s(3)] ..
  ultimately show ?thesis unfolding sh(1) sh'(1) by simp
qed

lemma Rebuild_last_master:
  assumes c: "consistentKeyRanges ts" and m: "aliasesOfType TYPE_MASTER ts \<noteq> []"
  shows "snd (Rebuild si ts) = None
       \<and> MasterAlias (Shard (fst (Rebuild si ts))) = last (aliasesOfType TYPE_MASTER ts)"
proof -
  from Rebuild_ok [OF c, of si] obtain sh where
    sh: "Rebuild si ts = (si\<lparr>Shard := sh\<rparr>, None)"
      "MasterAlias sh = lastOr zeroAlias (aliasesOfType TYPE_MASTER ts)"
    by blast
  have "MasterAlias sh = last (aliasesOfType TYPE_MASTER ts)"
    unfolding sh(2) using m by (simp add: lastOr_def)
  then show ?thesis unfolding sh(1) by simp
qed

text \<open>
  C7, as stated, fails on a list with two masters: both tablets are in the master
  partition of the input, \<open>Rebuild\<close> reports no error, and the shard record names only the
  second one; the first master is in no field of the record.
\<close>

theorem Rebuild_two_masters_counterexample:
  "consistentKeyRanges
     [mkTabletInfo ''nj'' 1 TYPE_MASTER [0x40] [0x80], mkTabletInfo ''ny'' 2 TYPE_MASTER [0x40] [0x80]]
   \<and> aliasesOfType TYPE_MASTER
       [mkTabletInfo ''nj'' 1 TYPE_MASTER [0x40] [0x80], mkTabletInfo ''ny'' 2 TYPE_MASTER [0x40] [0x80]]
     = [\<lparr>Cell = ''nj'', Uid = 1\<rparr>, \<lparr>Cell = ''ny'', Uid = 2\<rparr>]
   \<and> Rebuild \<lparr>keyspace = ''ks'', shardName = ''40-80'', Shard = newShard\<rparr>
       [mkTabletInfo ''nj'' 1 TYPE_MASTER [0x40] [0x80], mkTabletInfo ''ny'' 2 TYPE_MASTER [0x40] [0x80]]
     = (\<lparr>keyspace = ''ks'', shardName = ''40-80'', Shard =
          \<lparr>MasterAlias = \<lparr>Cell = ''ny'', Uid = 2\<rparr>, ReplicaAliases = [], RdonlyAliases = [],
           KeyRange = \<lparr>Start = [0x40], End = [0x80]\<rparr>\<rparr>\<rparr>, None)
   \<and> \<lparr>Cell = ''nj'', Uid = 1\<rparr> \<noteq> \<lparr>Cell = ''ny'', Uid = 2\<rparr>"
  by (simp add: consistentKeyRanges_def aliasesOfType_def Rebuild_def mkTabletInfo_def placeAlias_def
      aliasOf_def newShard_def zeroAlias_def zeroKeyRange_def Let_def)

text \<open>
  C7, amended. For every list of member tablets whose key ranges agree, \<open>Rebuild\<close> replaces
  the shard record by one whose replica and rdonly aliases are exactly the replica and
  rdonly tablets of the input (in input order), whose master alias is the last master of
  the input (the zero alias when there is none; so the master field is the master
  partition exactly when the input has one master), and whose key range is the key range
  of every member. If two members have different key ranges, \<open>Rebuild\<close> returns an error
  and leaves the receiver as it was.
\<close>

theorem Rebuild_matches_partition:
  "(consistentKeyRanges ts \<longrightarrow>
      (\<exists>sh. Rebuild si ts = (si\<lparr>Shard := sh\<rparr>, None)
         \<and> MasterAlias sh = lastOr zeroAlias (aliasesOfType TYPE_MASTER ts)
         \<and> ReplicaAliases sh = aliasesOfType TYPE_REPLICA ts
         \<and> RdonlyAliases sh = aliasesOfType TYPE_RDONLY ts
         \<and> (\<forall>ti \<in> set ts. tablet_KeyRange (Tablet ti) = KeyRange sh)))
   \<and> ((\<exists>a \<in> set ts. \<exists>b \<in> set ts. tablet_KeyRange (Tablet a) \<noteq> tablet_KeyRange (Tablet b)) \<longrightarrow>
      (\<exists>e. Rebuild si ts = (si, Some e)))"
proof (intro conjI impI)
  assume "consistentKeyRanges ts"
  then show "\<exists>sh. Rebuild si ts = (si\<lparr>Shard := sh\<rparr>, None)
         \<and> MasterAlias sh = lastOr zeroAlias (aliasesOfType TYPE_MASTER ts)
         \<and> ReplicaAliases sh = aliasesOfType TYPE_REPLICA ts
         \<and> RdonlyAliases sh = aliasesOfType TYPE_RDONLY ts
         \<and> (\<forall>ti \<in> set ts. tablet_KeyRange (Tablet ti) = KeyRange sh)"
    by (rule Rebuild_ok)
next
  assume "\<exists>a \<in> set ts. \<exists>b \<in> set ts. tablet_KeyRange (Tablet a) \<noteq> tablet_KeyRange (Tablet b)"
  then have "\<not> consistentKeyRanges ts" unfolding consistentKeyRanges_def by blast
  then show "\<exists>e. Rebuild si ts = (si, Some e)" by (rule Rebuild_err)
qed

theorem Rebuild_matches_partition_witness:
  "consistentKeyRanges
     [mkTabletInfo ''nj'' 1 TYPE_MASTER [0x40] [0x80], mkTabletInfo ''nj'' 2 TYPE_REPLICA [0x40] [0x80],
      mkTabletInfo ''ny'' 3 TYPE_RDONLY [0x40] [0x80], mkTabletInfo ''ny'' 4 TYPE_REPLICA [0x40] [0x80]]
   \<and> Rebuild \<lparr>keyspace = ''ks'', shardName = ''40-80'', Shard = newShard\<rparr>
     [mkTabletInfo ''nj'' 1 TYPE_MASTER [0x40] [0x80], mkTabletInfo ''nj'' 2 TYPE_REPLICA [0x40] [0x80],
      mkTabletInfo ''ny'' 3 TYPE_RDONLY [0x40] [0x80], mkTabletInfo ''ny'' 4 TYPE_REPLICA [0x40] [0x80]]
     = (\<lparr>keyspace = ''ks'', shardName = ''40-80'', Shard =
          \<lparr>MasterAlias = \<lparr>Cell = ''nj'', Uid = 1\<rparr>,
           ReplicaAliases = [\<lparr>Cell = ''nj'', Uid = 2\<rparr>, \<lparr>Cell = ''ny'', Uid = 4\<rparr>],
           RdonlyAliases = [\<lparr>Cell = ''ny'', Uid = 3\<rparr>],
           KeyRange = \<lparr>Start = [0x40], End = [0x80]\<rparr>\<rparr>\<rparr>, None)
   \<and> (\<exists>a \<in> set [mkTabletInfo ''nj'' 1 TYPE_MASTER [0x40] [0x80], mkTabletInfo ''nj'' 2 TYPE_REPLICA [0x80] [0xC0]].
        \<exists>b \<in> set [mkTabletInfo ''nj'' 1 TYPE_MASTER [0x40] [0x80], mkTabletInfo ''nj'' 2 TYPE_REPLICA [0x80] [0xC0]].
          tablet_KeyRange (Tablet a) \<noteq> tablet_KeyRange (Tablet b))
   \<and> (\<exists>e. Rebuild \<lparr>keyspace = ''ks'', shardName = ''40-80'', Shard = newShard\<rparr>
          [mkTabletInfo ''nj'' 1 TYPE_MASTER [0x40] [0x80], mkTabletInfo ''nj'' 2 TYPE_REPLICA [0x80] [0xC0]]
        = (\<lparr>keyspace = ''ks'', shardName = ''40-80'', Shard = newShard\<rparr>, Some e))"
proof -
  let ?si = "\<lparr>keyspace = ''ks'', shardName = ''40-80'', Shard = newShard\<rparr>"
  let ?ts = "[mkTabletInfo ''nj'' 1 TYPE_MASTER [0x40] [0x80], mkTabletInfo ''nj'' 2 TYPE_REPLICA [0x40] [0x80],
      mkTabletInfo ''ny'' 3 TYPE_RDONLY [0x40] [0x80], mkTabletInfo ''ny'' 4 TYPE_REPLICA [0x40] [0x80]]"
  let ?bad = "[mkTabletInfo ''nj'' 1 TYPE_MASTER [0x40] [0x80], mkTabletInfo ''nj'' 2 TYPE_REPLICA [0x80] [0xC0]]"
  have c: "consistentKeyRanges ?ts"
    by (simp add: consistentKeyRanges_def mkTabletInfo_def)
  have run: "Rebuild ?si ?ts = (\<lparr>keyspace = ''ks'', shardName = ''40-80'', Shard =
          \<lparr>MasterAlias = \<lparr>Cell = ''nj'', Uid = 1\<rparr>,
           ReplicaAliases = [\<lparr>Cell = ''nj'', Uid = 2\<rparr>, \<lparr>Cell = ''ny'', Uid = 4\<rparr>],
           RdonlyAliases = [\<lparr>Cell = ''ny'', Uid = 3\<rparr>],
           KeyRange = \<lparr>Start = [0x40], End = [0x80]\<rparr>\<rparr>\<rparr>, None)"
    by (simp add: Rebuild_def mkTabletInfo_def placeAlias_def aliasOf_def newShard_def)
  have d: "\<exists>a \<in> set ?bad. \<exists>b \<in> set ?bad. tablet_KeyRange (Tablet a) \<noteq> tablet_KeyRange (Tablet b)"
    by (auto simp: mkTabletInfo_def)
  from Rebuild_matches_partition [of ?bad ?si] d
  have "\<exists>e. Rebuild ?si ?bad = (?si, Some e)" by blast
  with c run d show ?thesis by blast
qed

text \<open>
  C10. \<open>Rebuild\<close> fails exactly when two input tablets differ in key range, whatever the
  types of the tablets are: no membership condition is ever reported. A tablet whose
  type is not master, replica or rdonly changes no alias field (the result has the alias
  fields of the rebuild of the serving tablets alone), yet its key range takes part in
  the check. With one or more masters in a consistent input the call succeeds and the
  last master of the list is the master alias.
\<close>

theorem Rebuild_membership_unchecked:
  "((\<exists>e. snd (Rebuild si ts) = Some e) \<longleftrightarrow>
      (\<exists>a \<in> set ts. \<exists>b \<in> set ts. tablet_KeyRange (Tablet a) \<noteq> tablet_KeyRange (Tablet b)))
   \<and> (\<not> servingType (tablet_Type t) \<longrightarrow> placeAlias tmp t = tmp)
   \<and> (consistentKeyRanges ts \<longrightarrow>
        (let sh = Shard (fst (Rebuild si ts));
             sh' = Shard (fst (Rebuild si (filter (\<lambda>ti. servingType (tablet_Type (Tablet ti))) ts)))
         in MasterAlias sh = MasterAlias sh' \<and> ReplicaAliases sh = ReplicaAliases sh'
            \<and> RdonlyAliases sh = RdonlyAliases sh'))
   \<and> (consistentKeyRanges ts \<and> aliasesOfType TYPE_MASTER ts \<noteq> [] \<longrightarrow>
        snd (Rebuild si ts) = None
        \<and> MasterAlias (Shard (fst (Rebuild si ts))) = last (aliasesOfType TYPE_MASTER ts))"
  using Rebuild_error_iff [of si ts] placeAlias_nonserving [of t tmp]
    Rebuild_ignores_nonserving [of ts si] Rebuild_last_master [of ts si]
  unfolding consistentKeyRanges_def Let_def by blast

theorem Rebuild_membership_unchecked_witness:
  "consistentKeyRanges
     [mkTabletInfo ''nj'' 1 TYPE_MASTER [0x40] [0x80], mkTabletInfo ''nj'' 5 TYPE_SPARE [0x40] [0x80],
      mkTabletInfo ''ny'' 2 TYPE_MASTER [0x40] [0x80]]
   \<and> aliasesOfType TYPE_MASTER
     [mkTabletInfo ''nj'' 1 TYPE_MASTER [0x40] [0x80], mkTabletInfo ''nj'' 5 TYPE_SPARE [0x40] [0x80],
      mkTabletInfo ''ny'' 2 TYPE_MASTER [0x40] [0x80]] \<noteq> []
   \<and> Rebuild \<lparr>keyspace = ''ks'', shardName = ''40-80'', Shard = newShard\<rparr>
     [mkTabletInfo ''nj'' 1 TYPE_MASTER [0x40] [0x80], mkTabletInfo ''nj'' 5 TYPE_SPARE [0x40] [0x80],
      mkTabletInfo ''ny'' 2 TYPE_MASTER [0x40] [0x80]]
     = (\<lparr>keyspace = ''ks'', shardName = ''40-80'', Shard =
          \<lparr>MasterAlias = \<lparr>Cell = ''ny'', Uid = 2\<rparr>, ReplicaAliases = [], RdonlyAliases = [],
           KeyRange = \<lparr>Start = [0x40], End = [0x80]\<rparr>\<rparr>\<rparr>, None)
   \<and> \<not> servingType (tablet_Type (Tablet (mkTabletInfo ''nj'' 5 TYPE_SPARE [0x40] [0x80])))
   \<and> placeAlias newShard (Tablet (mkTabletInfo ''nj'' 5 TYPE_SPARE [0x40] [0x80])) = newShard
   \<and> (\<exists>e. snd (Rebuild \<lparr>keyspace = ''ks'', shardName = ''40-80'', Shard = newShard\<rparr>
          [mkTabletInfo ''nj'' 1 TYPE_MASTER [0x40] [0x80], mkTabletInfo ''nj'' 5 TYPE_SPARE [0x80] [0xC0]])
        = Some e)"
proof -
  let ?si = "\<lparr>keyspace = ''ks'', shardName = ''40-80'', Shard = newShard\<rparr>"
  let ?ts = "[mkTabletInfo ''nj'' 1 TYPE_MASTER [0x40] [0x80], mkTabletInfo ''nj'' 5 TYPE_SPARE [0x40] [0x80],
      mkTabletInfo ''ny'' 2 TYPE_MASTER [0x40] [0x80]]"
  let ?bad = "[mkTabletInfo ''nj'' 1 TYPE_MASTER [0x40] [0x80], mkTabletInfo ''nj'' 5 TYPE_SPARE [0x80] [0xC0]]"
  let ?spare = "Tablet (mkTabletInfo ''nj'' 5 TYPE_SPARE [0x40] [0x80])"
  have c: "consistentKeyRanges ?ts"
    by (simp add: consistentKeyRanges_def mkTabletInfo_def)
  have m: "aliasesOfType TYPE_MASTER ?ts \<noteq> []"
    by (simp add: aliasesOfType_def mkTabletInfo_def)
  have run: "Rebuild ?si ?ts = (\<lparr>keyspace = ''ks'', shardName = ''40-80'', Shard =
          \<lparr>MasterAlias = \<lparr>Cell = ''ny'', Uid = 2\<rparr>, ReplicaAliases = [], RdonlyAliases = [],
           KeyRange = \<lparr>Start = [0x40], End = [0x80]\<rparr>\<rparr>\<rparr>, None)"
    by (simp add: Rebuild_def mkTabletInfo_def placeAlias_def aliasOf_def newShard_def)
  have ns: "\<not> servingType (tablet_Type ?spare)"
    by (simp add: servingType_def mkTabletInfo_def)
  have d: "\<exists>a \<in> set ?bad. \<exists>b \<in> set ?bad. tablet_KeyRange (Tablet a) \<noteq> tablet_KeyRange (Tablet b)"
    by (auto simp: mkTabletInfo_def)
  from Rebuild_membership_unchecked [of ?si ?bad ?spare newShard] ns d
  have "placeAlias newShard ?spare = newShard"
    and "\<exists>e. snd (Rebuild ?si ?bad) = Some e" by blast+
  with c m run ns show ?thesis by blast
qed
section \<open>Properties of the binlog reader's seek\<close>

lemma serve_walk_lands:
  "serve_walk dir f fid nl pos = Inr (f', fid', nl', pos') \<Longrightarrow>
   nl = Suc fid \<Longrightarrow> map_of dir fid = Some f \<Longrightarrow>
   fid \<le> fid' \<and> nl' = Suc fid' \<and> map_of dir fid' = Some f'
   \<and> (\<forall>j. fid \<le> j \<and> j \<le> fid' \<longrightarrow> map_of dir j \<noteq> None)
   \<and> pos = pos' + (\<Sum>j = fid..<fid'. fileSize dir j)
   \<and> pos' \<le> int (length f')
   \<and> (\<forall>j. fid \<le> j \<and> j < fid' \<longrightarrow> (\<Sum>i = fid..j. fileSize dir i) < pos)"
proof (induction dir f fid nl pos rule: serve_walk.induct)
  case (1 dir binlogFile fileId nextLog startPosition)
  show ?case
  proof (cases "startPosition > int (length binlogFile)")
    case False
    with "1.prems" have e: "binlogFile = f'" "fileId = fid'" "nl' = Suc fid'" "startPosition = pos'"
      by (simp_all add: Let_def)
    have "\<forall>j. fid' \<le> j \<and> j \<le> fid' \<longrightarrow> map_of dir j \<noteq> None"
    proof (intro allI impI)
      fix j assume "fid' \<le> j \<and> j \<le> fid'"
      then have "j = fid'" by simp
      then show "map_of dir j \<noteq> None" using "1.prems"(3) e(2) by simp
    qed
    with e False "1.prems"(3) show ?thesis by simp
  next
    case True
    from True "1.prems"(1) obtain g where g: "map_of dir nextLog = Some g"
      by (auto simp: Let_def blr_open_def split: option.splits)
    then have o: "blr_open dir nextLog = Inr (g, Suc nextLog)" by (simp add: blr_open_def)
    from True o "1.prems"(1) have
      rec: "serve_walk dir g nextLog (Suc nextLog) (startPosition - int (length binlogFile))
              = Inr (f', fid', nl', pos')"
      by (simp add: Let_def)
    have sz: "fileSize dir fileId = int (length binlogFile)"
      using "1.prems"(3) by (simp add: fileSize_def)
    from "1.IH" [OF refl True o refl rec refl g]
    have ih: "nextLog \<le> fid'" "nl' = Suc fid'" "map_of dir fid' = Some f'"
      "\<forall>j. nextLog \<le> j \<and> j \<le> fid' \<longrightarrow> map_of dir j \<noteq> None"
      "startPosition - int (length binlogFile) = pos' + (\<Sum>j = nextLog..<fid'. fileSize dir j)"
      "pos' \<le> int (length f')"
      "\<forall>j. nextLog \<le> j \<and> j < fid' \<longrightarrow>
         (\<Sum>i = nextLog..j. fileSize dir i) < startPosition - int (length binlogFile)"
      by blast+
    have nl: "nextLog = Suc fileId" by (rule "1.prems"(2))
    have a: "fileId \<le> fid'" using ih(1) nl by simp
    have b: "\<forall>j. fileId \<le> j \<and> j \<le> fid' \<longrightarrow> map_of dir j \<noteq> None"
    proof (intro allI impI)
      fix j assume j: "fileId \<le> j \<and> j \<le> fid'"
      show "map_of dir j \<noteq> None"
      proof (cases "j = fileId")
        case True
        then show ?thesis using "1.prems"(3) by simp
      next
        case False
        with j nl have "nextLog \<le> j \<and> j \<le> fid'" by simp
        with ih(4) show ?thesis by blast
      qed
    qed
    have split: "(\<Sum>j = fileId..<fid'. fileSize dir j)
        = fileSize dir fileId + (\<Sum>j = nextLog..<fid'. fileSize dir j)"
      using ih(1) nl by (simp add: sum.atLeast_Suc_lessThan)
    have c: "startPosition = pos' + (\<Sum>j = fileId..<fid'. fileSize dir j)"
      using ih(5) split sz by simp
    have d: "\<forall>j. fileId \<le> j \<and> j < fid' \<longrightarrow> (\<Sum>i = fileId..j. fileSize dir i) < startPosition"
    proof (intro allI impI)
      fix j assume j: "fileId \<le> j \<and> j < fid'"
      show "(\<Sum>i = fileId..j. fileSize dir i) < startPosition"
      proof (cases "j = fileId")
        case True
        then show ?thesis using sz \<open>startPosition > int (length binlogFile)\<close> by simp
      next
        case False
        with j nl have jj: "nextLog \<le> j \<and> j < fid'" by simp
        have "(\<Sum>i = fileId..j. fileSize dir i)
            = fileSize dir fileId + (\<Sum>i = nextLog..j. fileSize dir i)"
          using jj nl by (simp add: sum.atLeast_Suc_atMost)
        with ih(7) jj sz show ?thesis by force
      qed
    qed
    from a ih(2,3) b c ih(6) d show ?thesis by blast
  qed
qed

lemma fileSize_nonneg: "0 \<le> fileSize dir j"
  by (simp add: fileSize_def split: option.splits)

lemma serve_walk_fails:
  "serve_walk dir f fid nl pos = Inl e \<Longrightarrow>
   nl = Suc fid \<Longrightarrow> map_of dir fid = Some f \<Longrightarrow>
   \<exists>j. e = OpenFailed j \<and> fid < j \<and> map_of dir j = None
     \<and> (\<forall>i. fid \<le> i \<and> i < j \<longrightarrow> map_of dir i \<noteq> None)
     \<and> (\<Sum>i = fid..<j. fileSize dir i) < pos"
proof (induction dir f fid nl pos rule: serve_walk.induct)
  case (1 dir binlogFile fileId nextLog startPosition)
  have nl: "nextLog = Suc fileId" by (rule "1.prems"(2))
  have sz: "fileSize dir fileId = int (length binlogFile)"
    using "1.prems"(3) by (simp add: fileSize_def)
  from "1.prems"(1) have gt: "startPosition > int (length binlogFile)"
    by (auto simp: Let_def split: if_splits)
  show ?case
  proof (cases "map_of dir nextLog")
    case None
    then have "blr_open dir nextLog = Inl (OpenFailed nextLog)" by (simp add: blr_open_def)
    with gt "1.prems"(1) have e: "e = OpenFailed nextLog" by (simp add: Let_def)
    have ex: "\<forall>i. fileId \<le> i \<and> i < nextLog \<longrightarrow> map_of dir i \<noteq> None"
    proof (intro allI impI)
      fix i assume "fileId \<le> i \<and> i < nextLog"
      with nl have "i = fileId" by simp
      then show "map_of dir i \<noteq> None" using "1.prems"(3) by simp
    qed
    have "(\<Sum>i = fileId..<nextLog. fileSize dir i) = fileSize dir fileId"
      using nl by simp
    with gt sz have "(\<Sum>i = fileId..<nextLog. fileSize dir i) < startPosition" by simp
    with e None ex nl show ?thesis by auto
  next
    case (Some g)
    then have o: "blr_open dir nextLog = Inr (g, Suc nextLog)" by (simp add: blr_open_def)
    from gt o "1.prems"(1) have
      rec: "serve_walk dir g nextLog (Suc nextLog) (startPosition - int (length binlogFile)) = Inl e"
      by (simp add: Let_def)
    from "1.IH" [OF refl gt o refl rec refl Some] obtain j where
      j: "e = OpenFailed j" "nextLog < j" "map_of dir j = None"
        "\<forall>i. nextLog \<le> i \<and> i < j \<longrightarrow> map_of dir i \<noteq> None"
        "(\<Sum>i = nextLog..<j. fileSize dir i) < startPosition - int (length binlogFile)"
      by blast
    have ex: "\<forall>i. fileId \<le> i \<and> i < j \<longrightarrow> map_of dir i \<noteq> None"
    proof (intro allI impI)
      fix i assume i: "fileId \<le> i \<and> i < j"
      show "map_of dir i \<noteq> None"
      proof (cases "i = fileId")
        case True
        then show ?thesis using "1.prems"(3) by simp
      next
        case False
        with i nl have "nextLog \<le> i \<and> i < j" by simp
        with j(4) show ?thesis by blast
      qed
    qed
    have "(\<Sum>i = fileId..<j. fileSize dir i)
        = fileSize dir fileId + (\<Sum>i = nextLog..<j. fileSize dir i)"
      using j(2) nl by (simp add: sum.atLeast_Suc_lessThan)
    with j(5) sz have "(\<Sum>i = fileId..<j. fileSize dir i) < startPosition" by simp
    moreover have "fileId < j" using j(2) nl by simp
    ultimately show ?thesis using j(1,3) ex by blast
  qed
qed

lemma sum_fileSize_mono:
  "a \<le> b \<Longrightarrow> (\<Sum>i = fid..<a. fileSize dir i) \<le> (\<Sum>i = fid..<b. fileSize dir i)"
  by (rule sum_mono2) (auto simp: fileSize_nonneg)

lemma injectHeader_Inr:
  "injectHeader http f fid nl pos = Inr r \<Longrightarrow>
   rs_fileId r = fid \<and> rs_nextLog r = nl \<and> rs_position r = pos"
  by (auto simp: injectHeader_def Let_def split: option.splits if_splits)

lemma serve_seek_lands:
  assumes r: "serve_seek dir fid start = Inr r" and pos: "0 < start"
  shows "fid \<le> rs_fileId r
     \<and> (\<forall>j. fid \<le> j \<and> j \<le> rs_fileId r \<longrightarrow> map_of dir j \<noteq> None)
     \<and> start = rs_position r + (\<Sum>j = fid..<rs_fileId r. fileSize dir j)
     \<and> 0 < rs_position r
     \<and> rs_position r \<le> fileSize dir (rs_fileId r)"
proof -
  from r obtain f where f: "map_of dir fid = Some f"
    by (auto simp: serve_seek_def blr_open_def split: option.splits)
  then have o: "blr_open dir fid = Inr (f, Suc fid)" by (simp add: blr_open_def)
  from r o pos obtain f' fid' nl' pos' where
    w: "serve_walk dir f fid (Suc fid) start = Inr (f', fid', nl', pos')"
    and h: "injectHeader True f' fid' nl' pos' = Inr r"
    by (auto simp: serve_seek_def split: sum.splits)
  from injectHeader_Inr [OF h] have e: "rs_fileId r = fid'" "rs_position r = pos'" by simp_all
  from serve_walk_lands [OF w refl f] have
    l: "fid \<le> fid'" "map_of dir fid' = Some f'"
      "\<forall>j. fid \<le> j \<and> j \<le> fid' \<longrightarrow> map_of dir j \<noteq> None"
      "start = pos' + (\<Sum>j = fid..<fid'. fileSize dir j)"
      "pos' \<le> int (length f')"
      "\<forall>j. fid \<le> j \<and> j < fid' \<longrightarrow> (\<Sum>i = fid..j. fileSize dir i) < start"
    by blast+
  have sz: "fileSize dir fid' = int (length f')" using l(2) by (simp add: fileSize_def)
  have p: "0 < pos'"
  proof (cases "fid' = fid")
    case True
    with l(4) pos show ?thesis by simp
  next
    case False
    with l(1) obtain k where k: "fid' = Suc k" "fid \<le> k" by (cases fid') auto
    with l(6) have "(\<Sum>i = fid..k. fileSize dir i) < start" by simp
    moreover have "{fid..<fid'} = {fid..k}" using k by auto
    ultimately show ?thesis using l(4) by simp
  qed
  from l(1,3,4,5) p sz show ?thesis unfolding e by simp
qed

lemma serve_seek_OpenFailed:
  assumes r: "serve_seek dir fid start = Inl e" and pos: "0 < start"
    and o: "errorOutput e = [] \<and> e \<noteq> FirstEventUnreadable"
  shows "\<exists>j. e = OpenFailed j \<and> fid \<le> j \<and> map_of dir j = None
     \<and> (\<forall>i. fid \<le> i \<and> i < j \<longrightarrow> map_of dir i \<noteq> None)
     \<and> (\<Sum>i = fid..<j. fileSize dir i) < start"
proof (cases "map_of dir fid")
  case None
  then have "blr_open dir fid = Inl (OpenFailed fid)" by (simp add: blr_open_def)
  with r have "e = OpenFailed fid" by (simp add: serve_seek_def)
  with None pos show ?thesis by auto
next
  case (Some f)
  then have op: "blr_open dir fid = Inr (f, Suc fid)" by (simp add: blr_open_def)
  show ?thesis
  proof (cases "serve_walk dir f fid (Suc fid) start")
    case (Inl e')
    with r op pos have "e' = e" by (simp add: serve_seek_def)
    with Inl serve_walk_fails [OF _ refl Some] obtain j where
      "e = OpenFailed j" "fid < j" "map_of dir j = None"
      "\<forall>i. fid \<le> i \<and> i < j \<longrightarrow> map_of dir i \<noteq> None"
      "(\<Sum>i = fid..<j. fileSize dir i) < start"
      by blast
    then show ?thesis by (intro exI [of _ j]) simp
  next
    case (Inr t)
    obtain f' fid' nl' pos' where t: "t = (f', fid', nl', pos')" by (cases t) auto
    with r op pos Inr have "injectHeader True f' fid' nl' pos' = Inl e"
      by (simp add: serve_seek_def)
    then have "e = FirstEventUnreadable \<or> (\<exists>bs. e = ShortCopy bs \<and> bs = f' \<and> 17 \<le> length f')"
      by (auto simp: injectHeader_def readFirstEventSize_def BINLOG_HEADER_SIZE_def Let_def
          split: option.splits if_splits)
    with o show ?thesis by auto
  qed
qed

lemma serve_seek_beyond:
  assumes pos: "0 < start" and j: "fid \<le> j" "map_of dir j = None"
    and ex: "\<forall>i. fid \<le> i \<and> i < j \<longrightarrow> map_of dir i \<noteq> None"
    and beyond: "(\<Sum>i = fid..<j. fileSize dir i) < start"
  shows "serve_seek dir fid start = Inl (OpenFailed j)"
proof (cases "map_of dir fid")
  case None
  with ex j have "j = fid" by (metis le_neq_implies_less order_refl)
  moreover from None have "blr_open dir fid = Inl (OpenFailed fid)" by (simp add: blr_open_def)
  ultimately show ?thesis by (simp add: serve_seek_def)
next
  case (Some f)
  then have op: "blr_open dir fid = Inr (f, Suc fid)" by (simp add: blr_open_def)
  show ?thesis
  proof (cases "serve_walk dir f fid (Suc fid) start")
    case (Inl e)
    from serve_walk_fails [OF Inl refl Some] obtain k where
      k: "e = OpenFailed k" "fid < k" "map_of dir k = None"
        "\<forall>i. fid \<le> i \<and> i < k \<longrightarrow> map_of dir i \<noteq> None"
      by blast
    have "k = j"
    proof (rule ccontr)
      assume "k \<noteq> j"
      then consider "k < j" | "j < k" by linarith
      then show False
      proof cases
        case 1
        with k(2) have "fid \<le> k \<and> k < j" by simp
        with ex have "map_of dir k \<noteq> None" by blast
        with k(3) show False by simp
      next
        case 2
        with j(1) have "fid \<le> j \<and> j < k" by simp
        with k(4) have "map_of dir j \<noteq> None" by blast
        with j(2) show False by simp
      qed
    qed
    with Inl k(1) op pos show ?thesis by (simp add: serve_seek_def)
  next
    case (Inr t)
    obtain f' fid' nl' pos' where t: "t = (f', fid', nl', pos')" by (cases t) auto
    from serve_walk_lands [OF Inr [unfolded t] refl Some] have
      l: "fid \<le> fid'" "map_of dir fid' = Some f'"
        "\<forall>i. fid \<le> i \<and> i \<le> fid' \<longrightarrow> map_of dir i \<noteq> None"
        "start = pos' + (\<Sum>i = fid..<fid'. fileSize dir i)"
        "pos' \<le> int (length f')"
      by blast+
    have lt: "fid' < j"
    proof (rule ccontr)
      assume "\<not> fid' < j"
      with j(1) l(3) have "map_of dir j \<noteq> None" by auto
      with j(2) show False by simp
    qed
    have sz: "fileSize dir fid' = int (length f')" using l(2) by (simp add: fileSize_def)
    have "(\<Sum>i = fid..<Suc fid'. fileSize dir i) \<le> (\<Sum>i = fid..<j. fileSize dir i)"
      using lt by (intro sum_fileSize_mono) simp
    moreover have "(\<Sum>i = fid..<Suc fid'. fileSize dir i)
        = (\<Sum>i = fid..<fid'. fileSize dir i) + fileSize dir fid'"
      using l(1) by simp
    ultimately have "start \<le> (\<Sum>i = fid..<j. fileSize dir i)"
      using l(4,5) sz by simp
    with beyond show ?thesis by simp
  qed
qed

lemma serve_walk_reaches:
  "k - fid = d \<Longrightarrow> fid \<le> k \<Longrightarrow> map_of dir fid = Some f \<Longrightarrow> map_of dir k = Some fk \<Longrightarrow>
   (\<forall>i. fid \<le> i \<and> i \<le> k \<longrightarrow> map_of dir i \<noteq> None) \<Longrightarrow>
   (fid < k \<longrightarrow> (\<Sum>i = fid..<k. fileSize dir i) < pos) \<Longrightarrow>
   pos \<le> (\<Sum>i = fid..k. fileSize dir i) \<Longrightarrow>
   serve_walk dir f fid (Suc fid) pos = Inr (fk, k, Suc k, pos - (\<Sum>i = fid..<k. fileSize dir i))"
proof (induction d arbitrary: fid f pos)
  case 0
  then have e: "fid = k" by simp
  with 0 have "f = fk" by simp
  moreover from 0 e have "pos \<le> int (length f)" by (simp add: fileSize_def)
  ultimately show ?case using e by (simp add: Let_def)
next
  case (Suc d)
  then have lt: "fid < k" by simp
  have sz: "fileSize dir fid = int (length f)" using Suc.prems(3) by (simp add: fileSize_def)
  have split: "(\<Sum>i = fid..<k. fileSize dir i) = fileSize dir fid + (\<Sum>i = Suc fid..<k. fileSize dir i)"
    using lt by (simp add: sum.atLeast_Suc_lessThan)
  have split': "(\<Sum>i = fid..k. fileSize dir i) = fileSize dir fid + (\<Sum>i = Suc fid..k. fileSize dir i)"
    using lt by (simp add: sum.atLeast_Suc_atMost)
  have nn: "0 \<le> (\<Sum>i = Suc fid..<k. fileSize dir i)" by (rule sum_nonneg) (simp add: fileSize_nonneg)
  from Suc.prems(6) lt have big: "(\<Sum>i = fid..<k. fileSize dir i) < pos" by simp
  with split nn sz have gt: "int (length f) < pos" by simp
  from lt have "fid \<le> Suc fid \<and> Suc fid \<le> k" by simp
  with Suc.prems(5) have "map_of dir (Suc fid) \<noteq> None" by blast
  then obtain g where g: "map_of dir (Suc fid) = Some g" by blast
  then have o: "blr_open dir (Suc fid) = Inr (g, Suc (Suc fid))" by (simp add: blr_open_def)
  have a: "k - Suc fid = d" using Suc.prems(1) by simp
  have b: "Suc fid \<le> k" using lt by simp
  have c: "\<forall>i. Suc fid \<le> i \<and> i \<le> k \<longrightarrow> map_of dir i \<noteq> None" using Suc.prems(5) by simp
  have d': "Suc fid < k \<longrightarrow> (\<Sum>i = Suc fid..<k. fileSize dir i) < pos - int (length f)"
    using big split sz by simp
  have e: "pos - int (length f) \<le> (\<Sum>i = Suc fid..k. fileSize dir i)"
    using Suc.prems(7) split' sz by simp
  from Suc.IH [OF a b g Suc.prems(4) c d' e] have
    "serve_walk dir g (Suc fid) (Suc (Suc fid)) (pos - int (length f))
       = Inr (fk, k, Suc k, pos - int (length f) - (\<Sum>i = Suc fid..<k. fileSize dir i))" .
  moreover have "pos - int (length f) - (\<Sum>i = Suc fid..<k. fileSize dir i)
       = pos - (\<Sum>i = fid..<k. fileSize dir i)" using split sz by simp
  ultimately show ?case using gt o
    by (subst serve_walk.simps) (simp add: Let_def)
qed

lemma serve_seek_reaches:
  assumes pos: "0 < start" and le: "fid \<le> k"
    and all: "\<forall>i. fid \<le> i \<and> i \<le> k \<longrightarrow> map_of dir i \<noteq> None"
    and fk: "map_of dir k = Some fk"
    and lo: "(\<Sum>i = fid..<k. fileSize dir i) < start"
    and hi: "start \<le> (\<Sum>i = fid..k. fileSize dir i)"
  shows "serve_seek dir fid start
           = injectHeader True fk k (Suc k) (start - (\<Sum>i = fid..<k. fileSize dir i))"
proof -
  from le have "fid \<le> fid \<and> fid \<le> k" by simp
  with all have "map_of dir fid \<noteq> None" by blast
  then obtain f where f: "map_of dir fid = Some f" by blast
  then have o: "blr_open dir fid = Inr (f, Suc fid)" by (simp add: blr_open_def)
  have lo': "fid < k \<longrightarrow> (\<Sum>i = fid..<k. fileSize dir i) < start" using lo by simp
  from serve_walk_reaches [OF refl le f fk all lo' hi] o pos show ?thesis
    by (simp add: serve_seek_def)
qed

lemma ServeData_seek_rejects:
  "map_of dir fid = Some f \<Longrightarrow> int (length f) < start \<Longrightarrow>
   ServeData_seek dir fid start = Inl (StartBeyondSize start (int (length f)))"
  by (simp add: ServeData_seek_def blr_open_def Let_def)

lemma ServeData_seek_stays:
  "ServeData_seek dir fid start = Inr r \<Longrightarrow>
   rs_fileId r = fid \<and> map_of dir fid \<noteq> None \<and> rs_position r \<le> fileSize dir fid
     \<and> rs_position r = max 0 start"
  by (auto simp: ServeData_seek_def blr_open_def Let_def fileSize_def
      dest!: injectHeader_Inr split: option.splits if_splits)

lemma ex_len: "length exampleBinlog1 = 23" "length exampleBinlog2 = 42"
  by (simp_all add: exampleBinlog1_def exampleBinlog2_def exampleEvent_def)

lemma ex_first: "readFirstEventSize exampleBinlog2 = Some 19" "readFirstEventSize exampleBinlog1 = Some 19"
  by (simp_all add: readFirstEventSize_def BINLOG_HEADER_SIZE_def exampleBinlog1_def exampleBinlog2_def exampleEvent_def)

lemma ex_serve: "serve_seek exampleDir 1 46 =
   Inr \<lparr>rs_fileId = 2, rs_nextLog = 3, rs_position = 23,
        rs_written = [254, 98, 105, 110] @ exampleEvent, rs_binlogOffset = Some 23\<rparr>"
  by (simp add: serve_seek_def blr_open_def exampleDir_def ex_len ex_first injectHeader_def
      BINLOG_HEADER_SIZE_def Let_def) (simp add: exampleBinlog2_def exampleEvent_def)

lemma ex_ServeData: "ServeData_seek exampleDir 1 46 = Inl (StartBeyondSize 46 23)"
  by (simp add: ServeData_seek_def blr_open_def exampleDir_def ex_len Let_def)

lemma ex_sum: "(\<Sum>i = 1..<3. fileSize exampleDir i) = 65"
  by (simp add: fileSize_def exampleDir_def ex_len numeral_3_eq_3 sum.atLeast_Suc_lessThan)

lemma ex_all: "\<forall>i. (1::nat) \<le> i \<and> i < 3 \<longrightarrow> map_of exampleDir i \<noteq> None"
  by (auto simp: exampleDir_def)

text \<open>
  C6, as stated, fails for \<open>ServeData\<close>: started in file 1 (23 bytes) at offset 46, with
  file 2 (42 bytes) present, \<open>ServeData\<close> logs "start position greater than size" and
  returns, where \<open>serve\<close> walks to file 2 and seeks to offset 23.
\<close>

theorem ServeData_seek_walks_counterexample:
  "ServeData_seek exampleDir 1 46 = Inl (StartBeyondSize 46 23)
   \<and> serve_seek exampleDir 1 46 =
       Inr \<lparr>rs_fileId = 2, rs_nextLog = 3, rs_position = 23,
            rs_written = [254, 98, 105, 110] @ exampleEvent, rs_binlogOffset = Some 23\<rparr>"
  using ex_ServeData ex_serve by simp

text \<open>
  C6, amended. \<open>serve\<close> (the HTTP entry point), started with a positive offset, walks
  the consecutive files from the starting one, taking the size of each file it leaves off
  the offset: when the files from the starting one to file \<open>k\<close> exist and the offset is
  larger than the total size of the files before \<open>k\<close> and at most that total plus the size
  of \<open>k\<close>, it replays the header of file \<open>k\<close> and seeks there to the offset less the sizes of
  the files before \<open>k\<close>. Whenever it returns a position, that position is in a file reached
  through existing files only, it is positive and at most the size of that file, and the
  start offset is the position plus the sizes of the files walked over. A start offset
  larger than the total size of the consecutive existing files makes \<open>open\<close> fail on the
  first missing file, before anything is written. \<open>ServeData\<close> (the entry point of the
  streaming pipeline) does not walk: a start offset larger than the size of the starting
  file makes it return without writing anything, and whenever it returns a position the
  file is the starting file.
\<close>

theorem seek_start_offset:
  "(0 < start \<and> fid \<le> k \<and> (\<forall>i. fid \<le> i \<and> i \<le> k \<longrightarrow> map_of dir i \<noteq> None)
        \<and> map_of dir k = Some fk
        \<and> (\<Sum>i = fid..<k. fileSize dir i) < start \<and> start \<le> (\<Sum>i = fid..k. fileSize dir i) \<longrightarrow>
      serve_seek dir fid start
        = injectHeader True fk k (Suc k) (start - (\<Sum>i = fid..<k. fileSize dir i)))
   \<and> (0 < start \<and> serve_seek dir fid start = Inr r \<longrightarrow>
      fid \<le> rs_fileId r
      \<and> (\<forall>j. fid \<le> j \<and> j \<le> rs_fileId r \<longrightarrow> map_of dir j \<noteq> None)
      \<and> start = rs_position r + (\<Sum>j = fid..<rs_fileId r. fileSize dir j)
      \<and> 0 < rs_position r \<and> rs_position r \<le> fileSize dir (rs_fileId r))
   \<and> (0 < start \<and> fid \<le> j \<and> map_of dir j = None
        \<and> (\<forall>i. fid \<le> i \<and> i < j \<longrightarrow> map_of dir i \<noteq> None)
        \<and> (\<Sum>i = fid..<j. fileSize dir i) < start \<longrightarrow>
      serve_seek dir fid start = Inl (OpenFailed j) \<and> errorOutput (OpenFailed j) = [])
   \<and> (map_of dir fid = Some f \<and> int (length f) < start \<longrightarrow>
      ServeData_seek dir fid start = Inl (StartBeyondSize start (int (length f)))
      \<and> errorOutput (StartBeyondSize start (int (length f))) = [])
   \<and> (ServeData_seek dir fid start = Inr r' \<longrightarrow> rs_fileId r' = fid)"
proof -
  have E: "0 < start \<and> fid \<le> k \<and> (\<forall>i. fid \<le> i \<and> i \<le> k \<longrightarrow> map_of dir i \<noteq> None)
        \<and> map_of dir k = Some fk
        \<and> (\<Sum>i = fid..<k. fileSize dir i) < start \<and> start \<le> (\<Sum>i = fid..k. fileSize dir i) \<longrightarrow>
      serve_seek dir fid start
        = injectHeader True fk k (Suc k) (start - (\<Sum>i = fid..<k. fileSize dir i))"
    using serve_seek_reaches [of start fid k dir fk] by blast
  have A: "0 < start \<and> serve_seek dir fid start = Inr r \<longrightarrow>
      fid \<le> rs_fileId r
      \<and> (\<forall>j. fid \<le> j \<and> j \<le> rs_fileId r \<longrightarrow> map_of dir j \<noteq> None)
      \<and> start = rs_position r + (\<Sum>j = fid..<rs_fileId r. fileSize dir j)
      \<and> 0 < rs_position r \<and> rs_position r \<le> fileSize dir (rs_fileId r)"
    using serve_seek_lands [of dir fid start r] by blast
  have B: "0 < start \<and> fid \<le> j \<and> map_of dir j = None
        \<and> (\<forall>i. fid \<le> i \<and> i < j \<longrightarrow> map_of dir i \<noteq> None)
        \<and> (\<Sum>i = fid..<j. fileSize dir i) < start \<longrightarrow>
      serve_seek dir fid start = Inl (OpenFailed j) \<and> errorOutput (OpenFailed j) = []"
    using serve_seek_beyond [of start fid j dir] by simp
  have C: "map_of dir fid = Some f \<and> int (length f) < start \<longrightarrow>
      ServeData_seek dir fid start = Inl (StartBeyondSize start (int (length f)))
      \<and> errorOutput (StartBeyondSize start (int (length f))) = []"
    using ServeData_seek_rejects [of dir fid f start] by simp
  have D: "ServeData_seek dir fid start = Inr r' \<longrightarrow> rs_fileId r' = fid"
    using ServeData_seek_stays [of dir fid start r'] by blast
  show ?thesis by (rule conjI [OF E conjI [OF A conjI [OF B conjI [OF C D]]]])
qed

theorem seek_start_offset_witness:
  "(0::int) < 46
   \<and> map_of exampleDir 1 \<noteq> None \<and> map_of exampleDir 2 = Some exampleBinlog2
   \<and> (\<Sum>i = 1..<2. fileSize exampleDir i) < 46 \<and> 46 \<le> (\<Sum>i = 1..2. fileSize exampleDir i)
   \<and> serve_seek exampleDir 1 46 = injectHeader True exampleBinlog2 2 3 23
   \<and> serve_seek exampleDir 1 46 =
       Inr \<lparr>rs_fileId = 2, rs_nextLog = 3, rs_position = 23,
            rs_written = [254, 98, 105, 110] @ exampleEvent, rs_binlogOffset = Some 23\<rparr>
   \<and> (46::int) = 23 + (\<Sum>j = 1..<2. fileSize exampleDir j)
   \<and> (1::nat) \<le> 3 \<and> map_of exampleDir 3 = None
   \<and> (\<Sum>i = 1..<3. fileSize exampleDir i) < 100
   \<and> serve_seek exampleDir 1 100 = Inl (OpenFailed 3)
   \<and> map_of exampleDir 1 = Some exampleBinlog1 \<and> int (length exampleBinlog1) < 46
   \<and> ServeData_seek exampleDir 1 46 = Inl (StartBeyondSize 46 23)
   \<and> ServeData_seek exampleDir 1 23 =
       Inr \<lparr>rs_fileId = 1, rs_nextLog = 2, rs_position = 23,
            rs_written = [254, 98, 105, 110] @ exampleEvent, rs_binlogOffset = None\<rparr>"
proof -
  let ?r = "\<lparr>rs_fileId = 2, rs_nextLog = 3, rs_position = 23,
            rs_written = [254, 98, 105, 110] @ exampleEvent, rs_binlogOffset = Some (23::int)\<rparr>"
  let ?r' = "\<lparr>rs_fileId = 1, rs_nextLog = 2, rs_position = 23,
            rs_written = [254, 98, 105, 110] @ exampleEvent, rs_binlogOffset = None\<rparr>"
  have m3: "map_of exampleDir 3 = None" by (simp add: exampleDir_def)
  have m1: "map_of exampleDir 1 = Some exampleBinlog1" by (simp add: exampleDir_def)
  have m2: "map_of exampleDir 2 = Some exampleBinlog2" by (simp add: exampleDir_def)
  have all2: "\<forall>i. (1::nat) \<le> i \<and> i \<le> 2 \<longrightarrow> map_of exampleDir i \<noteq> None"
  proof (intro allI impI)
    fix i :: nat assume "1 \<le> i \<and> i \<le> 2"
    then have "i = 1 \<or> i = 2" by auto
    with m1 m2 show "map_of exampleDir i \<noteq> None" by auto
  qed
  have lo: "(\<Sum>i = 1..<2. fileSize exampleDir i) = 23"
    by (simp add: fileSize_def exampleDir_def ex_len numeral_2_eq_2 sum.atLeast_Suc_lessThan)
  have hi: "(\<Sum>i = 1..2. fileSize exampleDir i) = 65"
  proof -
    have "{1..2::nat} = {1..<3}" by auto
    with ex_sum show ?thesis by simp
  qed
  have sd: "ServeData_seek exampleDir 1 23 = Inr ?r'"
    by (simp add: ServeData_seek_def blr_open_def exampleDir_def ex_len ex_first injectHeader_def
        BINLOG_HEADER_SIZE_def Let_def) (simp add: exampleBinlog1_def exampleEvent_def)
  note t1 = seek_start_offset [where start = 46 and dir = exampleDir and fid = 1 and k = 2
      and fk = exampleBinlog2 and r = ?r and j = 3 and f = exampleBinlog1 and r' = ?r']
  note t2 = seek_start_offset [where start = 100 and dir = exampleDir and fid = 1 and k = 2
      and fk = exampleBinlog2 and r = ?r and j = 3 and f = exampleBinlog1 and r' = ?r']
  have h0: "0 < (46::int) \<and> (1::nat) \<le> 2
      \<and> (\<forall>i. (1::nat) \<le> i \<and> i \<le> 2 \<longrightarrow> map_of exampleDir i \<noteq> None)
      \<and> map_of exampleDir 2 = Some exampleBinlog2
      \<and> (\<Sum>i = 1..<2. fileSize exampleDir i) < 46 \<and> 46 \<le> (\<Sum>i = 1..2. fileSize exampleDir i)"
    unfolding lo hi using all2 m2 by simp
  from t1 [THEN conjunct1] h0 have
    "serve_seek exampleDir 1 46
       = injectHeader True exampleBinlog2 2 (Suc 2) (46 - (\<Sum>i = 1..<2. fileSize exampleDir i))"
    by (rule mp)
  then have s0: "serve_seek exampleDir 1 46 = injectHeader True exampleBinlog2 2 3 23"
    unfolding lo by simp
  from t1 [THEN conjunct2, THEN conjunct1] ex_serve
  have s1: "(46::int) = 23 + (\<Sum>j = 1..<2. fileSize exampleDir j)" by simp
  from t2 [THEN conjunct2, THEN conjunct2, THEN conjunct1] m3 ex_all ex_sum
  have s2: "serve_seek exampleDir 1 100 = Inl (OpenFailed 3)" by simp
  from t1 [THEN conjunct2, THEN conjunct2, THEN conjunct2, THEN conjunct1] m1 ex_len
  have s3: "ServeData_seek exampleDir 1 46 = Inl (StartBeyondSize 46 23)" by simp
  have n1: "map_of exampleDir 1 \<noteq> None" using m1 by simp
  have l1: "(\<Sum>i = 1..<2. fileSize exampleDir i) < 46" unfolding lo by simp
  have l2: "46 \<le> (\<Sum>i = 1..2. fileSize exampleDir i)" unfolding hi by simp
  have l3: "(\<Sum>i = 1..<3. fileSize exampleDir i) < 100" unfolding ex_sum by simp
  have l4: "int (length exampleBinlog1) < 46" by (simp add: ex_len)
  show ?thesis
    using n1 m2 l1 l2 s0 ex_serve s1 m3 l3 s2 m1 l4 s3 sd by (intro conjI) simp_all

qed
section \<open>Binlog server: transaction batches\<close>

lemma positioned_fields:
  "positioned pkg e = Inr r \<Longrightarrow>
   coordinates (resp_BinlogPosition r) = coordinates (eb_BinlogPosition e)
   \<and> SqlType r = [] \<and> KeyspaceId r = [] \<and> Sql r = [] \<and> Error r = []"
  by (auto simp: positioned_def Let_def zeroResponse_def split: option.splits)

lemma createBeginEvent_key:
  "createBeginEvent pkg e = Inr r \<Longrightarrow>
   respKey r = (BEGIN, [], coordinates (eb_BinlogPosition e), [])"
  by (auto simp: createBeginEvent_def respKey_def dest!: positioned_fields split: sum.splits)

lemma createCommitEvent_key:
  "createCommitEvent pkg e = Inr r \<Longrightarrow>
   respKey r = (COMMIT, [], coordinates (eb_BinlogPosition e), [])"
  by (auto simp: createCommitEvent_def respKey_def dest!: positioned_fields split: sum.splits)

lemma createDmlEvent_fields:
  "createDmlEvent pkg e s = Inr r \<Longrightarrow>
   SqlType r = GetDmlType (firstKw e) \<and> KeyspaceId r = s
   \<and> coordinates (resp_BinlogPosition r) = coordinates (eb_BinlogPosition e)"
  by (auto simp: createDmlEvent_def Let_def dest!: positioned_fields split: sum.splits if_splits)

lemma createDmlEvent_key:
  "createDmlEvent pkg e s = Inr r \<Longrightarrow>
   respKey (r\<lparr>Sql := buf @ [LogLine e]\<rparr>)
     = (GetDmlType (firstKw e), s, coordinates (eb_BinlogPosition e), LogLine e)"
  using createDmlEvent_fields [of pkg e s r] by (simp add: respKey_def)

lemma loop_mids:
  "\<forall>e \<in> set mids. \<not> isBegin e \<and> \<not> isCommit e \<Longrightarrow>
   buildTxnResponse_loop pkg kr (mids @ rest) acc n buf = Inr (resps, n') \<Longrightarrow>
   \<exists>dmls buf'. buildTxnResponse_loop pkg kr rest (acc @ dmls) (n + int (length dmls)) buf'
                  = Inr (resps, n')
     \<and> map respKey dmls = map (dmlKey pkg) (filter (dmlInRange pkg kr) mids)"
proof (induction mids arbitrary: acc n buf)
  case Nil
  then show ?case by (intro exI [of _ "[]"] exI [of _ buf]) simp
next
  case (Cons e mids)
  from Cons.prems(1) have nb: "\<not> HasPrefix (LogLine e) BINLOG_BEGIN" "\<not> HasPrefix (LogLine e) BINLOG_COMMIT"
    and rest: "\<forall>x \<in> set mids. \<not> isBegin x \<and> \<not> isCommit x"
    by (simp_all add: isBegin_def isCommit_def)
  show ?case
  proof (cases "GetSqlType (firstKw e) = DML")
    case False
    with nb Cons.prems(2) have
      "buildTxnResponse_loop pkg kr (mids @ rest) acc n (buf @ [LogLine e]) = Inr (resps, n')"
      by (simp add: Let_def)
    from Cons.IH [OF rest this] False show ?thesis by (simp add: dmlInRange_def)
  next
    case True
    show ?thesis
    proof (cases "parseKeyspaceId pkg (LogLine e) (GetDmlType (firstKw e))")
      case (Inl p)
      with nb True Cons.prems(2) show ?thesis by (simp add: Let_def)
    next
      case (Inr sk)
      obtain s k where sk: "sk = (s, k)" by (cases sk) auto
      show ?thesis
      proof (cases "s = []")
        case True
        with nb \<open>GetSqlType (firstKw e) = DML\<close> Inr sk Cons.prems(2) have
          "buildTxnResponse_loop pkg kr (mids @ rest) acc n buf = Inr (resps, n')"
          by (simp add: Let_def)
        from Cons.IH [OF rest this] True Inr sk show ?thesis
          by (simp add: dmlInRange_def extractedId_def)
      next
        case False
        note sne = False
        show ?thesis
        proof (cases "KeyRange_Contains pkg kr k")
          case False
          with nb \<open>GetSqlType (firstKw e) = DML\<close> Inr sk sne Cons.prems(2) have
            "buildTxnResponse_loop pkg kr (mids @ rest) acc n [] = Inr (resps, n')"
            by (simp add: Let_def)
          from Cons.IH [OF rest this] False sne Inr sk show ?thesis
            by (simp add: dmlInRange_def extractedId_def)
        next
          case True
          show ?thesis
          proof (cases "createDmlEvent pkg e s")
            case (Inl p)
            with nb \<open>GetSqlType (firstKw e) = DML\<close> Inr sk sne True Cons.prems(2) show ?thesis
              by (simp add: Let_def)
          next
            case (Inr d)
            let ?d = "d\<lparr>Sql := buf @ [LogLine e]\<rparr>"
            from nb \<open>GetSqlType (firstKw e) = DML\<close> \<open>parseKeyspaceId pkg (LogLine e) (GetDmlType (firstKw e)) = Inr sk\<close>
              sk sne True Inr Cons.prems(2) have
              run: "buildTxnResponse_loop pkg kr (mids @ rest) (acc @ [?d]) (n + 1) [] = Inr (resps, n')"
              by (simp add: Let_def)
            from Cons.IH [OF rest run] obtain dmls buf' where
              d: "buildTxnResponse_loop pkg kr rest ((acc @ [?d]) @ dmls) (n + 1 + int (length dmls)) buf'
                    = Inr (resps, n')"
                "map respKey dmls = map (dmlKey pkg) (filter (dmlInRange pkg kr) mids)"
              by blast
            have key: "respKey ?d = dmlKey pkg e"
              using createDmlEvent_key [OF Inr, of buf]
                \<open>parseKeyspaceId pkg (LogLine e) (GetDmlType (firstKw e)) = Inr sk\<close> sk sne
              by (simp add: dmlKey_def extractedId_def)
            have inr: "dmlInRange pkg kr e"
              using \<open>GetSqlType (firstKw e) = DML\<close>
                \<open>parseKeyspaceId pkg (LogLine e) (GetDmlType (firstKw e)) = Inr sk\<close> sk sne True
              by (simp add: dmlInRange_def extractedId_def)
            have "buildTxnResponse_loop pkg kr rest (acc @ (?d # dmls)) (n + int (length (?d # dmls))) buf'
                    = Inr (resps, n')"
            proof -
              have "n + 1 + int (length dmls) = n + int (length (?d # dmls))" by simp
              with d(1) show ?thesis by simp
            qed
            moreover have "map respKey (?d # dmls) = map (dmlKey pkg) (filter (dmlInRange pkg kr) (e # mids))"
              using d(2) key inr by simp
            ultimately show ?thesis by blast
          qed
        qed
      qed
    qed
  qed
qed

lemma commit_not_begin: "isCommit e \<Longrightarrow> \<not> isBegin e"
  by (auto simp: isCommit_def isBegin_def HasPrefix_def BINLOG_COMMIT_def BINLOG_BEGIN_def
      intro: notI dest!: arg_cong [where f = hd])

lemma DML_kw: "GetSqlType kw = DML \<Longrightarrow> GetDmlType kw = kw \<and> kw \<in> dmlTypes"
  by (auto simp: GetSqlType_def GetDmlType_def sqlKwMap_def DML_def DDL_def BEGIN_def COMMIT_def
      dmlTypes_def split: if_splits option.splits)

lemma buildTxnResponse_txn:
  assumes buf: "txnLineBuffer blp = b # mids @ [c]"
    and b: "isBegin b" and c: "isCommit c"
    and mids: "\<forall>e \<in> set mids. \<not> isBegin e \<and> \<not> isCommit e"
    and run: "buildTxnResponse pkg blp = Inr (resps, n)"
  shows "map respKey resps
           = (BEGIN, [], coordinates (eb_BinlogPosition b), [])
             # map (dmlKey pkg) (filter (dmlInRange pkg (keyspaceRange blp)) mids)
             @ [(COMMIT, [], coordinates (eb_BinlogPosition c), [])]
       \<and> n = int (length (filter (dmlInRange pkg (keyspaceRange blp)) mids))"
proof -
  let ?kr = "keyspaceRange blp"
  from run buf have r0: "buildTxnResponse_loop pkg ?kr (b # mids @ [c]) [] 0 [] = Inr (resps, n)"
    by (simp add: buildTxnResponse_def)
  from b have hb: "HasPrefix (LogLine b) BINLOG_BEGIN" by (simp add: isBegin_def)
  from r0 hb obtain rb where rb: "createBeginEvent pkg b = Inr rb"
    and r1: "buildTxnResponse_loop pkg ?kr (mids @ [c]) [rb] 0 [] = Inr (resps, n)"
    by (auto simp: Let_def split: sum.splits)
  from loop_mids [OF mids r1] obtain dmls buf' where
    r2: "buildTxnResponse_loop pkg ?kr [c] ([rb] @ dmls) (0 + int (length dmls)) buf' = Inr (resps, n)"
    and k: "map respKey dmls = map (dmlKey pkg) (filter (dmlInRange pkg ?kr) mids)"
    by blast
  from c have hc: "HasPrefix (LogLine c) BINLOG_COMMIT" by (simp add: isCommit_def)
  from commit_not_begin [OF c] have nb: "\<not> HasPrefix (LogLine c) BINLOG_BEGIN" by (simp add: isBegin_def)
  from r2 hc nb obtain rc where rc: "createCommitEvent pkg c = Inr rc"
    and r3: "resps = ([rb] @ dmls) @ [rc]" "n = int (length dmls)"
    by (auto simp: Let_def split: sum.splits)
  have "length dmls = length (filter (dmlInRange pkg ?kr) mids)"
    using k by (metis length_map)
  with r3 k createBeginEvent_key [OF rb] createCommitEvent_key [OF rc] show ?thesis by simp
qed

lemma dml_keys_types:
  assumes "map respKey dmls = map (dmlKey pkg) (filter (dmlInRange pkg kr) mids)"
  shows "list_all (\<lambda>m. SqlType m \<in> dmlTypes) dmls"
proof -
  have "SqlType m \<in> dmlTypes" if m: "m \<in> set dmls" for m
  proof -
    from m have "respKey m \<in> set (map respKey dmls)" by simp
    with assms obtain e where e: "e \<in> set (filter (dmlInRange pkg kr) mids)" "respKey m = dmlKey pkg e"
      by auto
    from e(1) have "GetSqlType (firstKw e) = DML" by (simp add: dmlInRange_def)
    from DML_kw [OF this] e(2) show ?thesis by (simp add: respKey_def dmlKey_def)
  qed
  then show ?thesis by (simp add: list_all_iff)
qed

lemma prefix_excl:
  "HasPrefix l BINLOG_SET_TIMESTAMP \<Longrightarrow> \<not> HasPrefix l BINLOG_BEGIN \<and> \<not> HasPrefix l BINLOG_COMMIT \<and> \<not> HasPrefix l BINLOG_ROLLBACK"
  "HasPrefix l BINLOG_ROLLBACK \<Longrightarrow> \<not> HasPrefix l BINLOG_BEGIN \<and> \<not> HasPrefix l BINLOG_SET_TIMESTAMP"
  by (cases l; simp add: HasPrefix_def BINLOG_SET_TIMESTAMP_def BINLOG_BEGIN_def BINLOG_COMMIT_def BINLOG_ROLLBACK_def)+

lemma txnBatch_keys:
  assumes k: "map respKey batch = (BEGIN, [], cb, []) # map (dmlKey pkg) (filter (dmlInRange pkg kr) mids) @ [(COMMIT, [], cc, [])]"
  shows "txnBatch batch"
proof -
  let ?ds = "filter (dmlInRange pkg kr) mids"
  have t: "map SqlType batch = BEGIN # map (\<lambda>e. GetDmlType (firstKw e)) ?ds @ [COMMIT]"
  proof -
    have "map SqlType batch = map fst (map respKey batch)" by (simp add: respKey_def comp_def)
    also have "\<dots> = BEGIN # map (\<lambda>e. GetDmlType (firstKw e)) ?ds @ [COMMIT]"
      unfolding k by (simp add: dmlKey_def comp_def)
    finally show ?thesis .
  qed
  have nb: "GetDmlType (firstKw e) \<noteq> BEGIN" if "e \<in> set ?ds" for e
  proof -
    from that have "GetSqlType (firstKw e) = DML" by (simp add: dmlInRange_def)
    from DML_kw [OF this] show ?thesis by (auto simp: dmlTypes_def BEGIN_def)
  qed
  have ne: "batch \<noteq> []" using t by auto
  have h: "SqlType (hd batch) = BEGIN" using t ne by (metis hd_map list.sel(1))
  have l: "SqlType (last batch) = COMMIT" using t ne by (metis last_map last_snoc last_ConsR snoc_eq_iff_butlast append_Cons)
  have "length (filter (\<lambda>r. SqlType r = BEGIN) batch) = length (filter (\<lambda>s. s = BEGIN) (map SqlType batch))"
    by (simp add: filter_map comp_def)
  also have "\<dots> = 1" unfolding t using nb by (simp add: filter_map comp_def COMMIT_def BEGIN_def) 
  finally show ?thesis using ne h l by (simp add: txnBatch_def)
qed

lemma handleCommitEvent_nomatch:
  "\<not> dbmatch blp \<Longrightarrow> handleCommitEvent pkg blp c = (blp, None)"
  by (simp add: handleCommitEvent_def)

lemma handleCommitEvent_unfold:
  "dbmatch blp \<Longrightarrow> handleCommitEvent pkg blp c =
     (case buildTxnResponse pkg (blp\<lparr>txnLineBuffer := txnLineBuffer blp @ [withXid blp c]\<rparr>) of
        Inl p \<Rightarrow> (blp\<lparr>txnLineBuffer := txnLineBuffer blp @ [withXid blp c]\<rparr>, Some p)
      | Inr (rs, n) \<Rightarrow>
          if n = 0 then (blp\<lparr>txnLineBuffer := txnLineBuffer blp @ [withXid blp c], responseStream := rs\<rparr>, None)
          else if sleepToThrottle blp > 0
          then (blp\<lparr>txnLineBuffer := txnLineBuffer blp @ [withXid blp c], responseStream := rs,
                  sent := sent blp @ [rs], slept := slept blp @ [sleepToThrottle blp]\<rparr>, None)
          else (blp\<lparr>txnLineBuffer := txnLineBuffer blp @ [withXid blp c], responseStream := rs,
                  sent := sent blp @ [rs]\<rparr>, None))"
  by (simp add: handleCommitEvent_def Let_def sendStream_def withXid_def split: sum.splits prod.splits)

lemma handleCommitEvent_panic:
  "handleCommitEvent pkg blp c = (blp', Some p) \<Longrightarrow> sent blp' = sent blp"
proof (cases "dbmatch blp")
  case False
  assume "handleCommitEvent pkg blp c = (blp', Some p)"
  with False show ?thesis by (simp add: handleCommitEvent_def)
next
  case True
  assume r: "handleCommitEvent pkg blp c = (blp', Some p)"
  show ?thesis
  proof (cases "buildTxnResponse pkg (blp\<lparr>txnLineBuffer := txnLineBuffer blp @ [withXid blp c]\<rparr>)")
    case (Inl q)
    with r True have "blp' = blp\<lparr>txnLineBuffer := txnLineBuffer blp @ [withXid blp c]\<rparr>"
      by (simp add: handleCommitEvent_unfold)
    then show ?thesis by simp
  next
    case (Inr x)
    obtain rs n where "x = (rs, n)" by (cases x) auto
    with Inr r True show ?thesis by (simp add: handleCommitEvent_unfold split: if_splits)
  qed
qed

lemma handleCommitEvent_built:
  assumes db: "dbmatch blp" and run: "handleCommitEvent pkg blp c = (blp', None)"
  shows "\<exists>n. buildTxnResponse pkg (blp\<lparr>txnLineBuffer := txnLineBuffer blp @ [withXid blp c]\<rparr>)
               = Inr (responseStream blp', n)
             \<and> sent blp' = (if n = 0 then sent blp else sent blp @ [responseStream blp'])"
proof (cases "buildTxnResponse pkg (blp\<lparr>txnLineBuffer := txnLineBuffer blp @ [withXid blp c]\<rparr>)")
  case (Inl q)
  with run db show ?thesis by (simp add: handleCommitEvent_unfold)
next
  case (Inr x)
  obtain rs n where x: "x = (rs, n)" by (cases x) auto
  from Inr x run db have "responseStream blp' = rs
      \<and> sent blp' = (if n = 0 then sent blp else sent blp @ [rs])"
    by (auto simp: handleCommitEvent_unfold split: if_splits)
  with Inr x show ?thesis by simp
qed

lemma handleCommitEvent_txn:
  assumes buf: "txnLineBuffer blp = b # mids" and b: "isBegin b" and c: "isCommit c"
    and mids: "\<forall>e \<in> set mids. \<not> isBegin e \<and> \<not> isCommit e"
    and db: "dbmatch blp" and run: "handleCommitEvent pkg blp c = (blp', None)"
  shows "map respKey (responseStream blp')
           = (BEGIN, [], coordinates (eb_BinlogPosition b), [])
             # map (dmlKey pkg) (filter (dmlInRange pkg (keyspaceRange blp)) mids)
             @ [(COMMIT, [], coordinates (eb_BinlogPosition c), [])]
       \<and> sent blp' = (if filter (dmlInRange pkg (keyspaceRange blp)) mids = [] then sent blp
                      else sent blp @ [responseStream blp'])"
proof -
  let ?blp = "blp\<lparr>txnLineBuffer := txnLineBuffer blp @ [withXid blp c]\<rparr>"
  from handleCommitEvent_built [OF db run] obtain n where
    n: "buildTxnResponse pkg ?blp = Inr (responseStream blp', n)"
      "sent blp' = (if n = 0 then sent blp else sent blp @ [responseStream blp'])" by blast
  have buf': "txnLineBuffer ?blp = b # mids @ [withXid blp c]" using buf by simp
  have c': "isCommit (withXid blp c)" using c by (simp add: isCommit_def withXid_def)
  have kr: "keyspaceRange ?blp = keyspaceRange blp" by simp
  have co: "coordinates (eb_BinlogPosition (withXid blp c)) = coordinates (eb_BinlogPosition c)"
    by (simp add: withXid_def)
  from buildTxnResponse_txn [OF buf' b c' mids n(1)] n(2) show ?thesis
    unfolding kr co by simp
qed

lemma handleCommitEvent_notxn:
  assumes buf: "txnLineBuffer blp = []" and c: "isCommit c"
    and run: "handleCommitEvent pkg blp c = (blp', p)"
  shows "sent blp' = sent blp"
proof (cases "dbmatch blp")
  case False
  with run show ?thesis by (simp add: handleCommitEvent_def)
next
  case True
  show ?thesis
  proof (cases p)
    case (Some q)
    with run handleCommitEvent_panic show ?thesis by blast
  next
    case None
    let ?c = "withXid blp c"
    from handleCommitEvent_built [OF True] run None obtain n where
      n: "buildTxnResponse pkg (blp\<lparr>txnLineBuffer := txnLineBuffer blp @ [?c]\<rparr>) = Inr (responseStream blp', n)"
      "sent blp' = (if n = 0 then sent blp else sent blp @ [responseStream blp'])" by blast
    from c have c': "isCommit ?c" by (simp add: isCommit_def withXid_def)
    then have hc: "HasPrefix (LogLine ?c) BINLOG_COMMIT" by (simp add: isCommit_def)
    from commit_not_begin [OF c'] have nb: "\<not> HasPrefix (LogLine ?c) BINLOG_BEGIN" by (simp add: isBegin_def)
    from n(1) buf have "buildTxnResponse_loop pkg (keyspaceRange blp) [?c] [] 0 [] = Inr (responseStream blp', n)"
      by (simp add: buildTxnResponse_def)
    with hc nb have "n = 0" by (auto simp: Let_def split: sum.splits)
    with n(2) show ?thesis by simp
  qed
qed

lemma txnInv_buffer:
  "txnInv blp \<Longrightarrow> inTxn blp \<Longrightarrow>
   \<exists>b mids. txnLineBuffer blp = b # mids \<and> isBegin b \<and> (\<forall>e \<in> set mids. \<not> isBegin e \<and> \<not> isCommit e)"
  by (cases "txnLineBuffer blp") (auto simp: txnInv_def list_all_iff)

lemma handleCommitEvent_sentOK:
  assumes inv: "txnInv blp" and ok: "sentOK blp" and c: "isCommit c"
    and run: "handleCommitEvent pkg blp c = (blp', p)"
  shows "sentOK blp'"
proof (cases p)
  case (Some q)
  with run handleCommitEvent_panic have "sent blp' = sent blp" by blast
  with ok show ?thesis by (simp add: sentOK_def)
next
  case None
  show ?thesis
  proof (cases "inTxn blp \<and> dbmatch blp")
    case False
    have "sent blp' = sent blp"
    proof (cases "dbmatch blp")
      case False
      with run show ?thesis by (simp add: handleCommitEvent_def)
    next
      case True
      with \<open>\<not> (inTxn blp \<and> dbmatch blp)\<close> inv have "txnLineBuffer blp = []" by (simp add: txnInv_def)
      from handleCommitEvent_notxn [OF this c run] show ?thesis .
    qed
    with ok show ?thesis by (simp add: sentOK_def)
  next
    case True
    with txnInv_buffer [OF inv] obtain b mids where
      bm: "txnLineBuffer blp = b # mids" "isBegin b" "\<forall>e \<in> set mids. \<not> isBegin e \<and> \<not> isCommit e"
      by blast
    from True have db: "dbmatch blp" by simp
    from run None have run': "handleCommitEvent pkg blp c = (blp', None)" by simp
    from handleCommitEvent_txn [OF bm(1,2) c bm(3) db run'] have
      k: "map respKey (responseStream blp')
           = (BEGIN, [], coordinates (eb_BinlogPosition b), [])
             # map (dmlKey pkg) (filter (dmlInRange pkg (keyspaceRange blp)) mids)
             @ [(COMMIT, [], coordinates (eb_BinlogPosition c), [])]"
      and s: "sent blp' = (if filter (dmlInRange pkg (keyspaceRange blp)) mids = [] then sent blp
                      else sent blp @ [responseStream blp'])" by blast+
    from txnBatch_keys [OF k] have "txnBatch (responseStream blp')" .
    with s ok show ?thesis by (simp add: sentOK_def)
  qed
qed

lemma sameTxn_refl: "sameTxn blp blp" by (simp add: sameTxn_def)

lemma sameTxn_trans: "sameTxn a b \<Longrightarrow> sameTxn b c \<Longrightarrow> sameTxn a c" by (simp add: sameTxn_def)

lemma parseXid_same: "sameTxn blp (fst (parseXid blp line))"
  by (simp add: parseXid_def sameTxn_def split: option.splits)

lemma xidPart_same: "sameTxn blp (fst (xidPart blp line))"
  by (simp add: xidPart_def parseXid_same sameTxn_refl)

lemma parseMasterPosition_same: "sameTxn blp (fst (parseMasterPosition blp line))"
  by (simp add: parseMasterPosition_def sameTxn_def split: option.splits)

lemma parseRotateEvent_same: "sameTxn blp (fst (parseRotateEvent pkg blp line))"
  by (simp add: parseRotateEvent_def setMaster_def sameTxn_def Let_def split: option.splits prod.splits)

lemma andThen_same:
  assumes "sameTxn blp (fst r)" and "\<And>b. sameTxn b (fst (f b))"
  shows "sameTxn blp (fst (andThen r f))"
proof (cases r)
  case (Pair b p)
  with assms show ?thesis
    by (cases p) (auto simp: andThen_def intro: sameTxn_trans)
qed

lemma parsePositionData_same: "sameTxn blp (fst (parsePositionData pkg blp line))"
proof -
  have m: "sameTxn b (fst (xidPart
                        (if 0 < nextStmtPosition b
                         then b\<lparr>currentPosition := (currentPosition b)\<lparr>coordinates :=
                                (coordinates (currentPosition b))
                                  \<lparr>MasterPosition := nextStmtPosition b\<rparr>\<rparr>\<rparr>
                         else b) line))" for b
  proof -
    let ?b = "(if 0 < nextStmtPosition b
                         then b\<lparr>currentPosition := (currentPosition b)\<lparr>coordinates :=
                                (coordinates (currentPosition b))
                                  \<lparr>MasterPosition := nextStmtPosition b\<rparr>\<rparr>\<rparr>
                         else b)"
    have "sameTxn b ?b" by (simp add: sameTxn_def)
    from sameTxn_trans [OF this xidPart_same] show ?thesis .
  qed
  show ?thesis
    unfolding parsePositionData_def
    by (simp add: sameTxn_refl xidPart_same andThen_same [OF parseRotateEvent_same xidPart_same]
        andThen_same [OF parseMasterPosition_same m])
qed

lemma parseDbChange_same: "sameTxn blp (fst (parseDbChange pkg dbname blp event))"
  by (simp add: parseDbChange_def sameTxn_def Let_def split: option.splits)

lemma sameTxn_inv: "sameTxn blp blp' \<Longrightarrow> txnInv blp \<Longrightarrow> txnInv blp'"
  by (simp add: sameTxn_def txnInv_def)

lemma sameTxn_sentOK: "sameTxn blp blp' \<Longrightarrow> sentOK blp \<Longrightarrow> sentOK blp'"
  by (simp add: sameTxn_def sentOK_def)

lemma txnInv_append:
  "txnInv blp \<Longrightarrow> inTxn blp \<Longrightarrow> \<not> isBegin e \<Longrightarrow> \<not> isCommit e \<Longrightarrow>
   txnInv (blp\<lparr>txnLineBuffer := txnLineBuffer blp @ [e]\<rparr>)"
  by (cases "txnLineBuffer blp") (simp_all add: txnInv_def)

lemma extractEventTimestamp_ok:
  "extractEventTimestamp blp event = ((blp', event'), None) \<Longrightarrow>
   sameTxn blp blp' \<and> LogLine event' = LogLine event \<and> firstKw event' = firstKw event
   \<and> coordinates (eb_BinlogPosition event') = coordinates (eb_BinlogPosition event)
   \<and> coordinates (currentPosition blp') = coordinates (currentPosition blp)"
  by (auto simp: extractEventTimestamp_def Let_def sameTxn_def split: if_splits option.splits)

lemma extractEventTimestamp_panic:
  "extractEventTimestamp blp event = ((blp', event'), Some p) \<Longrightarrow> blp' = blp"
  by (auto simp: extractEventTimestamp_def Let_def split: if_splits option.splits)

lemma handleDdlEvent_sent:
  "handleDdlEvent pkg blp e = (blp', p) \<Longrightarrow>
   (blp' = blp \<and> p \<noteq> None) \<or>
   (\<exists>r. createDdlStream pkg e = Inr r \<and> blp' = blp\<lparr>sent := sent blp @ [[r]]\<rparr> \<and> p = None)"
  by (auto simp: handleDdlEvent_def sendStream_def split: sum.splits)

lemma createDdlStream_type: "createDdlStream pkg e = Inr r \<Longrightarrow> SqlType r = DDL"
  by (auto simp: createDdlStream_def split: sum.splits)

lemma parseEventData_timestamp:
  assumes ts: "HasPrefix (LogLine e) BINLOG_SET_TIMESTAMP"
    and run: "parseEventData pkg blp e = (blp', p)"
  shows "(p \<noteq> None \<and> blp' = blp) \<or>
         (p = None \<and> (\<exists>b ev. sameTxn blp b \<and> LogLine ev = LogLine e
            \<and> coordinates (eb_BinlogPosition ev) = coordinates (eb_BinlogPosition e)
            \<and> coordinates (currentPosition b) = coordinates (currentPosition blp)
            \<and> blp' = (if inTxn blp then b\<lparr>txnLineBuffer := txnLineBuffer blp @ [ev]\<rparr> else b)))"
proof -
  obtain b ev q where x: "extractEventTimestamp blp e = ((b, ev), q)"
    by (metis prod.exhaust)
  show ?thesis
  proof (cases q)
    case (Some r)
    with x extractEventTimestamp_panic have "b = blp" by blast
    with x Some ts run have "p = Some r" "blp' = blp" by (auto simp: parseEventData_def)
    then show ?thesis by simp
  next
    case None
    with x extractEventTimestamp_ok have ok: "sameTxn blp b" "LogLine ev = LogLine e"
      "coordinates (eb_BinlogPosition ev) = coordinates (eb_BinlogPosition e)"
      "coordinates (currentPosition b) = coordinates (currentPosition blp)" by blast+
    let ?b = "b\<lparr>initialSeek := False\<rparr>"
    have s: "sameTxn blp ?b" using ok(1) by (simp add: sameTxn_def)
    have c: "coordinates (currentPosition ?b) = coordinates (currentPosition blp)" using ok(4) by simp
    have i: "inTxn b = inTxn blp" "txnLineBuffer b = txnLineBuffer blp" using ok(1) by (simp_all add: sameTxn_def)
    from x None ts run i have "p = None"
      "blp' = (if inTxn blp then ?b\<lparr>txnLineBuffer := txnLineBuffer blp @ [ev]\<rparr> else ?b)"
      by (auto simp: parseEventData_def Let_def)
    with s ok(2,3) c show ?thesis by blast
  qed
qed

lemma parseEventData_begin:
  assumes "\<not> HasPrefix (LogLine e) BINLOG_SET_TIMESTAMP" "HasPrefix (LogLine e) BINLOG_BEGIN"
  shows "parseEventData pkg blp e = handleBeginEvent blp e"
  using assms by (simp add: parseEventData_def)

lemma parseEventData_rollback:
  assumes "HasPrefix (LogLine e) BINLOG_ROLLBACK"
  shows "parseEventData pkg blp e = (blp\<lparr>inTxn := False, txnLineBuffer := []\<rparr>, None)"
  using assms prefix_excl(2) [OF assms] by (simp add: parseEventData_def endTxn_def)

lemma parseEventData_commit:
  assumes "\<not> HasPrefix (LogLine e) BINLOG_SET_TIMESTAMP" "\<not> HasPrefix (LogLine e) BINLOG_BEGIN"
    "\<not> HasPrefix (LogLine e) BINLOG_ROLLBACK" "HasPrefix (LogLine e) BINLOG_COMMIT"
  shows "parseEventData pkg blp e = andThen (handleCommitEvent pkg blp e) endTxn"
  using assms by (simp add: parseEventData_def)

lemma parseEventData_other:
  assumes "\<not> HasPrefix (LogLine e) BINLOG_SET_TIMESTAMP" "\<not> HasPrefix (LogLine e) BINLOG_BEGIN"
    "\<not> HasPrefix (LogLine e) BINLOG_ROLLBACK" "\<not> HasPrefix (LogLine e) BINLOG_COMMIT"
  shows "parseEventData pkg blp e =
     (if LogLine e = [] then (blp, None)
      else if inTxn blp \<and> IsTxnStatement pkg (LogLine e) (firstKw e)
      then (blp\<lparr>txnLineBuffer := txnLineBuffer blp @ [e]\<rparr>, None)
      else if GetSqlType (firstKw e) = DDL then handleDdlEvent pkg blp e
      else if GetSqlType (firstKw e) = DML then (blp, Some (DmlOutsideTxn (LogLine e)))
      else (blp, None))"
  using assms by (simp add: parseEventData_def Let_def)

lemma parseEventData_inv:
  assumes inv: "txnInv blp" and run: "parseEventData pkg blp e = (blp', None)"
  shows "txnInv blp'"
proof -
  consider (ts) "HasPrefix (LogLine e) BINLOG_SET_TIMESTAMP"
    | (bg) "\<not> HasPrefix (LogLine e) BINLOG_SET_TIMESTAMP" "HasPrefix (LogLine e) BINLOG_BEGIN"
    | (rb) "HasPrefix (LogLine e) BINLOG_ROLLBACK"
    | (cm) "\<not> HasPrefix (LogLine e) BINLOG_SET_TIMESTAMP" "\<not> HasPrefix (LogLine e) BINLOG_BEGIN"
        "\<not> HasPrefix (LogLine e) BINLOG_ROLLBACK" "HasPrefix (LogLine e) BINLOG_COMMIT"
    | (ot) "\<not> HasPrefix (LogLine e) BINLOG_SET_TIMESTAMP" "\<not> HasPrefix (LogLine e) BINLOG_BEGIN"
        "\<not> HasPrefix (LogLine e) BINLOG_ROLLBACK" "\<not> HasPrefix (LogLine e) BINLOG_COMMIT"
    by blast
  then show ?thesis
  proof cases
    case ts
    from parseEventData_timestamp [OF ts run] obtain b ev where
      b: "sameTxn blp b" "LogLine ev = LogLine e"
         "blp' = (if inTxn blp then b\<lparr>txnLineBuffer := txnLineBuffer blp @ [ev]\<rparr> else b)"
      by auto
    from sameTxn_inv [OF b(1) inv] have ib: "txnInv b" .
    show ?thesis
    proof (cases "inTxn blp")
      case False
      with b(3) ib show ?thesis by simp
    next
      case True
      from b(1) True have tb: "inTxn b" "txnLineBuffer blp = txnLineBuffer b" by (simp_all add: sameTxn_def)
      from prefix_excl(1) [OF ts] b(2) have "\<not> isBegin ev" "\<not> isCommit ev"
        by (simp_all add: isBegin_def isCommit_def)
      from txnInv_append [OF ib tb(1) this] b(3) True tb(2) show ?thesis by simp
    qed
  next
    case bg
    from run parseEventData_begin [OF bg] have "handleBeginEvent blp e = (blp', None)" by simp
    then have "blp' = blp\<lparr>txnLineBuffer := [e], inTxn := True\<rparr>"
      by (auto simp: handleBeginEvent_def split: if_splits)
    with bg(2) show ?thesis by (simp add: txnInv_def isBegin_def)
  next
    case rb
    from run parseEventData_rollback [OF rb] show ?thesis by (auto simp: txnInv_def)
  next
    case cm
    from run parseEventData_commit [OF cm] have "andThen (handleCommitEvent pkg blp e) endTxn = (blp', None)"
      by simp
    then obtain b where "endTxn b = (blp', None)"
      by (cases "handleCommitEvent pkg blp e") (auto simp: andThen_def split: option.splits)
    then show ?thesis by (auto simp: endTxn_def txnInv_def)
  next
    case ot
    note pe = parseEventData_other [OF ot, of pkg blp]
    show ?thesis
    proof (cases "LogLine e \<noteq> [] \<and> inTxn blp \<and> IsTxnStatement pkg (LogLine e) (firstKw e)")
      case True
      with pe run have b: "blp' = blp\<lparr>txnLineBuffer := txnLineBuffer blp @ [e]\<rparr>" by simp
      from ot have "\<not> isBegin e" "\<not> isCommit e" by (simp_all add: isBegin_def isCommit_def)
      from txnInv_append [OF inv _ this] True b show ?thesis by simp
    next
      case False
      show ?thesis
      proof (cases "LogLine e \<noteq> [] \<and> GetSqlType (firstKw e) = DDL")
        case True
        with False pe run have "handleDdlEvent pkg blp e = (blp', None)" by auto
        from handleDdlEvent_sent [OF this] obtain r where "blp' = blp\<lparr>sent := sent blp @ [[r]]\<rparr>" by auto
        with inv show ?thesis by (simp add: txnInv_def)
      next
        case False
        with \<open>\<not> (LogLine e \<noteq> [] \<and> inTxn blp \<and> IsTxnStatement pkg (LogLine e) (firstKw e))\<close> pe run
        have "blp' = blp" by (auto split: if_splits)
        with inv show ?thesis by simp
      qed
    qed
  qed
qed

lemma parseEventData_sentOK:
  assumes inv: "txnInv blp" and ok: "sentOK blp" and run: "parseEventData pkg blp e = (blp', p)"
  shows "sentOK blp' \<and> keyspaceRange blp' = keyspaceRange blp"
proof -
  consider (ts) "HasPrefix (LogLine e) BINLOG_SET_TIMESTAMP"
    | (bg) "\<not> HasPrefix (LogLine e) BINLOG_SET_TIMESTAMP" "HasPrefix (LogLine e) BINLOG_BEGIN"
    | (rb) "HasPrefix (LogLine e) BINLOG_ROLLBACK"
    | (cm) "\<not> HasPrefix (LogLine e) BINLOG_SET_TIMESTAMP" "\<not> HasPrefix (LogLine e) BINLOG_BEGIN"
        "\<not> HasPrefix (LogLine e) BINLOG_ROLLBACK" "HasPrefix (LogLine e) BINLOG_COMMIT"
    | (ot) "\<not> HasPrefix (LogLine e) BINLOG_SET_TIMESTAMP" "\<not> HasPrefix (LogLine e) BINLOG_BEGIN"
        "\<not> HasPrefix (LogLine e) BINLOG_ROLLBACK" "\<not> HasPrefix (LogLine e) BINLOG_COMMIT"
    by blast
  then show ?thesis
  proof cases
    case ts
    from parseEventData_timestamp [OF ts run] ok show ?thesis
      by (auto simp: sameTxn_def sentOK_def)
  next
    case bg
    from run parseEventData_begin [OF bg] have "handleBeginEvent blp e = (blp', p)" by simp
    then have "blp' = blp \<or> blp' = blp\<lparr>txnLineBuffer := [e], inTxn := True\<rparr>"
      by (auto simp: handleBeginEvent_def split: if_splits)
    with ok show ?thesis by (auto simp: sentOK_def)
  next
    case rb
    from run parseEventData_rollback [OF rb] ok show ?thesis by (auto simp: sentOK_def)
  next
    case cm
    obtain b q where h: "handleCommitEvent pkg blp e = (b, q)" by (metis prod.exhaust)
    from cm(4) have c: "isCommit e" by (simp add: isCommit_def)
    from handleCommitEvent_sentOK [OF inv ok c h] have okb: "sentOK b" .
    have krb: "keyspaceRange b = keyspaceRange blp"
    proof (cases "dbmatch blp")
      case False
      with h show ?thesis by (simp add: handleCommitEvent_def)
    next
      case True
      with h show ?thesis
        by (auto simp: handleCommitEvent_unfold split: sum.splits if_splits)
    qed
    from run parseEventData_commit [OF cm] h have "blp' = b \<or> blp' = b\<lparr>inTxn := False, txnLineBuffer := []\<rparr>"
      by (cases q) (auto simp: andThen_def endTxn_def)
    with okb krb show ?thesis by (auto simp: sentOK_def)
  next
    case ot
    note pe = parseEventData_other [OF ot, of pkg blp]
    show ?thesis
    proof (cases "LogLine e \<noteq> [] \<and> \<not> (inTxn blp \<and> IsTxnStatement pkg (LogLine e) (firstKw e))
                   \<and> GetSqlType (firstKw e) = DDL")
      case True
      with pe run have "handleDdlEvent pkg blp e = (blp', p)" by auto
      from handleDdlEvent_sent [OF this] have
        "blp' = blp \<or> (\<exists>r. createDdlStream pkg e = Inr r \<and> blp' = blp\<lparr>sent := sent blp @ [[r]]\<rparr>)"
        by auto
      with ok createDdlStream_type show ?thesis by (auto simp: sentOK_def ddlBatch_def)
    next
      case False
      with pe run have "blp' = blp \<or> blp' = blp\<lparr>txnLineBuffer := txnLineBuffer blp @ [e]\<rparr>"
        by (auto split: if_splits)
      with ok show ?thesis by (auto simp: sentOK_def)
    qed
  qed
qed

text \<open>No function called from the loop raises the end-of-input panic.\<close>

lemma andThen_noEOF:
  assumes "snd r \<noteq> Some EOFRetry" and "\<And>b. snd (f b) \<noteq> Some EOFRetry"
  shows "snd (andThen r f) \<noteq> Some EOFRetry"
  using assms by (cases r) (auto simp: andThen_def split: option.splits)

lemma parseXid_noEOF: "snd (parseXid blp line) \<noteq> Some EOFRetry"
  by (simp add: parseXid_def split: option.splits)

lemma xidPart_noEOF: "snd (xidPart blp line) \<noteq> Some EOFRetry"
  by (simp add: xidPart_def parseXid_noEOF)

lemma parseMasterPosition_noEOF: "snd (parseMasterPosition blp line) \<noteq> Some EOFRetry"
  by (simp add: parseMasterPosition_def split: option.splits)

lemma parseRotateEvent_noEOF: "snd (parseRotateEvent pkg blp line) \<noteq> Some EOFRetry"
  by (simp add: parseRotateEvent_def Let_def split: option.splits prod.splits)

lemma parsePositionData_noEOF: "snd (parsePositionData pkg blp line) \<noteq> Some EOFRetry"
  unfolding parsePositionData_def
  by (simp add: xidPart_noEOF andThen_noEOF [OF parseRotateEvent_noEOF xidPart_noEOF]
      andThen_noEOF [OF parseMasterPosition_noEOF xidPart_noEOF])

lemma parseDbChange_noEOF: "snd (parseDbChange pkg dbname blp event) \<noteq> Some EOFRetry"
  by (simp add: parseDbChange_def Let_def split: option.splits)

lemma positioned_noEOF: "positioned pkg e \<noteq> Inl EOFRetry"
  by (simp add: positioned_def Let_def split: option.splits)

lemma createBeginEvent_noEOF: "createBeginEvent pkg e \<noteq> Inl EOFRetry"
  using positioned_noEOF [of pkg e] by (auto simp: createBeginEvent_def split: sum.splits)

lemma createCommitEvent_noEOF: "createCommitEvent pkg e \<noteq> Inl EOFRetry"
  using positioned_noEOF [of pkg e] by (auto simp: createCommitEvent_def split: sum.splits)

lemma createDdlStream_noEOF: "createDdlStream pkg e \<noteq> Inl EOFRetry"
  using positioned_noEOF [of pkg e] by (auto simp: createDdlStream_def split: sum.splits)

lemma parseKeyspaceId_noEOF: "parseKeyspaceId pkg sql t \<noteq> Inl EOFRetry"
  by (simp add: parseKeyspaceId_def Let_def split: option.splits)

lemma parseIndexPart_noEOF: "parseIndexPart sql c r \<noteq> Inl EOFRetry"
  by (simp add: parseIndexPart_def Let_def split: option.splits)

lemma parseSeqPart_noEOF: "parseSeqPart pkg sql c r \<noteq> Inl EOFRetry"
  by (simp add: parseSeqPart_def Let_def split: option.splits)

lemma parseIndexSeq_noEOF: "parseIndexSeq pkg sql \<noteq> Inl EOFRetry"
  using parseIndexPart_noEOF parseSeqPart_noEOF
  by (auto simp: parseIndexSeq_def Let_def split: option.splits sum.splits)

lemma createDmlEvent_noEOF: "createDmlEvent pkg e s \<noteq> Inl EOFRetry"
  using positioned_noEOF [of pkg e] parseIndexSeq_noEOF [of pkg "LogLine e"]
  by (auto simp: createDmlEvent_def Let_def split: sum.splits)

lemma buildTxnResponse_loop_noEOF:
  "buildTxnResponse_loop pkg kr events acc n buf \<noteq> Inl EOFRetry"
proof (induction events arbitrary: acc n buf)
  case Nil
  show ?case by simp
next
  case (Cons e events)
  show ?case
    using Cons.IH createBeginEvent_noEOF [of pkg e] createCommitEvent_noEOF [of pkg e]
      parseKeyspaceId_noEOF [of pkg "LogLine e" "GetDmlType (firstKw e)"]
      createDmlEvent_noEOF [of pkg e]
    by (auto simp: Let_def split: sum.splits prod.splits)
qed

lemma handleCommitEvent_noEOF: "snd (handleCommitEvent pkg blp c) \<noteq> Some EOFRetry"
proof (cases "dbmatch blp")
  case False
  then show ?thesis by (simp add: handleCommitEvent_def)
next
  case True
  show ?thesis
    using buildTxnResponse_loop_noEOF
    by (auto simp: handleCommitEvent_unfold [OF True] buildTxnResponse_def split: sum.splits prod.splits)
qed

lemma handleBeginEvent_noEOF: "snd (handleBeginEvent blp e) \<noteq> Some EOFRetry"
  by (simp add: handleBeginEvent_def)

lemma handleDdlEvent_noEOF: "snd (handleDdlEvent pkg blp e) \<noteq> Some EOFRetry"
  using createDdlStream_noEOF [of pkg e] by (auto simp: handleDdlEvent_def sendStream_def split: sum.splits)

lemma endTxn_noEOF: "snd (endTxn b) \<noteq> Some EOFRetry"
  by (simp add: endTxn_def)

lemma parseEventData_noEOF: "parseEventData pkg blp e \<noteq> (blp', Some EOFRetry)"
proof
  assume run: "parseEventData pkg blp e = (blp', Some EOFRetry)"
  consider (ts) "HasPrefix (LogLine e) BINLOG_SET_TIMESTAMP"
    | (bg) "\<not> HasPrefix (LogLine e) BINLOG_SET_TIMESTAMP" "HasPrefix (LogLine e) BINLOG_BEGIN"
    | (rb) "HasPrefix (LogLine e) BINLOG_ROLLBACK"
    | (cm) "\<not> HasPrefix (LogLine e) BINLOG_SET_TIMESTAMP" "\<not> HasPrefix (LogLine e) BINLOG_BEGIN"
        "\<not> HasPrefix (LogLine e) BINLOG_ROLLBACK" "HasPrefix (LogLine e) BINLOG_COMMIT"
    | (ot) "\<not> HasPrefix (LogLine e) BINLOG_SET_TIMESTAMP" "\<not> HasPrefix (LogLine e) BINLOG_BEGIN"
        "\<not> HasPrefix (LogLine e) BINLOG_ROLLBACK" "\<not> HasPrefix (LogLine e) BINLOG_COMMIT"
    by blast
  then show False
  proof cases
    case ts
    with run show False
      by (auto simp: parseEventData_def extractEventTimestamp_def Let_def split: if_splits option.splits)
  next
    case bg
    from run parseEventData_begin [OF bg] handleBeginEvent_noEOF [of blp e] show False by simp
  next
    case rb
    from run parseEventData_rollback [OF rb] show False by simp
  next
    case cm
    from run parseEventData_commit [OF cm]
      andThen_noEOF [of "handleCommitEvent pkg blp e" endTxn, OF handleCommitEvent_noEOF endTxn_noEOF]
    show False by simp
  next
    case ot
    from run parseEventData_other [OF ot, of pkg blp] handleDdlEvent_noEOF [of pkg blp e]
    show False by (auto split: if_splits)
  qed
qed

lemma andThen_cases:
  "andThen r f = (blp', p) \<Longrightarrow>
   (r = (blp', p) \<and> p \<noteq> None) \<or> (\<exists>b. r = (b, None) \<and> f b = (blp', p))"
  by (cases r) (auto simp: andThen_def split: option.splits)

lemma parseLine_step:
  assumes run: "parseLine pkg dbname (blp, loop) line = ((blp', loop'), p)"
  shows "sameTxn blp blp' \<or> (\<exists>b e. sameTxn blp b \<and> parseEventData pkg b e = (blp', p))"
proof (cases "line = []")
  case True
  with run show ?thesis by (simp add: parseLine_def sameTxn_refl)
next
  case ne: False
  show ?thesis
  proof (cases "hd line = CHR ''#''")
    case True
    let ?b = "blp\<lparr>currentLine := TrimSpace pkg line\<rparr>"
    from run ne True have "blp' = fst (parsePositionData pkg ?b (TrimSpace pkg line))"
      by (auto simp: parseLine_def Let_def split: prod.splits)
    moreover have "sameTxn blp ?b" by (simp add: sameTxn_def)
    ultimately show ?thesis using parsePositionData_same sameTxn_trans by blast
  next
    case nh: False
    show ?thesis
    proof (cases "initialSeek blp \<and> usingRelayLogs blp
                \<and> nextStmtPosition blp < MasterPosition (startPosition blp)")
      case True
      with run ne nh show ?thesis by (simp add: parseLine_def sameTxn_refl)
    next
      case ns: False
      let ?ev = "(if pl_readAhead loop
                    then map_option (\<lambda>e. e\<lparr>LogLine := LogLine e @ line\<rparr>) (pl_event loop)
                    else Some (NewEventBuffer (currentPosition blp) line))"
      show ?thesis
      proof (cases ?ev)
        case None
        with run ne nh ns have "blp' = blp" by (simp add: parseLine_def)
        then show ?thesis by (simp add: sameTxn_refl)
      next
        case (Some event)
        note ev = Some
        show ?thesis
        proof (cases "LastIndex (LogLine event) BINLOG_DELIMITER")
          case None
          with run ne nh ns ev have "blp' = blp" by (simp add: parseLine_def)
          then show ?thesis by (simp add: sameTxn_refl)
        next
          case (Some delimIndex)
          note di = Some
          let ?e1 = "event\<lparr>LogLine := TrimSpace pkg (take delimIndex (LogLine event))\<rparr>"
          show ?thesis
          proof (cases "nth_opt (SplitN2 (LogLine ?e1) SPACE) 0")
            case None
            with run ne nh ns ev di have "blp' = blp" by (simp add: parseLine_def Let_def)
            then show ?thesis by (simp add: sameTxn_refl)
          next
            case (Some kw)
            let ?e = "?e1\<lparr>firstKw := ToLower pkg kw\<rparr>"
            let ?b = "blp\<lparr>currentLine := LogLine ?e\<rparr>"
            from run ne nh ns ev di Some have
              r: "andThen (parseDbChange pkg dbname ?b ?e) (\<lambda>blp. parseEventData pkg blp ?e) = (blp', p)"
              by (simp add: parseLine_def Let_def split: prod.splits)
            have s0: "sameTxn blp ?b" by (simp add: sameTxn_def)
            from sameTxn_trans [OF s0 parseDbChange_same] have
              s1: "sameTxn blp (fst (parseDbChange pkg dbname ?b ?e))" .
            from andThen_cases [OF r] show ?thesis
            proof
              assume "parseDbChange pkg dbname ?b ?e = (blp', p) \<and> p \<noteq> None"
              with s1 show ?thesis by simp
            next
              assume "\<exists>b. parseDbChange pkg dbname ?b ?e = (b, None) \<and> parseEventData pkg b ?e = (blp', p)"
              then obtain b where b: "parseDbChange pkg dbname ?b ?e = (b, None)"
                "parseEventData pkg b ?e = (blp', p)" by blast
              from s1 b(1) have "sameTxn blp b" by simp
              with b(2) show ?thesis by blast
            qed
          qed
        qed
      qed
    qed
  qed
qed

lemma parsePositionData_noEOF': "parsePositionData pkg b l = (b', Some EOFRetry) \<Longrightarrow> False"
  using parsePositionData_noEOF [of pkg b l] by simp

lemma event_noEOF':
  "andThen (parseDbChange pkg dbname b e) (\<lambda>blp. parseEventData pkg blp e) = (b', Some EOFRetry) \<Longrightarrow> False"
proof -
  assume a: "andThen (parseDbChange pkg dbname b e) (\<lambda>blp. parseEventData pkg blp e) = (b', Some EOFRetry)"
  from andThen_cases [OF a] parseDbChange_noEOF [of pkg dbname b e] parseEventData_noEOF
  show False by auto
qed

lemma parseLine_noEOF: "parseLine pkg dbname (blp, loop) line \<noteq> (st', Some EOFRetry)"
  by (auto simp: parseLine_def Let_def split: if_splits option.splits prod.splits
      dest: parsePositionData_noEOF' event_noEOF')

lemma parseLine_inv:
  assumes inv: "txnInv blp" and run: "parseLine pkg dbname (blp, loop) line = ((blp', loop'), None)"
  shows "txnInv blp'"
  using parseLine_step [OF run] inv sameTxn_inv parseEventData_inv by blast

lemma parseLine_sentOK:
  assumes inv: "txnInv blp" and ok: "sentOK blp"
    and run: "parseLine pkg dbname (blp, loop) line = ((blp', loop'), p)"
  shows "sentOK blp' \<and> keyspaceRange blp' = keyspaceRange blp"
proof -
  from parseLine_step [OF run] show ?thesis
  proof
    assume "sameTxn blp blp'"
    with ok sameTxn_sentOK show ?thesis by (auto simp: sameTxn_def)
  next
    assume "\<exists>b e. sameTxn blp b \<and> parseEventData pkg b e = (blp', p)"
    then obtain b e where b: "sameTxn blp b" "parseEventData pkg b e = (blp', p)" by blast
    from parseEventData_sentOK [OF sameTxn_inv [OF b(1) inv] sameTxn_sentOK [OF b(1) ok] b(2)] b(1)
    show ?thesis by (simp add: sameTxn_def)
  qed
qed

lemma parseBinlogEvents_inv:
  assumes "txnInv (fst st)" and "sentOK (fst st)"
    and "parseBinlogEvents pkg dbname st ls = ((blp', loop'), p)"
  shows "sentOK blp' \<and> keyspaceRange blp' = keyspaceRange (fst st) \<and> (p = EOFRetry \<longrightarrow> txnInv blp')"
  using assms
proof (induction ls arbitrary: st)
  case Nil
  then show ?case by auto
next
  case (Cons line ls)
  obtain blp loop where st: "st = (blp, loop)" by (cases st) auto
  obtain b l q where pl: "parseLine pkg dbname (blp, loop) line = ((b, l), q)"
    by (metis prod.exhaust)
  from Cons.prems st have inv: "txnInv blp" and ok: "sentOK blp" by simp_all
  from parseLine_sentOK [OF inv ok pl] have okb: "sentOK b" "keyspaceRange b = keyspaceRange blp" by simp_all
  show ?case
  proof (cases q)
    case None
    with pl parseLine_inv [OF inv] have invb: "txnInv b" by blast
    from Cons.prems(3) st pl None have "parseBinlogEvents pkg dbname (b, l) ls = ((blp', loop'), p)" by simp
    from Cons.IH [of "(b, l)", simplified, OF invb okb(1) this] okb(2) st show ?thesis by simp
  next
    case (Some x)
    with Cons.prems(3) st pl have e: "blp' = b" "p = x" by simp_all
    have "x \<noteq> EOFRetry"
    proof
      assume "x = EOFRetry"
      with pl Some have pl': "parseLine pkg dbname (blp, loop) line = ((b, l), Some EOFRetry)" by simp
      with parseLine_noEOF show False by blast
    qed
    with e okb st show ?thesis by simp
  qed
qed

lemmas parser_defs = ServeBinlog_def streamBinlog_def parseLine_def parsePositionData_def
  parseEventData_def handleCommitEvent_def handleBeginEvent_def handleDdlEvent_def
  buildTxnResponse_def createDmlEvent_def createBeginEvent_def createCommitEvent_def
  createDdlStream_def positioned_def parseKeyspaceId_def parseIndexSeq_def parseIndexPart_def
  parseSeqPart_def controlDbStatement_def extractEventTimestamp_def parseDbChange_def
  parseMasterPosition_def parseXid_def parseRotateEvent_def xidPart_def endTxn_def andThen_def
  sendError_def sendStream_def NewBlp_def NewEventBuffer_def parseLoop0_def nth_opt_def
  Contains_sub_def setMaster_def zeroResponse_def zeroPosition_def zeroCoordinates_def

lemmas const_defs = BINLOG_DELIMITER_def BINLOG_POSITION_PREFIX_def BINLOG_ROTATE_TO_def
  BINLOG_BEGIN_def BINLOG_COMMIT_def BINLOG_ROLLBACK_def BINLOG_SET_TIMESTAMP_def
  BINLOG_END_LOG_POS_def BINLOG_XID_def BINLOG_START_def BINLOG_DB_CHANGE_def POS_def SPACE_def
  KEYSPACE_ID_COMMENT_def USER_ID_def INDEX_COMMENT_def SEQ_COMMENT_def COLON_def DOT_def
  END_COMMENT_def VT_PREFIX_def HEARTBEAT_def ADMIN_def MAX_KEY_def DML_def DDL_def BEGIN_def
  COMMIT_def sqlKwMap_def GetSqlType_def GetDmlType_def

lemmas string_defs = HasPrefix_def Split_def SplitN2_def TrimRight_def
  isDigit_def digitVal_def decimalValue_def ParseUint_def ParseInt_def

lemmas spec_defs = specPackages_def spec_Contains_def spec_Uint64Key_def spec_Hex_def hexDigit_def
  spec_Encode_def spec_IsTxnStatement_def TrimSpace_ascii_def asciiSpace_def ToLower_ascii_def
  toLower_ascii_def

lemma start_inv:
  "txnInv (ServeBinlog_blp pkg start kr) \<and> sentOK (ServeBinlog_blp pkg start kr)
   \<and> keyspaceRange (ServeBinlog_blp pkg start kr) = kr"
  by (simp add: ServeBinlog_blp_def NewBlp_def txnInv_def sentOK_def)

lemma reach_inv:
  assumes "parseBinlogEvents pkg dbname (ServeBinlog_blp pkg start kr, parseLoop0) ls = ((blp, loop), p)"
  shows "sentOK blp \<and> keyspaceRange blp = kr \<and> (p = EOFRetry \<longrightarrow> txnInv blp)"
  using parseBinlogEvents_inv [of "(ServeBinlog_blp pkg start kr, parseLoop0)" pkg dbname ls blp loop p]
    start_inv [of pkg start kr] assms by simp

lemma commit_prefix_excl:
  "HasPrefix l BINLOG_COMMIT \<Longrightarrow>
   \<not> HasPrefix l BINLOG_SET_TIMESTAMP \<and> \<not> HasPrefix l BINLOG_BEGIN \<and> \<not> HasPrefix l BINLOG_ROLLBACK"
  by (cases l; simp add: HasPrefix_def BINLOG_SET_TIMESTAMP_def BINLOG_BEGIN_def BINLOG_COMMIT_def BINLOG_ROLLBACK_def)



lemma parseEventData_commit_txn:
  assumes inv: "txnInv blp" and tx: "inTxn blp" and db: "dbmatch blp"
    and c: "HasPrefix (LogLine c) BINLOG_COMMIT"
    and run: "parseEventData pkg blp c = (blp', None)"
  shows "\<exists>b mids. txnLineBuffer blp = b # mids \<and> isBegin b
     \<and> map respKey (responseStream blp')
          = (BEGIN, [], coordinates (eb_BinlogPosition b), [])
            # map (dmlKey pkg) (filter (dmlInRange pkg (keyspaceRange blp)) mids)
            @ [(COMMIT, [], coordinates (eb_BinlogPosition c), [])]
     \<and> sent blp' = (if filter (dmlInRange pkg (keyspaceRange blp)) mids = [] then sent blp
                    else sent blp @ [responseStream blp'])
     \<and> \<not> inTxn blp' \<and> txnLineBuffer blp' = []"
proof -
  from txnInv_buffer [OF inv tx] obtain b mids where
    bm: "txnLineBuffer blp = b # mids" "isBegin b" "\<forall>e \<in> set mids. \<not> isBegin e \<and> \<not> isCommit e"
    by blast
  from commit_prefix_excl [OF c] c have
    pe: "parseEventData pkg blp c = andThen (handleCommitEvent pkg blp c) endTxn"
    by (simp add: parseEventData_commit)
  from andThen_cases [OF run [unfolded pe]] obtain b1 where
    b1: "handleCommitEvent pkg blp c = (b1, None)" "endTxn b1 = (blp', None)" by auto
  from b1(2) have e: "blp' = b1\<lparr>inTxn := False, txnLineBuffer := []\<rparr>" by (simp add: endTxn_def)
  from c have ic: "isCommit c" by (simp add: isCommit_def)
  from handleCommitEvent_txn [OF bm(1,2) ic bm(3) db b1(1)] e bm(1,2) show ?thesis by simp
qed


lemmas s4_defs = s4Lines_def s4Start_def s4Range_def s4Blp_def s4Loop_def s4Event_def s4Coord_def
  s4Insert1_def s4Insert2_def ServeBinlog_blp_def

lemma s4_prefix_run:
  "parseBinlogEvents specPackages ''db'' (ServeBinlog_blp specPackages s4Start s4Range, parseLoop0) s4Lines
     = ((s4Blp, s4Loop), EOFRetry)"
  by (simp add: s4_defs parser_defs const_defs string_defs spec_defs Let_def)

lemma s4_commit:
  "snd (parseEventData specPackages s4Blp (s4Event 447 ''COMMIT'' ''commit'')) = None
   \<and> map respKey (responseStream (fst (parseEventData specPackages s4Blp (s4Event 447 ''COMMIT'' ''commit''))))
       = [(''BEGIN'', [], s4Coord 183, []),
          (''insert'', ''11529215046068469760'', s4Coord 420, LogLine s4Insert2),
          (''COMMIT'', [], s4Coord 447, [])]"
  by (simp add: s4_defs parser_defs const_defs string_defs spec_defs Let_def respKey_def)

lemma s4_filter:
  "filter (dmlInRange specPackages s4Range) [s4Insert1, s4Insert2] = [s4Insert2]"
  by (simp add: s4_defs dmlInRange_def extractedId_def parser_defs const_defs string_defs spec_defs Let_def)


lemma s4_events:
  "parseEventData specPackages s4Blp (s4Event 447 ''ROLLBACK'' ''rollback'')
     = (s4Blp\<lparr>inTxn := False, txnLineBuffer := []\<rparr>, None)"
  "parseEventData specPackages s4Blp (s4Event 447 ''BEGIN'' ''begin'')
     = (s4Blp, Some (BeginWithNonEmptyBuffer 3))"
  by (simp_all add: s4_defs parser_defs const_defs string_defs spec_defs Let_def)

text \<open>
  C3. In every state that the stream reaches by reading lines without a panic, with a
  transaction open and the database matching, a \<open>COMMIT\<close> event that is handled without a
  panic builds the response of the begin event (the first buffered event), the events of
  exactly those buffered DML statements whose extracted keyspace id lies in the key range
  of the subscriber, in order, and the commit event; the response is sent as one batch
  when it holds a DML event, and nothing at all is sent when it holds none. The
  transaction is then closed and the buffer empty.
\<close>

theorem commit_sends_filtered_txn:
  assumes "parseBinlogEvents pkg dbname (ServeBinlog_blp pkg start kr, parseLoop0) ls
             = ((blp, loop), EOFRetry)"
    and "inTxn blp" and "dbmatch blp" and "HasPrefix (LogLine c) BINLOG_COMMIT"
    and "parseEventData pkg blp c = (blp', None)"
  shows "\<exists>b mids. txnLineBuffer blp = b # mids \<and> isBegin b
     \<and> map respKey (responseStream blp')
          = (BEGIN, [], coordinates (eb_BinlogPosition b), [])
            # map (dmlKey pkg) (filter (dmlInRange pkg kr) mids)
            @ [(COMMIT, [], coordinates (eb_BinlogPosition c), [])]
     \<and> sent blp' = (if filter (dmlInRange pkg kr) mids = [] then sent blp
                    else sent blp @ [responseStream blp'])
     \<and> \<not> inTxn blp' \<and> txnLineBuffer blp' = []"
proof -
  from reach_inv [OF assms(1)] have inv: "txnInv blp" and kr: "keyspaceRange blp = kr" by simp_all
  from parseEventData_commit_txn [OF inv assms(2,3,4,5)] show ?thesis unfolding kr .
qed

theorem commit_sends_filtered_txn_witness:
  "parseBinlogEvents specPackages ''db'' (ServeBinlog_blp specPackages s4Start s4Range, parseLoop0) s4Lines
     = ((s4Blp, s4Loop), EOFRetry)
   \<and> inTxn s4Blp \<and> dbmatch s4Blp
   \<and> HasPrefix (LogLine (s4Event 447 ''COMMIT'' ''commit'')) BINLOG_COMMIT
   \<and> snd (parseEventData specPackages s4Blp (s4Event 447 ''COMMIT'' ''commit'')) = None
   \<and> txnLineBuffer s4Blp = [s4Event 183 ''BEGIN'' ''begin'', s4Insert1, s4Insert2]
   \<and> filter (dmlInRange specPackages s4Range) [s4Insert1, s4Insert2] = [s4Insert2]
   \<and> map respKey (responseStream (fst (parseEventData specPackages s4Blp (s4Event 447 ''COMMIT'' ''commit''))))
       = [(''BEGIN'', [], s4Coord 183, []),
          (''insert'', ''11529215046068469760'', s4Coord 420, LogLine s4Insert2),
          (''COMMIT'', [], s4Coord 447, [])]
   \<and> sent (fst (parseEventData specPackages s4Blp (s4Event 447 ''COMMIT'' ''commit'')))
       = [responseStream (fst (parseEventData specPackages s4Blp (s4Event 447 ''COMMIT'' ''commit'')))]"
proof -
  let ?c = "s4Event 447 ''COMMIT'' ''commit''"
  let ?r = "parseEventData specPackages s4Blp ?c"
  have h2: "inTxn s4Blp" and h3: "dbmatch s4Blp" by (simp_all add: s4Blp_def)
  have h4: "HasPrefix (LogLine ?c) BINLOG_COMMIT"
    by (simp add: s4Event_def HasPrefix_def BINLOG_COMMIT_def)
  have h5: "?r = (fst ?r, None)" using s4_commit by (simp add: prod_eq_iff)
  have buf: "txnLineBuffer s4Blp = [s4Event 183 ''BEGIN'' ''begin'', s4Insert1, s4Insert2]"
    by (simp add: s4Blp_def)
  have s0: "sent s4Blp = []" by (simp add: s4Blp_def)
  from commit_sends_filtered_txn [OF s4_prefix_run h2 h3 h4 h5] obtain b mids where
    t: "txnLineBuffer s4Blp = b # mids"
       "sent (fst ?r) = (if filter (dmlInRange specPackages s4Range) mids = [] then sent s4Blp
                         else sent s4Blp @ [responseStream (fst ?r)])"
    by blast
  from t(1) buf have "mids = [s4Insert1, s4Insert2]" by simp
  with t(2) s4_filter s0 have snt: "sent (fst ?r) = [responseStream (fst ?r)]" by simp
  show ?thesis
    using s4_prefix_run h2 h3 h4 s4_commit buf s4_filter snt by (intro conjI) simp_all
qed



section \<open>Binlog server: the sleep that the throttle ticker assigns\<close>

lemma sint_Minute: "sint Minute = 60000000000"
  by (simp add: Minute_def Millisecond_def)

lemma Unmarshal_distinct:
  "distinct (map fst m) \<Longrightarrow> distinct (map fst (Unmarshal decoded m))"
  unfolding Unmarshal_def
proof (induction decoded arbitrary: m)
  case Nil
  then show ?case by simp
next
  case (Cons kv decoded)
  obtain k v where kv: "kv = (k, v)" by (cases kv) auto
  from Cons.prems have "distinct (map fst (AList.update k v m))" by (rule distinct_update)
  from Cons.IH [OF this] kv show ?case by simp
qed

lemma Unmarshal_keys:
  "fst ` set m \<subseteq> fst ` set (Unmarshal decoded m)"
  unfolding Unmarshal_def
proof (induction decoded arbitrary: m)
  case Nil
  then show ?case by simp
next
  case (Cons kv decoded)
  obtain k v where kv: "kv = (k, v)" by (cases kv) auto
  have "fst ` set m \<subseteq> fst ` set (AList.update k v m)" by (auto simp: dom_update)
  with Cons.IH [of "AList.update k v m"] kv show ?case by auto
qed

lemma rateLoop_char:
  "distinct (map fst rates) \<Longrightarrow>
   rateLoop fl rates kr0 t0 n0 = (kr', tot, N) \<Longrightarrow>
   N = ((\<lambda>x. f_add fl x (f_one fl)) ^^ length rates) n0
   \<and> tot = foldl (\<lambda>t (kr, rateList). f_add fl t (avgRate fl rateList)) t0 rates
   \<and> (\<forall>k. map_of kr' k = (case map_of rates k of Some rl \<Rightarrow> Some (avgRate fl rl) | None \<Rightarrow> map_of kr0 k))"
proof (induction rates arbitrary: kr0 t0 n0)
  case Nil
  then show ?case by simp
next
  case (Cons e rates)
  obtain kr rl where e: "e = (kr, rl)" by (cases e) auto
  from Cons.prems(1) e have d: "distinct (map fst rates)" and nk: "kr \<notin> fst ` set rates" by simp_all
  from Cons.prems(2) e have
    r: "rateLoop fl rates (AList.update kr (avgRate fl rl) kr0) (f_add fl t0 (avgRate fl rl))
          (f_add fl n0 (f_one fl)) = (kr', tot, N)"
    by (simp add: Let_def)
  from Cons.IH [OF d r] have
    ih: "N = ((\<lambda>x. f_add fl x (f_one fl)) ^^ length rates) (f_add fl n0 (f_one fl))"
        "tot = foldl (\<lambda>t (kr, rateList). f_add fl t (avgRate fl rateList)) (f_add fl t0 (avgRate fl rl)) rates"
        "\<forall>k. map_of kr' k = (case map_of rates k of Some rl' \<Rightarrow> Some (avgRate fl rl')
                              | None \<Rightarrow> map_of (AList.update kr (avgRate fl rl) kr0) k)"
    by blast+
  have sw: "((\<lambda>x. f_add fl x (f_one fl)) ^^ length rates) ((\<lambda>x. f_add fl x (f_one fl)) n0)
      = (\<lambda>x. f_add fl x (f_one fl)) (((\<lambda>x. f_add fl x (f_one fl)) ^^ length rates) n0)"
    by (rule funpow_swap1 [symmetric])
  have a: "N = ((\<lambda>x. f_add fl x (f_one fl)) ^^ length (e # rates)) n0"
    using ih(1) sw by simp
  have b: "tot = foldl (\<lambda>t (kr, rateList). f_add fl t (avgRate fl rateList)) t0 (e # rates)"
    using ih(2) e by simp
  have none: "map_of rates kr = None" using nk by (simp add: map_of_eq_None_iff)
  have c: "\<forall>k. map_of kr' k = (case map_of (e # rates) k of Some rl' \<Rightarrow> Some (avgRate fl rl')
                              | None \<Rightarrow> map_of kr0 k)"
  proof
    fix k
    show "map_of kr' k = (case map_of (e # rates) k of Some rl' \<Rightarrow> Some (avgRate fl rl')
                              | None \<Rightarrow> map_of kr0 k)"
    proof (cases "k = kr")
      case True
      with ih(3) none e show ?thesis by (simp add: update_conv')
    next
      case False
      with ih(3) e show ?thesis by (simp add: update_conv' split: option.splits)
    qed
  qed
  from a b c show ?case by blast
qed

lemma assignSleep_throttled:
  assumes kr: "\<forall>k. map_of krRates k = map_option (avgRate fl) (map_of rates k)"
  shows "assignSleep fl Minute krRates (f_div fl rateCeiling (countOf fl (length rates))) c
           = throttled fl rateCeiling rates c"
proof -
  have "map_of krRates (''DmlCount.'' @ keyrangeTag c) = clientRate fl rates c"
    using kr by (simp add: clientRate_def)
  then show ?thesis
    by (simp add: assignSleep_def throttled_def throttleSleep_def sint_Minute Let_def Millisecond_def
        split: option.splits)
qed

lemma throttleTick_above:
  assumes cl: "clients server \<noteq> []"
    and nz: "\<not> f_eq fl (throttleRate server) (f_zero fl)"
    and d: "distinct (map fst (rateMap maps))"
    and k0: "fst ` set (krRateMap maps) \<subseteq> fst ` set (rateMap maps)"
  shows "\<exists>maps'. throttleTick fl server maps (Some entries)
           = ((if f_gt fl (totalOf fl (Unmarshal entries (rateMap maps))) (throttleRate server)
               then server\<lparr>clients := map (throttled fl (throttleRate server)
                                            (Unmarshal entries (rateMap maps))) (clients server)\<rparr>
               else server, maps'), True)
         \<and> rateMap maps' = Unmarshal entries (rateMap maps)
         \<and> distinct (map fst (rateMap maps'))
         \<and> fst ` set (krRateMap maps') \<subseteq> fst ` set (rateMap maps')"
proof -
  let ?rates = "Unmarshal entries (rateMap maps)"
  obtain kr' tot N where r: "rateLoop fl ?rates (krRateMap maps) (f_zero fl) (f_zero fl) = (kr', tot, N)"
    by (metis prod.exhaust)
  have dr: "distinct (map fst ?rates)" using d by (rule Unmarshal_distinct)
  from rateLoop_char [OF dr r] have
    c: "N = countOf fl (length ?rates)" "tot = totalOf fl ?rates"
       "\<forall>k. map_of kr' k = (case map_of ?rates k of Some rl \<Rightarrow> Some (avgRate fl rl)
                             | None \<Rightarrow> map_of (krRateMap maps) k)"
    by (simp_all add: countOf_def totalOf_def)
  have keys: "fst ` set (krRateMap maps) \<subseteq> fst ` set ?rates"
    using k0 Unmarshal_keys [of "rateMap maps" entries] by blast
  have look: "\<forall>k. map_of kr' k = map_option (avgRate fl) (map_of ?rates k)"
  proof
    fix k
    show "map_of kr' k = map_option (avgRate fl) (map_of ?rates k)"
    proof (cases "map_of ?rates k")
      case None
      then have "k \<notin> fst ` set ?rates" by (simp add: map_of_eq_None_iff)
      with keys have "k \<notin> fst ` set (krRateMap maps)" by blast
      then have "map_of (krRateMap maps) k = None" by (simp add: map_of_eq_None_iff)
      with c(3) None show ?thesis by simp
    next
      case (Some rl)
      with c(3) show ?thesis by simp
    qed
  qed
  have sub: "fst ` set kr' \<subseteq> fst ` set ?rates"
  proof
    fix k assume "k \<in> fst ` set kr'"
    then have "map_of kr' k \<noteq> None" by (simp add: map_of_eq_None_iff)
    with look have "map_of ?rates k \<noteq> None" by auto
    then show "k \<in> fst ` set ?rates" by (simp add: map_of_eq_None_iff)
  qed
  let ?maps = "\<lparr>rateMap = ?rates, krRateMap = kr'\<rparr>"
  have m: "map (assignSleep fl Minute kr' (f_div fl (throttleRate server) N)) (clients server)
             = map (throttled fl (throttleRate server) ?rates) (clients server)"
    unfolding c(1) using assignSleep_throttled [OF look] by simp
  have "throttleTick fl server maps (Some entries)
           = ((if f_gt fl (totalOf fl ?rates) (throttleRate server)
               then server\<lparr>clients := map (throttled fl (throttleRate server) ?rates) (clients server)\<rparr>
               else server, ?maps), True)"
    using cl nz r m c(2) by (simp add: throttleTick_def Let_def)
  moreover have "rateMap ?maps = ?rates" by simp
  moreover have "distinct (map fst (rateMap ?maps))" using dr by simp
  moreover have "fst ` set (krRateMap ?maps) \<subseteq> fst ` set (rateMap ?maps)" using sub by simp
  ultimately show ?thesis by blast
qed

lemmas throttle_defs = throttleTick_def assignSleep_def rateLoop.simps avgRate_def avgRate_loop.simps
  Unmarshal_def exactArith_def Minute_def Millisecond_def noMaps_def throttleClient_def NewBlp_def
  AList.update.simps Let_def

lemma throttle_ex1:
  "map sleepToThrottle (clients (fst (fst (throttleTick exactArith throttleServer1 noMaps (Some throttleRates1)))))
     = [30000000, 30000000]"
  by (simp add: throttle_defs throttleServer1_def throttleRates1_def)

lemma throttle_ex2:
  "map sleepToThrottle (clients (fst (fst (throttleTick exactArith throttleServer2 noMaps (Some throttleRates2)))))
     = [30000000]"
  by (simp add: throttle_defs throttleServer2_def throttleRates2_def)

text \<open>
  C8, as stated, fails in the unit of the sleep and in the divisor of the fair share. Two
  subscribers at 2 statements per second under a ceiling of 2 have the fair share 1, and
  the claimed sleep is half the tick of one minute, 30 seconds: the ticker assigns 30
  milliseconds. One subscriber at 4 under a ceiling of 4 is at its fair share when the
  ceiling is divided by the number of subscribers, and the claimed sleep is zero: the rate
  map has two entries, the ticker divides by 2 and assigns 30 milliseconds.
\<close>

theorem throttle_sleep_counterexample:
  "map sleepToThrottle (clients (fst (fst (throttleTick exactArith throttleServer1 noMaps (Some throttleRates1)))))
     = [30000000, 30000000]
   \<and> real_of_int (sint Minute) * ((2 - 2 / 2) / 2) = 30000000000
   \<and> map sleepToThrottle (clients (fst (fst (throttleTick exactArith throttleServer2 noMaps (Some throttleRates2)))))
     = [30000000]
   \<and> length (clients throttleServer2) = 1 \<and> \<not> (4 / 1 < (4::real))"
  using throttle_ex1 throttle_ex2 by (simp add: sint_Minute throttleServer2_def)

text \<open>
  C8, amended. At a tick with subscribers, a ceiling other than zero and a readable rate
  map, when the sum of the average rates of the entries of the rate map is above the
  ceiling, every subscriber whose key has an entry in the rate map with an average rate
  \<open>qps\<close> above \<open>max\<close>, the ceiling divided by the number of entries of the rate map, is
  assigned the sleep of \<open>int64(seconds * ((qps - max) / qps))\<close> milliseconds, where \<open>seconds\<close>
  is the length of the tick in seconds (60), and every other subscriber is assigned zero
  sleep; nothing else of a subscriber changes, and the ticker goes on. The arithmetic is
  that of \<open>float64\<close>, whatever it is.
\<close>

theorem throttle_sleep_assigned:
  assumes "clients server \<noteq> []"
    and "\<not> f_eq fl (throttleRate server) (f_zero fl)"
    and "distinct (map fst (rateMap maps))"
    and "fst ` set (krRateMap maps) \<subseteq> fst ` set (rateMap maps)"
    and "rates = Unmarshal entries (rateMap maps)"
    and "f_gt fl (totalOf fl rates) (throttleRate server)"
    and "clientMaxQps = f_div fl (throttleRate server) (countOf fl (length rates))"
  shows "clients (fst (fst (throttleTick fl server maps (Some entries))))
           = map (throttled fl (throttleRate server) rates) (clients server)
     \<and> snd (throttleTick fl server maps (Some entries))
     \<and> throttled fl (throttleRate server) rates blpClient
         = blpClient\<lparr>sleepToThrottle :=
             (case map_option (avgRate fl) (map_of rates (''DmlCount.'' @ keyrangeTag blpClient)) of
                Some krQps \<Rightarrow>
                  if f_gt fl krQps clientMaxQps
                  then sint (word_of_int (f_int64 fl (f_mul fl (f_Seconds fl 60000000000)
                                                     (f_div fl (f_sub fl krQps clientMaxQps) krQps)))
                             * (1000000 :: 64 word))
                  else 0
              | None \<Rightarrow> 0)\<rparr>"
proof -
  from throttleTick_above [OF assms(1-4), of entries] assms(5,6) obtain maps' where
    "throttleTick fl server maps (Some entries)
       = ((server\<lparr>clients := map (throttled fl (throttleRate server) rates) (clients server)\<rparr>, maps'), True)"
    by auto
  then have a: "clients (fst (fst (throttleTick fl server maps (Some entries))))
           = map (throttled fl (throttleRate server) rates) (clients server)"
    and b: "snd (throttleTick fl server maps (Some entries))" by simp_all
  have c: "throttled fl (throttleRate server) rates blpClient
         = blpClient\<lparr>sleepToThrottle :=
             (case map_option (avgRate fl) (map_of rates (''DmlCount.'' @ keyrangeTag blpClient)) of
                Some krQps \<Rightarrow>
                  if f_gt fl krQps clientMaxQps
                  then sint (word_of_int (f_int64 fl (f_mul fl (f_Seconds fl 60000000000)
                                                     (f_div fl (f_sub fl krQps clientMaxQps) krQps)))
                             * (1000000 :: 64 word))
                  else 0
              | None \<Rightarrow> 0)\<rparr>"
    unfolding assms(7)
    by (cases "map_of rates (''DmlCount.'' @ keyrangeTag blpClient)")
      (simp_all add: throttled_def clientRate_def throttleSleep_def Let_def)
  from a b c show ?thesis by blast
qed

theorem throttle_sleep_assigned_witness:
  "clients throttleServer1 \<noteq> []
   \<and> \<not> f_eq exactArith (throttleRate throttleServer1) (f_zero exactArith)
   \<and> distinct (map fst (rateMap noMaps))
   \<and> throttleRates1 = Unmarshal throttleRates1 (rateMap noMaps)
   \<and> f_gt exactArith (totalOf exactArith throttleRates1) (throttleRate throttleServer1)
   \<and> (1::real) = f_div exactArith (throttleRate throttleServer1) (countOf exactArith (length throttleRates1))
   \<and> clients (fst (fst (throttleTick exactArith throttleServer1 noMaps (Some throttleRates1))))
       = map (throttled exactArith (throttleRate throttleServer1) throttleRates1) (clients throttleServer1)
   \<and> throttled exactArith (throttleRate throttleServer1) throttleRates1 (throttleClient ''c0'')
       = (throttleClient ''c0'')\<lparr>sleepToThrottle := 30000000\<rparr>"
proof -
  have h1: "clients throttleServer1 \<noteq> []" by (simp add: throttleServer1_def)
  have h2: "\<not> f_eq exactArith (throttleRate throttleServer1) (f_zero exactArith)"
    by (simp add: throttleServer1_def exactArith_def)
  have h3: "distinct (map fst (rateMap noMaps))" by (simp add: noMaps_def)
  have h4: "fst ` set (krRateMap noMaps) \<subseteq> fst ` set (rateMap noMaps)" by (simp add: noMaps_def)
  have h5: "throttleRates1 = Unmarshal throttleRates1 (rateMap noMaps)"
    by (simp add: throttleRates1_def Unmarshal_def noMaps_def)
  have h6: "f_gt exactArith (totalOf exactArith throttleRates1) (throttleRate throttleServer1)"
    by (simp add: totalOf_def throttleRates1_def throttleServer1_def avgRate_def exactArith_def)
  have h7: "(1::real) = f_div exactArith (throttleRate throttleServer1) (countOf exactArith (length throttleRates1))"
    by (simp add: countOf_def throttleRates1_def throttleServer1_def exactArith_def numeral_2_eq_2)
  note t = throttle_sleep_assigned [OF h1 h2 h3 h4 h5 h6 h7, of "throttleClient ''c0''"]
  have look: "map_option (avgRate exactArith) (map_of throttleRates1 (''DmlCount.'' @ keyrangeTag (throttleClient ''c0'')))
      = Some 2"
    by (simp add: throttleRates1_def throttleClient_def avgRate_def exactArith_def)
  have val: "sint (word_of_int (f_int64 exactArith (f_mul exactArith (f_Seconds exactArith 60000000000)
                 (f_div exactArith (f_sub exactArith 2 1) 2))) * (1000000 :: 64 word)) = 30000000"
    by (simp add: exactArith_def)
  have gt: "f_gt exactArith 2 1" by (simp add: exactArith_def)
  from t [THEN conjunct2, THEN conjunct2] have
    r: "throttled exactArith (throttleRate throttleServer1) throttleRates1 (throttleClient ''c0'')
       = (throttleClient ''c0'')\<lparr>sleepToThrottle := 30000000\<rparr>"
    unfolding look using gt val by simp
  show ?thesis
    by (rule conjI [OF h1 conjI [OF h2 conjI [OF h3 conjI [OF h5 conjI [OF h6 conjI [OF h7
          conjI [OF t [THEN conjunct1] r]]]]]]])
qed

end
